theory Spec2Isabelle
  imports Complex_Main
begin

section \<open>C integers\<close>

text \<open>
  The extension computes with C \<^verbatim>\<open>int\<close> (32 bits, two's complement) and converts to and
  from \<^verbatim>\<open>size_t\<close> (64 bits). Values are kept as HOL integers and the wrap-around is
  written out wherever the source does arithmetic or converts.
\<close>

definition c_int :: "int \<Rightarrow> int" where
  "c_int k = signed_take_bit 31 k"

definition int_of_size_t :: "nat \<Rightarrow> int" where
  "int_of_size_t n = c_int (int n)"

definition size_t_of_int :: "int \<Rightarrow> nat" where
  "size_t_of_int k = nat (take_bit 64 k)"

text \<open>C division truncates towards zero.\<close>

definition c_div :: "int \<Rightarrow> int \<Rightarrow> int" where
  "c_div a b = (if (a < 0) = (b < 0) then \<bar>a\<bar> div \<bar>b\<bar> else - (\<bar>a\<bar> div \<bar>b\<bar>))"

section \<open>Data model\<close>

text \<open>
  Doubles are only copied by this layer, never computed with, so their type \<open>'d\<close> is left
  open; the one constant the source writes, \<^verbatim>\<open>0.0\<close>, is the \<open>0\<close> of that type.
\<close>

record 'd svm_node =
  index :: int
  "value" :: 'd

text \<open>
  Modelled from the spec: the engine's header with \<^verbatim>\<open>struct svm_parameter\<close>,
  \<^verbatim>\<open>struct svm_model\<close>, \<^verbatim>\<open>struct svm_problem\<close> and the \<^verbatim>\<open>svm_type\<close> enumeration is not part
  of the sources; the fields are those of the spec's data model, a pointer that may be
  \<^verbatim>\<open>NULL\<close> is an \<open>option\<close>. The one-letter fields \<^verbatim>\<open>C\<close>, \<^verbatim>\<open>p\<close>, \<^verbatim>\<open>l\<close>, \<^verbatim>\<open>x\<close>, \<^verbatim>\<open>y\<close> carry a prefix.
\<close>

definition C_SVC :: int where "C_SVC = 0"
definition NU_SVC :: int where "NU_SVC = 1"
definition ONE_CLASS :: int where "ONE_CLASS = 2"
definition EPSILON_SVR :: int where "EPSILON_SVR = 3"
definition NU_SVR :: int where "NU_SVR = 4"

record 'd svm_parameter =
  svm_type :: int
  kernel_type :: int
  degree :: int
  gamma :: 'd
  coef0 :: 'd
  cache_size :: 'd
  eps :: 'd
  param_C :: 'd
  nr_weight :: int
  weight_label :: "int list option"
  weight :: "'d list option"
  nu :: 'd
  param_p :: 'd
  shrinking :: int
  probability :: int

record 'd svm_model =
  param :: "'d svm_parameter"
  nr_class :: int
  model_l :: int
  SV :: "'d svm_node list list"
  sv_coef :: "'d list list"
  rho :: "'d list"
  probA :: "'d list option"
  probB :: "'d list option"
  label :: "int list option"
  nSV :: "int list option"
  free_sv :: int

record 'd svm_problem =
  prob_l :: int
  prob_y :: "'d list"
  prob_x :: "'d svm_node list list"

text \<open>A freshly created output array: its shape and its contiguous buffer.\<close>

record 'd narray =
  na_shape :: "nat list"
  na_data :: "'d list"

section \<open>Failures, native allocations, calls of the engine\<close>

text \<open>
  A call of the extension ends in one of three ways: it returns, a Ruby exception raised
  by a collaborator unwinds it (none of the functions installs a handler), or the C code
  leaves an allocated block (undefined behaviour, kept as the failure \<open>OutOfBounds\<close>).
\<close>

datatype error = RubyException string | OutOfBounds

text \<open>The native blocks a call owns, one name per \<^verbatim>\<open>ALLOC\<close> site or decoded structure.\<close>

datatype block =
  ParamStruct | ModelStruct | ProblemStruct | ProblemX | ProblemY | NodeRow int
  | XNodes | DecValues | Probs | EngineModel

datatype 'd call =
  SetPrintStringFunction
  | Train "'d svm_problem" "'d svm_parameter"
  | CrossValidation "'d svm_problem" "'d svm_parameter" int
  | Predict "'d svm_model" "'d svm_node list"
  | PredictValues "'d svm_model" "'d svm_node list"
  | PredictProbability "'d svm_model" "'d svm_node list"
  | LoadModel string
  | SaveModel string "'d svm_model"
  | FreeAndDestroyModel

text \<open>
  The effects of one call of the extension: the blocks it has allocated and not yet
  released, and the calls it has made to the engine, oldest first.
\<close>

record 'd world =
  live :: "block list"
  calls :: "'d call list"

definition start :: "'d world" where
  "start = \<lparr>live = [], calls = []\<rparr>"

definition ALLOC :: "block \<Rightarrow> 'd world \<Rightarrow> 'd world" where
  "ALLOC b w = w\<lparr>live := b # live w\<rparr>"

definition xfree :: "block \<Rightarrow> 'd world \<Rightarrow> 'd world" where
  "xfree b w = w\<lparr>live := remove1 b (live w)\<rparr>"

definition invoke :: "'d call \<Rightarrow> 'd world \<Rightarrow> 'd world" where
  "invoke c w = w\<lparr>calls := calls w @ [c]\<rparr>"

text \<open>
  Modelled from the spec: \<^verbatim>\<open>xfree_svm_parameter\<close> and \<^verbatim>\<open>xfree_svm_model\<close> are defined outside
  \<^verbatim>\<open>libsvm.c\<close>; by the spec they free the structure together with its nested arrays.
\<close>

definition xfree_svm_parameter :: "'d world \<Rightarrow> 'd world" where
  "xfree_svm_parameter w = xfree ParamStruct w"

definition xfree_svm_model :: "'d world \<Rightarrow> 'd world" where
  "xfree_svm_model w = xfree ModelStruct w"

subsection \<open>Reading and writing C arrays\<close>

definition rd :: "'a list \<Rightarrow> int \<Rightarrow> error + 'a" where
  "rd buf k = (if 0 \<le> k \<and> nat k < length buf then Inr (buf ! nat k) else Inl OutOfBounds)"

definition upd :: "'a list \<Rightarrow> int \<Rightarrow> ('a \<Rightarrow> 'a) \<Rightarrow> error + 'a list" where
  "upd buf k f =
     (if 0 \<le> k \<and> nat k < length buf then Inr (buf[nat k := f (buf ! nat k)])
      else Inl OutOfBounds)"

text \<open>A routine of the engine that is handed a pointer writes its results from there on.\<close>

fun store :: "'a list \<Rightarrow> int \<Rightarrow> 'a list \<Rightarrow> error + 'a list" where
  "store buf k [] = Inr buf"
| "store buf k (v # vs) =
     (case upd buf k (\<lambda>_. v) of Inl e \<Rightarrow> Inl e | Inr buf' \<Rightarrow> store buf' (k + 1) vs)"

section \<open>The collaborators\<close>

text \<open>
  The Ruby runtime, the array library, the hash codecs of the extension's other files and
  the engine are parameters of the model. \<open>'v\<close> is the type of Ruby values, \<open>'h\<close> that of
  the hashes for parameters and models. A collaborator that can raise returns a sum: the
  \<^verbatim>\<open>cast\<close> method called through \<^verbatim>\<open>rb_funcall\<close>, the conversions \<^verbatim>\<open>NUM2INT\<close> and
  \<^verbatim>\<open>StringValuePtr\<close>, and the two decoders. Allocation, the array accessors and the
  encoders are taken to succeed. \<open>garbage_node\<close> and \<open>garbage_double\<close> give the
  indeterminate content of fresh memory, cell by cell.
\<close>

record ('v, 'h, 'd) env =
  is_DFloat :: "'v \<Rightarrow> bool"
  numo_cast :: "'v \<Rightarrow> error + 'v"
  nary_check_contiguous :: "'v \<Rightarrow> bool"
  nary_dup :: "'v \<Rightarrow> 'v"
  NA_SHAPE :: "'v \<Rightarrow> nat list"
  na_get_pointer_for_read :: "'v \<Rightarrow> 'd list"
  NUM2INT :: "'v \<Rightarrow> error + int"
  StringValuePtr :: "'v \<Rightarrow> error + string"
  rb_hash_to_svm_parameter :: "'h \<Rightarrow> error + 'd svm_parameter"
  rb_hash_to_svm_model :: "'h \<Rightarrow> error + 'd svm_model"
  svm_parameter_to_rb_hash :: "'d svm_parameter \<Rightarrow> 'h"
  svm_model_to_rb_hash :: "'d svm_model \<Rightarrow> 'h"
  svm_train :: "'d svm_problem \<Rightarrow> 'd svm_parameter \<Rightarrow> 'd svm_model"
  svm_cross_validation :: "'d svm_problem \<Rightarrow> 'd svm_parameter \<Rightarrow> int \<Rightarrow> 'd list"
  svm_predict :: "'d svm_model \<Rightarrow> 'd svm_node list \<Rightarrow> 'd"
  svm_predict_values :: "'d svm_model \<Rightarrow> 'd svm_node list \<Rightarrow> 'd list"
  svm_predict_probability :: "'d svm_model \<Rightarrow> 'd svm_node list \<Rightarrow> 'd list"
  svm_load_model :: "string \<Rightarrow> 'd svm_model option"
  svm_save_model :: "string \<Rightarrow> 'd svm_model \<Rightarrow> int"
  garbage_node :: "nat \<Rightarrow> 'd svm_node"
  garbage_double :: "nat \<Rightarrow> 'd"

section \<open>The shared fragments of \<^verbatim>\<open>libsvm.c\<close>\<close>

subsection \<open>Obtaining the C data of an array argument\<close>

text \<open>
  \<^verbatim>\<open>if (CLASS_OF(v) != numo_cDFloat) v = rb_funcall(numo_cDFloat, rb_intern("cast"), 1, v);\<close>
  and \<^verbatim>\<open>if (!RTEST(nary_check_contiguous(v))) v = nary_dup(v);\<close>
\<close>

definition to_DFloat :: "('v, 'h, 'd) env \<Rightarrow> 'v \<Rightarrow> error + 'v" where
  "to_DFloat E v = (if \<not> is_DFloat E v then numo_cast E v else Inr v)"

definition to_contiguous :: "('v, 'h, 'd) env \<Rightarrow> 'v \<Rightarrow> 'v" where
  "to_contiguous E v = (if \<not> nary_check_contiguous E v then nary_dup E v else v)"

text \<open>
  \<^verbatim>\<open>n_samples = (int)NA_SHAPE(x_nary)[0]; n_features = (int)NA_SHAPE(x_nary)[1];\<close>
\<close>

definition dims :: "('v, 'h, 'd) env \<Rightarrow> 'v \<Rightarrow> error + int \<times> int" where
  "dims E x =
     (case rd (NA_SHAPE E x) 0 of
        Inl e \<Rightarrow> Inl e
      | Inr s0 \<Rightarrow>
          (case rd (NA_SHAPE E x) 1 of
             Inl e \<Rightarrow> Inl e
           | Inr s1 \<Rightarrow> Inr (int_of_size_t s0, int_of_size_t s1)))"

text \<open>\<^verbatim>\<open>ALLOC_N\<close> returns memory of indeterminate content.\<close>

definition ALLOC_N_nodes :: "('v, 'h, 'd) env \<Rightarrow> int \<Rightarrow> 'd svm_node list" where
  "ALLOC_N_nodes E n = map (garbage_node E) [0..<nat n]"

definition ALLOC_N_doubles :: "('v, 'h, 'd) env \<Rightarrow> int \<Rightarrow> 'd list" where
  "ALLOC_N_doubles E n = map (garbage_double E) [0..<nat n]"

text \<open>
  \<^verbatim>\<open>rb_narray_new(numo_cDFloat, ndim, shape)\<close> followed by
  \<^verbatim>\<open>na_get_pointer_for_write\<close>: a new array of the first \<open>ndim\<close> extents of \<open>shape\<close>, its
  buffer not yet written.
\<close>

definition rb_narray_new :: "('v, 'h, 'd) env \<Rightarrow> nat \<Rightarrow> nat list \<Rightarrow> 'd narray" where
  "rb_narray_new E ndim shp =
     \<lparr>na_shape = take ndim shp,
      na_data = map (garbage_double E) [0..<prod_list (take ndim shp)]\<rparr>"

subsection \<open>Dense row to sparse nodes\<close>

text \<open>
  The inner loop
  \<^verbatim>\<open>for (j = 0; j < n_features; j++) { x_nodes[j].index = j + 1; x_nodes[j].value = x_pt[i * n_features + j]; }\<close>
  over the list of its indices \<open>j\<close>.
\<close>

fun fill_nodes ::
  "'d list \<Rightarrow> int \<Rightarrow> int \<Rightarrow> int list \<Rightarrow> 'd svm_node list \<Rightarrow> error + 'd svm_node list" where
  "fill_nodes x_pt n_features i [] x_nodes = Inr x_nodes"
| "fill_nodes x_pt n_features i (j # js) x_nodes =
     (case upd x_nodes j (\<lambda>nd. nd\<lparr>index := c_int (j + 1)\<rparr>) of
        Inl e \<Rightarrow> Inl e
      | Inr x_nodes1 \<Rightarrow>
          (case rd x_pt (c_int (c_int (i * n_features) + j)) of
             Inl e \<Rightarrow> Inl e
           | Inr v \<Rightarrow>
               (case upd x_nodes1 j (\<lambda>nd. nd\<lparr>value := v\<rparr>) of
                  Inl e \<Rightarrow> Inl e
                | Inr x_nodes2 \<Rightarrow> fill_nodes x_pt n_features i js x_nodes2)))"

text \<open>
  \<^verbatim>\<open>x_nodes[n_features].index = -1; x_nodes[n_features].value = 0.0;\<close>
\<close>

definition put_sentinel ::
  "'d::zero svm_node list \<Rightarrow> int \<Rightarrow> error + 'd svm_node list" where
  "put_sentinel x_nodes n_features =
     (case upd x_nodes n_features (\<lambda>nd. nd\<lparr>index := - 1\<rparr>) of
        Inl e \<Rightarrow> Inl e
      | Inr x_nodes1 \<Rightarrow> upd x_nodes1 n_features (\<lambda>nd. nd\<lparr>value := 0\<rparr>))"

subsection \<open>The problem of \<^verbatim>\<open>train\<close> and \<^verbatim>\<open>cross_validation\<close>\<close>

text \<open>
  Lines 61 to 74 of \<^verbatim>\<open>train\<close>, repeated word for word as lines 144 to 157 of
  \<^verbatim>\<open>cross_validation\<close>. The outer loop writes \<^verbatim>\<open>problem->x[i]\<close> and \<^verbatim>\<open>problem->y[i]\<close> for
  \<open>i = 0, 1, ...\<close> in this order, so the model grows both arrays at the end.
\<close>

fun problem_rows ::
  "('v, 'h, 'd::zero) env \<Rightarrow> 'd list \<Rightarrow> 'd list \<Rightarrow> int \<Rightarrow> int list \<Rightarrow> 'd svm_problem \<Rightarrow>
     'd world \<Rightarrow> (error + 'd svm_problem) \<times> 'd world" where
  "problem_rows E x_pt y_pt n_features [] problem w = (Inr problem, w)"
| "problem_rows E x_pt y_pt n_features (i # is) problem w =
     (let w1 = ALLOC (NodeRow i) w in
      case fill_nodes x_pt n_features i [0..n_features - 1]
             (ALLOC_N_nodes E (c_int (n_features + 1))) of
        Inl e \<Rightarrow> (Inl e, w1)
      | Inr row \<Rightarrow>
          (case put_sentinel row n_features of
             Inl e \<Rightarrow> (Inl e, w1)
           | Inr row1 \<Rightarrow>
               (case rd y_pt i of
                  Inl e \<Rightarrow> (Inl e, w1)
                | Inr yi \<Rightarrow>
                    problem_rows E x_pt y_pt n_features is
                      (problem\<lparr>prob_x := prob_x problem @ [row1],
                               prob_y := prob_y problem @ [yi]\<rparr>) w1)))"

definition build_problem ::
  "('v, 'h, 'd::zero) env \<Rightarrow> 'd list \<Rightarrow> 'd list \<Rightarrow> int \<Rightarrow> int \<Rightarrow> 'd world \<Rightarrow>
     (error + 'd svm_problem) \<times> 'd world" where
  "build_problem E x_pt y_pt n_samples n_features w =
     problem_rows E x_pt y_pt n_features [0..n_samples - 1]
       \<lparr>prob_l = n_samples, prob_y = [], prob_x = []\<rparr>
       (ALLOC ProblemY (ALLOC ProblemX (ALLOC ProblemStruct w)))"

text \<open>
  \<^verbatim>\<open>for (i = 0; i < n_samples; xfree(problem->x[i++]));\<close> and the three \<^verbatim>\<open>xfree\<close> after it.
\<close>

fun free_rows :: "int list \<Rightarrow> 'd world \<Rightarrow> 'd world" where
  "free_rows [] w = w"
| "free_rows (i # is) w = free_rows is (xfree (NodeRow i) w)"

definition release_problem :: "int \<Rightarrow> 'd world \<Rightarrow> 'd world" where
  "release_problem n_samples w =
     xfree ProblemStruct (xfree ProblemY (xfree ProblemX (free_rows [0..n_samples - 1] w)))"

subsection \<open>Decoding the model for a prediction or a save\<close>

text \<open>
  \<^verbatim>\<open>param = rb_hash_to_svm_parameter(param_hash); model = rb_hash_to_svm_model(model_hash);\<close>
  \<^verbatim>\<open>model->param = *param;\<close>
\<close>

definition decode_model ::
  "('v, 'h, 'd) env \<Rightarrow> 'h \<Rightarrow> 'h \<Rightarrow> 'd world \<Rightarrow> (error + 'd svm_model) \<times> 'd world" where
  "decode_model E param_hash model_hash w =
     (case rb_hash_to_svm_parameter E param_hash of
        Inl e \<Rightarrow> (Inl e, w)
      | Inr prm \<Rightarrow>
          (let w1 = ALLOC ParamStruct w in
           case rb_hash_to_svm_model E model_hash of
             Inl e \<Rightarrow> (Inl e, w1)
           | Inr model \<Rightarrow> (Inr (model\<lparr>param := prm\<rparr>), ALLOC ModelStruct w1)))"

section \<open>The operations of \<^verbatim>\<open>libsvm.c\<close>\<close>

text \<open>
  Every operation starts with no block of its own and no call made, and yields its outcome
  together with the blocks still live and the engine calls made when it is left.
\<close>

subsection \<open>\<^verbatim>\<open>train\<close>\<close>

definition train ::
  "('v, 'h, 'd::zero) env \<Rightarrow> 'v \<Rightarrow> 'v \<Rightarrow> 'h \<Rightarrow> (error + 'h) \<times> 'd world" where
  "train E x_val y_val param_hash =
     (case to_DFloat E x_val of
        Inl e \<Rightarrow> (Inl e, start)
      | Inr x1 \<Rightarrow>
     (case to_DFloat E y_val of
        Inl e \<Rightarrow> (Inl e, start)
      | Inr y1 \<Rightarrow>
     (let x = to_contiguous E x1; y = to_contiguous E y1 in
      case rb_hash_to_svm_parameter E param_hash of
        Inl e \<Rightarrow> (Inl e, start)
      | Inr prm \<Rightarrow>
     (let w1 = ALLOC ParamStruct start in
      case dims E x of
        Inl e \<Rightarrow> (Inl e, w1)
      | Inr (n_samples, n_features) \<Rightarrow>
     (case build_problem E (na_get_pointer_for_read E x) (na_get_pointer_for_read E y)
             n_samples n_features w1 of
        (Inl e, w2) \<Rightarrow> (Inl e, w2)
      | (Inr problem, w2) \<Rightarrow>
     (let w3 = invoke SetPrintStringFunction w2;
          model = svm_train E problem prm;
          w4 = ALLOC EngineModel (invoke (Train problem prm) w3);
          model_hash = svm_model_to_rb_hash E model;
          w5 = xfree EngineModel (invoke FreeAndDestroyModel w4);
          w6 = xfree_svm_parameter (release_problem n_samples w5)
      in (Inr model_hash, w6)))))))"

subsection \<open>\<^verbatim>\<open>cross_validation\<close>\<close>

definition cross_validation ::
  "('v, 'h, 'd::zero) env \<Rightarrow> 'v \<Rightarrow> 'v \<Rightarrow> 'h \<Rightarrow> 'v \<Rightarrow> (error + 'd narray) \<times> 'd world" where
  "cross_validation E x_val y_val param_hash nr_folds =
     (case NUM2INT E nr_folds of
        Inl e \<Rightarrow> (Inl e, start)
      | Inr n_folds \<Rightarrow>
     (case to_DFloat E x_val of
        Inl e \<Rightarrow> (Inl e, start)
      | Inr x1 \<Rightarrow>
     (case to_DFloat E y_val of
        Inl e \<Rightarrow> (Inl e, start)
      | Inr y1 \<Rightarrow>
     (let x = to_contiguous E x1; y = to_contiguous E y1 in
      case rb_hash_to_svm_parameter E param_hash of
        Inl e \<Rightarrow> (Inl e, start)
      | Inr prm \<Rightarrow>
     (let w1 = ALLOC ParamStruct start in
      case dims E x of
        Inl e \<Rightarrow> (Inl e, w1)
      | Inr (n_samples, n_features) \<Rightarrow>
     (case build_problem E (na_get_pointer_for_read E x) (na_get_pointer_for_read E y)
             n_samples n_features w1 of
        (Inl e, w2) \<Rightarrow> (Inl e, w2)
      | (Inr problem, w2) \<Rightarrow>
     (let t_val = rb_narray_new E 1 [size_t_of_int n_samples];
          w3 = invoke (CrossValidation problem prm n_folds) (invoke SetPrintStringFunction w2)
      in case store (na_data t_val) 0 (svm_cross_validation E problem prm n_folds) of
           Inl e \<Rightarrow> (Inl e, w3)
         | Inr t_pt \<Rightarrow>
             (Inr (t_val\<lparr>na_data := t_pt\<rparr>),
              xfree_svm_parameter (release_problem n_samples w3)))))))))"

subsection \<open>\<^verbatim>\<open>predict\<close>\<close>

text \<open>The loop of lines 224 to 230: one node buffer, refilled for every row.\<close>

fun predict_rows ::
  "('v, 'h, 'd) env \<Rightarrow> 'd svm_model \<Rightarrow> 'd list \<Rightarrow> int \<Rightarrow> int list \<Rightarrow> 'd svm_node list \<Rightarrow>
     'd list \<Rightarrow> 'd world \<Rightarrow> (error + 'd list) \<times> 'd world" where
  "predict_rows E model x_pt n_features [] x_nodes y_pt w = (Inr y_pt, w)"
| "predict_rows E model x_pt n_features (i # is) x_nodes y_pt w =
     (case fill_nodes x_pt n_features i [0..n_features - 1] x_nodes of
        Inl e \<Rightarrow> (Inl e, w)
      | Inr x_nodes1 \<Rightarrow>
          (let w1 = invoke (Predict model x_nodes1) w in
           case upd y_pt i (\<lambda>_. svm_predict E model x_nodes1) of
             Inl e \<Rightarrow> (Inl e, w1)
           | Inr y_pt1 \<Rightarrow> predict_rows E model x_pt n_features is x_nodes1 y_pt1 w1))"

definition predict ::
  "('v, 'h, 'd::zero) env \<Rightarrow> 'v \<Rightarrow> 'h \<Rightarrow> 'h \<Rightarrow> (error + 'd narray) \<times> 'd world" where
  "predict E x_val param_hash model_hash =
     (case to_DFloat E x_val of
        Inl e \<Rightarrow> (Inl e, start)
      | Inr x1 \<Rightarrow>
     (let x = to_contiguous E x1 in
      case decode_model E param_hash model_hash start of
        (Inl e, w2) \<Rightarrow> (Inl e, w2)
      | (Inr model, w2) \<Rightarrow>
     (case dims E x of
        Inl e \<Rightarrow> (Inl e, w2)
      | Inr (n_samples, n_features) \<Rightarrow>
     (let y_val = rb_narray_new E 1 [size_t_of_int n_samples];
          w3 = ALLOC XNodes w2
      in case put_sentinel (ALLOC_N_nodes E (c_int (n_features + 1))) n_features of
           Inl e \<Rightarrow> (Inl e, w3)
         | Inr x_nodes \<Rightarrow>
     (case predict_rows E model (na_get_pointer_for_read E x) n_features [0..n_samples - 1]
             x_nodes (na_data y_val) w3 of
        (Inl e, w4) \<Rightarrow> (Inl e, w4)
      | (Inr y_pt, w4) \<Rightarrow>
          (Inr (y_val\<lparr>na_data := y_pt\<rparr>),
           xfree_svm_parameter (xfree_svm_model (xfree XNodes w4))))))))"

subsection \<open>\<^verbatim>\<open>decision_function\<close>\<close>

text \<open>
  The loop of lines 300 to 306: \<^verbatim>\<open>svm_predict_values(model, x_nodes, &y_pt[i])\<close> lets the
  engine write into the output buffer from cell \<open>i\<close> on.
\<close>

fun values_rows ::
  "('v, 'h, 'd) env \<Rightarrow> 'd svm_model \<Rightarrow> 'd list \<Rightarrow> int \<Rightarrow> int list \<Rightarrow> 'd svm_node list \<Rightarrow>
     'd list \<Rightarrow> 'd world \<Rightarrow> (error + 'd list) \<times> 'd world" where
  "values_rows E model x_pt n_features [] x_nodes y_pt w = (Inr y_pt, w)"
| "values_rows E model x_pt n_features (i # is) x_nodes y_pt w =
     (case fill_nodes x_pt n_features i [0..n_features - 1] x_nodes of
        Inl e \<Rightarrow> (Inl e, w)
      | Inr x_nodes1 \<Rightarrow>
          (let w1 = invoke (PredictValues model x_nodes1) w in
           case store y_pt i (svm_predict_values E model x_nodes1) of
             Inl e \<Rightarrow> (Inl e, w1)
           | Inr y_pt1 \<Rightarrow> values_rows E model x_pt n_features is x_nodes1 y_pt1 w1))"

text \<open>
  \<^verbatim>\<open>for (j = 0; j < cols; j++) y_pt[i * cols + j] = src[j];\<close> as in lines 320 to 322 and
  395 to 397.
\<close>

fun copy_values :: "'d list \<Rightarrow> int \<Rightarrow> int \<Rightarrow> int list \<Rightarrow> 'd list \<Rightarrow> error + 'd list" where
  "copy_values src i cols [] y_pt = Inr y_pt"
| "copy_values src i cols (j # js) y_pt =
     (case rd src j of
        Inl e \<Rightarrow> Inl e
      | Inr v \<Rightarrow>
          (case upd y_pt (c_int (c_int (i * cols) + j)) (\<lambda>_. v) of
             Inl e \<Rightarrow> Inl e
           | Inr y_pt1 \<Rightarrow> copy_values src i cols js y_pt1))"

text \<open>
  The loops of lines 314 to 323 and 389 to 398 differ in the routine of the engine and in
  the number of columns only: the engine writes into a scratch buffer, which is then copied
  into row \<open>i\<close> of the output.
\<close>

fun matrix_rows ::
  "('d svm_model \<Rightarrow> 'd svm_node list \<Rightarrow> 'd list) \<Rightarrow>
   ('d svm_model \<Rightarrow> 'd svm_node list \<Rightarrow> 'd call) \<Rightarrow>
   'd svm_model \<Rightarrow> 'd list \<Rightarrow> int \<Rightarrow> int \<Rightarrow> int list \<Rightarrow> 'd svm_node list \<Rightarrow> 'd list \<Rightarrow>
     'd list \<Rightarrow> 'd world \<Rightarrow> (error + 'd list) \<times> 'd world" where
  "matrix_rows routine entry model x_pt n_features cols [] x_nodes scratch y_pt w = (Inr y_pt, w)"
| "matrix_rows routine entry model x_pt n_features cols (i # is) x_nodes scratch y_pt w =
     (case fill_nodes x_pt n_features i [0..n_features - 1] x_nodes of
        Inl e \<Rightarrow> (Inl e, w)
      | Inr x_nodes1 \<Rightarrow>
          (let w1 = invoke (entry model x_nodes1) w in
           case store scratch 0 (routine model x_nodes1) of
             Inl e \<Rightarrow> (Inl e, w1)
           | Inr scratch1 \<Rightarrow>
               (case copy_values scratch1 i cols [0..cols - 1] y_pt of
                  Inl e \<Rightarrow> (Inl e, w1)
                | Inr y_pt1 \<Rightarrow>
                    matrix_rows routine entry model x_pt n_features cols is x_nodes1 scratch1
                      y_pt1 w1)))"

text \<open>The test of lines 282 and 296.\<close>

definition one_valued :: "'d svm_model \<Rightarrow> bool" where
  "one_valued model \<longleftrightarrow>
     svm_type (param model) = ONE_CLASS \<or> svm_type (param model) = EPSILON_SVR
     \<or> svm_type (param model) = NU_SVR"

text \<open>Lines 282 to 290: the output array.\<close>

definition decision_shape :: "'d svm_model \<Rightarrow> int \<Rightarrow> nat list" where
  "decision_shape model n_samples =
     (if one_valued model then [size_t_of_int n_samples, 1]
      else [size_t_of_int n_samples,
            size_t_of_int (c_div (c_int (nr_class model * c_int (nr_class model - 1))) 2)])"

definition decision_output :: "('v, 'h, 'd) env \<Rightarrow> 'd svm_model \<Rightarrow> int \<Rightarrow> 'd narray" where
  "decision_output E model n_samples =
     (if one_valued model then rb_narray_new E 1 (decision_shape model n_samples)
      else rb_narray_new E 2 (decision_shape model n_samples))"

text \<open>Lines 296 to 326: the two ways of filling it.\<close>

definition decision_values ::
  "('v, 'h, 'd::zero) env \<Rightarrow> 'd svm_model \<Rightarrow> 'd list \<Rightarrow> int \<Rightarrow> int \<Rightarrow> 'd list \<Rightarrow> 'd world \<Rightarrow>
     (error + 'd list) \<times> 'd world" where
  "decision_values E model x_pt n_samples n_features y_pt w =
     (if one_valued model then
        (let w1 = ALLOC XNodes w in
         case put_sentinel (ALLOC_N_nodes E (c_int (n_features + 1))) n_features of
           Inl e \<Rightarrow> (Inl e, w1)
         | Inr x_nodes \<Rightarrow>
             (case values_rows E model x_pt n_features [0..n_samples - 1] x_nodes y_pt w1 of
                (Inl e, w2) \<Rightarrow> (Inl e, w2)
              | (Inr y_pt1, w2) \<Rightarrow> (Inr y_pt1, xfree XNodes w2)))
      else
        (let y_cols = int_of_size_t (decision_shape model n_samples ! 1);
             dec_values = ALLOC_N_doubles E y_cols;
             w1 = ALLOC XNodes (ALLOC DecValues w)
         in case put_sentinel (ALLOC_N_nodes E (c_int (n_features + 1))) n_features of
              Inl e \<Rightarrow> (Inl e, w1)
            | Inr x_nodes \<Rightarrow>
                (case matrix_rows (svm_predict_values E) PredictValues model x_pt n_features
                        y_cols [0..n_samples - 1] x_nodes dec_values y_pt w1 of
                   (Inl e, w2) \<Rightarrow> (Inl e, w2)
                 | (Inr y_pt1, w2) \<Rightarrow> (Inr y_pt1, xfree DecValues (xfree XNodes w2)))))"

definition decision_function ::
  "('v, 'h, 'd::zero) env \<Rightarrow> 'v \<Rightarrow> 'h \<Rightarrow> 'h \<Rightarrow> (error + 'd narray) \<times> 'd world" where
  "decision_function E x_val param_hash model_hash =
     (case to_DFloat E x_val of
        Inl e \<Rightarrow> (Inl e, start)
      | Inr x1 \<Rightarrow>
     (let x = to_contiguous E x1 in
      case decode_model E param_hash model_hash start of
        (Inl e, w2) \<Rightarrow> (Inl e, w2)
      | (Inr model, w2) \<Rightarrow>
     (case dims E x of
        Inl e \<Rightarrow> (Inl e, w2)
      | Inr (n_samples, n_features) \<Rightarrow>
     (let y_val = decision_output E model n_samples in
      case decision_values E model (na_get_pointer_for_read E x) n_samples n_features
             (na_data y_val) w2 of
        (Inl e, w3) \<Rightarrow> (Inl e, w3)
      | (Inr y_pt, w3) \<Rightarrow>
          (Inr (y_val\<lparr>na_data := y_pt\<rparr>), xfree_svm_parameter (xfree_svm_model w3))))))"

subsection \<open>\<^verbatim>\<open>predict_proba\<close>\<close>

text \<open>The test of line 365.\<close>

definition proba_supported :: "'d svm_model \<Rightarrow> bool" where
  "proba_supported model \<longleftrightarrow>
     (svm_type (param model) = C_SVC \<or> svm_type (param model) = NU_SVC)
     \<and> probA model \<noteq> None \<and> probB model \<noteq> None"

text \<open>Lines 366 to 400, the body of the conditional.\<close>

definition proba_matrix ::
  "('v, 'h, 'd::zero) env \<Rightarrow> 'v \<Rightarrow> 'd svm_model \<Rightarrow> 'd world \<Rightarrow> (error + 'd narray) \<times> 'd world" where
  "proba_matrix E x_val model w =
     (case to_DFloat E x_val of
        Inl e \<Rightarrow> (Inl e, w)
      | Inr x1 \<Rightarrow>
     (let x = to_contiguous E x1 in
      case dims E x of
        Inl e \<Rightarrow> (Inl e, w)
      | Inr (n_samples, n_features) \<Rightarrow>
     (let y_val = rb_narray_new E 2 [size_t_of_int n_samples, size_t_of_int (nr_class model)];
          probs = ALLOC_N_doubles E (nr_class model);
          w1 = ALLOC XNodes (ALLOC Probs w)
      in case put_sentinel (ALLOC_N_nodes E (c_int (n_features + 1))) n_features of
           Inl e \<Rightarrow> (Inl e, w1)
         | Inr x_nodes \<Rightarrow>
     (case matrix_rows (svm_predict_probability E) PredictProbability model
             (na_get_pointer_for_read E x) n_features (nr_class model) [0..n_samples - 1]
             x_nodes probs (na_data y_val) w1 of
        (Inl e, w2) \<Rightarrow> (Inl e, w2)
      | (Inr y_pt, w2) \<Rightarrow> (Inr (y_val\<lparr>na_data := y_pt\<rparr>), xfree Probs (xfree XNodes w2))))))"

text \<open>The result is \<open>None\<close> for \<^verbatim>\<open>Qnil\<close>, the initial value of \<^verbatim>\<open>y_val\<close>.\<close>

definition predict_proba ::
  "('v, 'h, 'd::zero) env \<Rightarrow> 'v \<Rightarrow> 'h \<Rightarrow> 'h \<Rightarrow> (error + 'd narray option) \<times> 'd world" where
  "predict_proba E x_val param_hash model_hash =
     (case decode_model E param_hash model_hash start of
        (Inl e, w2) \<Rightarrow> (Inl e, w2)
      | (Inr model, w2) \<Rightarrow>
          (if proba_supported model then
             (case proba_matrix E x_val model w2 of
                (Inl e, w3) \<Rightarrow> (Inl e, w3)
              | (Inr y_val, w3) \<Rightarrow>
                  (Inr (Some y_val), xfree_svm_parameter (xfree_svm_model w3)))
           else (Inr None, xfree_svm_parameter (xfree_svm_model w2))))"

subsection \<open>\<^verbatim>\<open>load_svm_model\<close> and \<^verbatim>\<open>save_svm_model\<close>\<close>

text \<open>The two slots of the returned array; \<open>None\<close> is \<^verbatim>\<open>Qnil\<close>.\<close>

definition load_svm_model ::
  "('v, 'h, 'd) env \<Rightarrow> 'v \<Rightarrow> (error + 'h option \<times> 'h option) \<times> 'd world" where
  "load_svm_model E filename =
     (case StringValuePtr E filename of
        Inl e \<Rightarrow> (Inl e, start)
      | Inr path \<Rightarrow>
          (let w1 = invoke (LoadModel path) start in
           case svm_load_model E path of
             None \<Rightarrow> (Inr (None, None), w1)
           | Some model \<Rightarrow>
               (let w2 = ALLOC EngineModel w1;
                    param_hash = svm_parameter_to_rb_hash E (param model);
                    model_hash = svm_model_to_rb_hash E model;
                    w3 = xfree EngineModel (invoke FreeAndDestroyModel w2)
                in (Inr (Some param_hash, Some model_hash), w3))))"

definition save_svm_model ::
  "('v, 'h, 'd) env \<Rightarrow> 'v \<Rightarrow> 'h \<Rightarrow> 'h \<Rightarrow> (error + bool) \<times> 'd world" where
  "save_svm_model E filename param_hash model_hash =
     (case decode_model E param_hash model_hash start of
        (Inl e, w2) \<Rightarrow> (Inl e, w2)
      | (Inr model, w2) \<Rightarrow>
          (case StringValuePtr E filename of
             Inl e \<Rightarrow> (Inl e, w2)
           | Inr path \<Rightarrow>
               (let res = svm_save_model E path model;
                    w3 = invoke (SaveModel path model) w2
                in (Inr (\<not> res < 0), xfree_svm_parameter (xfree_svm_model w3)))))"

section \<open>The specification's vocabulary\<close>

text \<open>
  These definitions follow the words of the specification, not the source; the theorems
  compare the operations above with them.
\<close>

text \<open>Row \<open>i\<close> of a row-major buffer with \<open>n_features\<close> columns.\<close>

definition dense_row :: "'d list \<Rightarrow> nat \<Rightarrow> nat \<Rightarrow> 'd list" where
  "dense_row x_pt n_features i = take n_features (drop (i * n_features) x_pt)"

text \<open>
  \<^verbatim>\<open>toSparseSample\<close>: a fresh node array with the 1-based indices \<open>1..n_features\<close>, the
  values of the row, and the sentinel appended.
\<close>

definition toSparseSample :: "'d::zero list \<Rightarrow> 'd svm_node list" where
  "toSparseSample row =
     map2 (\<lambda>j v. \<lparr>index = j, value = v\<rparr>) [1..int (length row)] row
       @ [\<lparr>index = - 1, value = 0\<rparr>]"

text \<open>
  A dense rectangular matrix of shape \<open>[n_samples, n_features]\<close>, of a size that C
  \<^verbatim>\<open>int\<close> indices reach.
\<close>

definition dense_matrix :: "('v, 'h, 'd) env \<Rightarrow> 'v \<Rightarrow> nat \<Rightarrow> nat \<Rightarrow> bool" where
  "dense_matrix E x n_samples n_features \<longleftrightarrow>
     NA_SHAPE E x = [n_samples, n_features]
     \<and> length (na_get_pointer_for_read E x) = n_samples * n_features
     \<and> n_samples < 2 ^ 31 \<and> n_features + 1 < 2 ^ 31 \<and> n_samples * n_features < 2 ^ 31"

text \<open>
  The output of a batch computed row by row, each row converted afresh: one label per
  row, or one block of values per row.
\<close>

definition per_row_labels ::
  "('v, 'h, 'd::zero) env \<Rightarrow> 'd svm_model \<Rightarrow> 'd list \<Rightarrow> nat \<Rightarrow> nat \<Rightarrow> 'd list" where
  "per_row_labels E model x_pt n_samples n_features =
     map (\<lambda>i. svm_predict E model (toSparseSample (dense_row x_pt n_features i))) [0..<n_samples]"

definition per_row_values ::
  "('d svm_model \<Rightarrow> 'd svm_node list \<Rightarrow> 'd list) \<Rightarrow> 'd::zero svm_model \<Rightarrow> 'd list \<Rightarrow> nat \<Rightarrow> nat \<Rightarrow>
     'd list" where
  "per_row_values routine model x_pt n_samples n_features =
     concat (map (\<lambda>i. routine model (toSparseSample (dense_row x_pt n_features i)))
       [0..<n_samples])"

text \<open>
  The width of a decision function: 1 for one-class and regression types, otherwise one
  value per pair of classes.
\<close>

definition decision_width :: "'d svm_model \<Rightarrow> nat" where
  "decision_width model =
     (if svm_type (param model) \<in> {ONE_CLASS, EPSILON_SVR, NU_SVR} then 1
      else nat (nr_class model * (nr_class model - 1) div 2))"

text \<open>
  Modelled from the spec: the engine is not part of the sources; by its interface
  \<^verbatim>\<open>predict_values\<close> yields the decision values of a sample, as many as the width above, and
  \<^verbatim>\<open>predict_probability\<close> one probability per class.
\<close>

definition values_contract :: "('v, 'h, 'd) env \<Rightarrow> bool" where
  "values_contract E \<longleftrightarrow>
     (\<forall>model x_nodes. length (svm_predict_values E model x_nodes) = decision_width model)"

definition probability_contract :: "('v, 'h, 'd) env \<Rightarrow> bool" where
  "probability_contract E \<longleftrightarrow>
     (\<forall>model x_nodes. length (svm_predict_probability E model x_nodes) = nat (nr_class model))"

text \<open>
  Modelled from the spec: \<^verbatim>\<open>cross_validate\<close> yields one target per sample of the problem.
\<close>

definition cross_validation_contract :: "('v, 'h, 'd) env \<Rightarrow> bool" where
  "cross_validation_contract E \<longleftrightarrow>
     (\<forall>problem prm n_folds.
        length (svm_cross_validation E problem prm n_folds) = nat (prob_l problem))"

text \<open>The model an engine call was handed, if it takes one.\<close>

fun call_model :: "'d call \<Rightarrow> 'd svm_model option" where
  "call_model (Predict model x_nodes) = Some model"
| "call_model (PredictValues model x_nodes) = Some model"
| "call_model (PredictProbability model x_nodes) = Some model"
| "call_model (SaveModel path model) = Some model"
| "call_model c = None"

text \<open>
  The seven module functions registered by \<^verbatim>\<open>Init_libsvm\<close>, and how a call of one of them
  ends: whether it returned, and the native blocks it left behind.
\<close>

datatype ('v, 'h) operation =
  OpTrain 'v 'v 'h
  | OpCrossValidation 'v 'v 'h 'v
  | OpPredict 'v 'h 'h
  | OpDecisionFunction 'v 'h 'h
  | OpPredictProba 'v 'h 'h
  | OpLoad 'v
  | OpSave 'v 'h 'h

definition outcome :: "(error + 'a) \<times> 'd world \<Rightarrow> bool \<times> block list" where
  "outcome r = (\<not> isl (fst r), live (snd r))"

fun run :: "('v, 'h, 'd::zero) env \<Rightarrow> ('v, 'h) operation \<Rightarrow> bool \<times> block list" where
  "run E (OpTrain x y p) = outcome (train E x y p)"
| "run E (OpCrossValidation x y p k) = outcome (cross_validation E x y p k)"
| "run E (OpPredict x p m) = outcome (predict E x p m)"
| "run E (OpDecisionFunction x p m) = outcome (decision_function E x p m)"
| "run E (OpPredictProba x p m) = outcome (predict_proba E x p m)"
| "run E (OpLoad f) = outcome (load_svm_model E f)"
| "run E (OpSave f p m) = outcome (save_svm_model E f p m)"

section \<open>An instance of the collaborators\<close>

text \<open>
  A small Ruby runtime and engine on which the operations can be evaluated: arrays are
  always contiguous, \<^verbatim>\<open>cast\<close> accepts arrays, numbers and \<^verbatim>\<open>nil\<close> and raises on a string, a
  hash carries the structure it encodes, and the engine answers from the first feature of
  a sample.
\<close>

datatype rb_value =
  Qnil | Fixnum int | RString string | DFloat "nat list" "real list" | Int32 "nat list" "int list"

datatype rb_hash = ParamHash "real svm_parameter" | ModelHash "real svm_model" | NotAHash

definition TypeError :: error where
  "TypeError = RubyException ''TypeError''"

definition CastError :: error where
  "CastError = RubyException ''Numo::NArray::CastError''"

fun demo_is_DFloat :: "rb_value \<Rightarrow> bool" where
  "demo_is_DFloat (DFloat shp xs) = True"
| "demo_is_DFloat v = False"

fun demo_cast :: "rb_value \<Rightarrow> error + rb_value" where
  "demo_cast (DFloat shp xs) = Inr (DFloat shp xs)"
| "demo_cast (Int32 shp ks) = Inr (DFloat shp (map real_of_int ks))"
| "demo_cast (Fixnum k) = Inr (DFloat [] [real_of_int k])"
| "demo_cast Qnil = Inr (DFloat [0] [])"
| "demo_cast (RString s) = Inl CastError"

fun demo_shape :: "rb_value \<Rightarrow> nat list" where
  "demo_shape (DFloat shp xs) = shp"
| "demo_shape (Int32 shp ks) = shp"
| "demo_shape v = []"

fun demo_pointer :: "rb_value \<Rightarrow> real list" where
  "demo_pointer (DFloat shp xs) = xs"
| "demo_pointer v = []"

fun demo_NUM2INT :: "rb_value \<Rightarrow> error + int" where
  "demo_NUM2INT (Fixnum k) = Inr k"
| "demo_NUM2INT v = Inl TypeError"

fun demo_StringValuePtr :: "rb_value \<Rightarrow> error + string" where
  "demo_StringValuePtr (RString s) = Inr s"
| "demo_StringValuePtr v = Inl TypeError"

fun demo_to_parameter :: "rb_hash \<Rightarrow> error + real svm_parameter" where
  "demo_to_parameter (ParamHash prm) = Inr prm"
| "demo_to_parameter h = Inl TypeError"

fun demo_to_model :: "rb_hash \<Rightarrow> error + real svm_model" where
  "demo_to_model (ModelHash model) = Inr model"
| "demo_to_model h = Inl TypeError"

definition demo_train :: "real svm_problem \<Rightarrow> real svm_parameter \<Rightarrow> real svm_model" where
  "demo_train problem prm =
     \<lparr>param = prm, nr_class = 2, model_l = prob_l problem, SV = prob_x problem,
      sv_coef = [prob_y problem], rho = [0], probA = None, probB = None,
      label = Some [0, 1], nSV = Some [prob_l problem, 0], free_sv = 0\<rparr>"

definition demo_model :: "real svm_model" where
  "demo_model =
     \<lparr>param = \<lparr>svm_type = C_SVC, kernel_type = 0, degree = 3, gamma = 1, coef0 = 0,
               cache_size = 100, eps = 1 / 1000, param_C = 1, nr_weight = 0,
               weight_label = None, weight = None, nu = 1 / 2, param_p = 1 / 10,
               shrinking = 1, probability = 1\<rparr>,
      nr_class = 3, model_l = 1,
      SV = [[\<lparr>index = 1, value = 1\<rparr>, \<lparr>index = - 1, value = 0\<rparr>]],
      sv_coef = [[1], [1]], rho = [0, 0, 0], probA = Some [1, 1, 1], probB = Some [0, 0, 0],
      label = Some [0, 1, 2], nSV = Some [1, 0, 0], free_sv = 1\<rparr>"

definition demo :: "(rb_value, rb_hash, real) env" where
  "demo =
     \<lparr>is_DFloat = demo_is_DFloat,
      numo_cast = demo_cast,
      nary_check_contiguous = (\<lambda>v. True),
      nary_dup = (\<lambda>v. v),
      NA_SHAPE = demo_shape,
      na_get_pointer_for_read = demo_pointer,
      NUM2INT = demo_NUM2INT,
      StringValuePtr = demo_StringValuePtr,
      rb_hash_to_svm_parameter = demo_to_parameter,
      rb_hash_to_svm_model = demo_to_model,
      svm_parameter_to_rb_hash = ParamHash,
      svm_model_to_rb_hash = ModelHash,
      svm_train = demo_train,
      svm_cross_validation = (\<lambda>problem prm n_folds. replicate (nat (prob_l problem)) 0),
      svm_predict = (\<lambda>model x_nodes. value (hd x_nodes)),
      svm_predict_values = (\<lambda>model x_nodes. replicate (decision_width model) (value (hd x_nodes))),
      svm_predict_probability =
        (\<lambda>model x_nodes. replicate (nat (nr_class model)) (1 / real_of_int (nr_class model))),
      svm_load_model = (\<lambda>path. if path = ''svm.model'' then Some demo_model else None),
      svm_save_model = (\<lambda>path model. if path = [] then - 1 else 0),
      garbage_node = (\<lambda>k. \<lparr>index = 7, value = 7\<rparr>),
      garbage_double = (\<lambda>k. 7)\<rparr>"

text \<open>Inputs for the evaluations below.\<close>

definition demo_param :: "real svm_parameter" where
  "demo_param = param demo_model"

definition svr_param :: "real svm_parameter" where
  "svr_param = demo_param\<lparr>svm_type := EPSILON_SVR\<rparr>"

definition demo_X :: rb_value where
  "demo_X = DFloat [2, 2] [5, 6, 7, 8]"

definition demo_y3 :: rb_value where
  "demo_y3 = DFloat [3] [1, 0, 1]"

definition demo_problem :: "real svm_problem" where
  "demo_problem =
     \<lparr>prob_l = 2, prob_y = [1, 0],
      prob_x = [[\<lparr>index = 1, value = 5\<rparr>, \<lparr>index = 2, value = 6\<rparr>, \<lparr>index = - 1, value = 0\<rparr>],
                [\<lparr>index = 1, value = 7\<rparr>, \<lparr>index = 2, value = 8\<rparr>, \<lparr>index = - 1, value = 0\<rparr>]]\<rparr>"

section \<open>Arithmetic and array lemmas\<close>

lemma c_int_id: "- (2 ^ 31) \<le> k \<Longrightarrow> k < 2 ^ 31 \<Longrightarrow> c_int k = k"
  by (simp add: c_int_def signed_take_bit_int_eq_self)

lemma int_less_pow: "(m::nat) < 2 ^ k \<Longrightarrow> int m < 2 ^ k"
proof -
  assume "m < 2 ^ k"
  then have "int m < int (2 ^ k)" by (rule iffD2 [OF of_nat_less_iff])
  then show ?thesis by simp
qed

lemma cell_index:
  fixes i n nf k :: nat
  assumes "i < n" "k < nf"
  shows "i * nf + k < n * nf"
proof -
  have "i * nf + k < i * nf + nf" using assms by simp
  also have "\<dots> = (i + 1) * nf" by simp
  also have "\<dots> \<le> n * nf" using assms by (intro mult_le_mono1) simp
  finally show ?thesis .
qed

lemma c_cell_index:
  fixes i n nf k :: nat
  assumes "i < n" "k < nf" "n * nf < 2 ^ 31"
  shows "c_int (c_int (int i * int nf) + int k) = int (i * nf + k)"
proof -
  have lt: "i * nf + k < 2 ^ 31" using cell_index [OF assms(1,2)] assms(3) by linarith
  then have "i * nf < 2 ^ 31" by linarith
  then have "int (i * nf) < 2 ^ 31" by (rule int_less_pow)
  then have "c_int (int (i * nf)) = int (i * nf)"
    by (intro c_int_id) linarith+
  then have a: "c_int (int i * int nf) = int (i * nf)" by simp
  have "int (i * nf + k) < 2 ^ 31" using lt by (rule int_less_pow)
  then have "c_int (int (i * nf + k)) = int (i * nf + k)"
   by (intro c_int_id) linarith+
  with a show ?thesis by simp
qed

lemma int_of_size_t_id: "n < 2 ^ 31 \<Longrightarrow> int_of_size_t n = int n"
  unfolding int_of_size_t_def by (intro c_int_id) (use int_less_pow [of n 31] in linarith)+

lemma rd_ok: "k < length buf \<Longrightarrow> rd buf (int k) = Inr (buf ! k)"
  by (simp add: rd_def)

lemma upd_ok: "k < length buf \<Longrightarrow> upd buf (int k) f = Inr (buf[k := f (buf ! k)])"
  by (simp add: upd_def)

lemma node_overwritten:
  "(nd :: 'd svm_node)\<lparr>index := a, value := b\<rparr> = \<lparr>index = a, value = b\<rparr>"
  by (cases nd) simp

lemma fill_nodes_cells:
  fixes i n nf :: nat
  assumes "i < n" "length x_pt = n * nf" "n * nf < 2 ^ 31"
  shows "\<forall>j\<in>set js. j < nf \<Longrightarrow> length x_nodes = nf + 1 \<Longrightarrow>
    \<exists>b. fill_nodes x_pt (int nf) (int i) (map int js) x_nodes = Inr b \<and> length b = nf + 1 \<and>
      (\<forall>k\<le>nf. b ! k = (if k \<in> set js then \<lparr>index = int k + 1, value = x_pt ! (i * nf + k)\<rparr>
                        else x_nodes ! k))"
proof (induction js arbitrary: x_nodes)
  case Nil
  then show ?case by simp
next
  case (Cons j js)
  then have j: "j < nf" by simp
  have jl: "j < length x_nodes" using j Cons.prems by simp
  define v where "v = x_pt ! (i * nf + j)"
  define b2 where "b2 = x_nodes[j := \<lparr>index = int j + 1, value = v\<rparr>]"
  have "nf \<le> n * nf" using assms(1) by (cases n) simp_all
  then have "j + 1 < 2 ^ 31" using j assms(3) by linarith
  then have "int (j + 1) < 2 ^ 31" by (rule int_less_pow)
  then have ci: "c_int (int j + 1) = int j + 1" by (intro c_int_id) linarith+
  have idx: "c_int (c_int (int i * int nf) + int j) = int (i * nf + j)"
    using c_cell_index [OF assms(1) j assms(3)] .
  have inr: "i * nf + j < length x_pt"
    using cell_index [OF assms(1) j] assms(2) by simp
  define b1 where "b1 = x_nodes[j := (x_nodes ! j)\<lparr>index := int j + 1\<rparr>]"
  have s1: "upd x_nodes (int j) (\<lambda>nd. nd\<lparr>index := c_int (int j + 1)\<rparr>) = Inr b1"
    unfolding ci b1_def using jl by (rule upd_ok)
  have s2: "rd x_pt (c_int (c_int (int i * int nf) + int j)) = Inr v"
    unfolding idx v_def using inr by (rule rd_ok)
  have "j < length b1" using jl by (simp add: b1_def)
  then have "upd b1 (int j) (\<lambda>nd. nd\<lparr>value := v\<rparr>) = Inr (b1[j := (b1 ! j)\<lparr>value := v\<rparr>])"
    by (rule upd_ok)
  also have "b1[j := (b1 ! j)\<lparr>value := v\<rparr>] = b2"
    using jl by (simp add: b1_def b2_def node_overwritten)
  finally have s3: "upd b1 (int j) (\<lambda>nd. nd\<lparr>value := v\<rparr>) = Inr b2" .
  have step: "fill_nodes x_pt (int nf) (int i) (map int (j # js)) x_nodes =
      fill_nodes x_pt (int nf) (int i) (map int js) b2"
    by (simp only: list.map fill_nodes.simps s1 s2 s3 sum.case)
  have "\<forall>j\<in>set js. j < nf" using Cons.prems by simp
  moreover have "length b2 = nf + 1" using Cons.prems by (simp add: b2_def)
  ultimately obtain b where b: "fill_nodes x_pt (int nf) (int i) (map int js) b2 = Inr b"
    "length b = nf + 1"
    "\<forall>k\<le>nf. b ! k = (if k \<in> set js then \<lparr>index = int k + 1, value = x_pt ! (i * nf + k)\<rparr>
                        else b2 ! k)"
    using Cons.IH [of b2] by blast
  have "\<forall>k\<le>nf. b ! k = (if k \<in> set (j # js) then \<lparr>index = int k + 1, value = x_pt ! (i * nf + k)\<rparr>
                        else x_nodes ! k)"
    using b(3) jl by (auto simp: b2_def v_def nth_list_update)
  with b(1,2) step show ?case by simp
qed

lemma upto_as_map: "[0..int nf - 1] = map int [0..<nf]"
proof (induction nf)
  case 0
  show ?case by simp
next
  case (Suc nf)
  have "[0..int (Suc nf) - 1] = [0..int nf]" by simp
  also have "\<dots> = [0..int nf - 1] @ [int nf]" by (rule upto_rec2) simp
  finally show ?case using Suc by simp
qed

lemma length_toSparseSample: "length (toSparseSample row) = length row + 1"
  by (simp add: toSparseSample_def)

lemma toSparseSample_last: "toSparseSample row ! length row = \<lparr>index = - 1, value = 0\<rparr>"
proof -
  have "length (map2 (\<lambda>j v. \<lparr>index = j, value = v\<rparr>) [1..int (length row)] row) = length row"
    by simp
  then show ?thesis unfolding toSparseSample_def by (metis nth_append_length)
qed

lemma toSparseSample_nth:
  assumes "k < length row"
  shows "toSparseSample row ! k = \<lparr>index = int k + 1, value = row ! k\<rparr>"
proof -
  have "[1..int (length row)] ! k = 1 + int k"
    using assms by (intro nth_upto) simp
  then show ?thesis using assms by (simp add: toSparseSample_def nth_append)
qed

lemma length_dense_row:
  fixes i n nf :: nat
  assumes "i < n" "length x_pt = n * nf"
  shows "length (dense_row x_pt nf i) = nf"
proof -
  have "(i + 1) * nf \<le> n * nf" using assms(1) by (intro mult_le_mono1) simp
  then have "i * nf + nf \<le> n * nf" by simp
  then show ?thesis using assms(2) by (simp add: dense_row_def)
qed

lemma dense_row_nth:
  fixes i n nf :: nat
  assumes "i < n" "length x_pt = n * nf" "k < nf"
  shows "dense_row x_pt nf i ! k = x_pt ! (i * nf + k)"
  using assms cell_index [OF assms(1,3)] by (simp add: dense_row_def)

lemma fill_nodes_result:
  fixes i n nf :: nat
  assumes "i < n" "length x_pt = n * nf" "n * nf < 2 ^ 31" "length x_nodes = nf + 1"
  shows "\<exists>b. fill_nodes x_pt (int nf) (int i) [0..int nf - 1] x_nodes = Inr b \<and>
    length b = nf + 1 \<and> b ! nf = x_nodes ! nf \<and>
    b[nf := \<lparr>index = - 1, value = 0\<rparr>] = toSparseSample (dense_row x_pt nf i)"
proof -
  obtain b where b: "fill_nodes x_pt (int nf) (int i) (map int [0..<nf]) x_nodes = Inr b"
    "length b = nf + 1"
    "\<forall>k\<le>nf. b ! k = (if k \<in> set [0..<nf] then \<lparr>index = int k + 1, value = x_pt ! (i * nf + k)\<rparr>
                        else x_nodes ! k)"
    using fill_nodes_cells [OF assms(1-3), of "[0..<nf]" x_nodes] assms(4) by auto
  have len: "length (dense_row x_pt nf i) = nf" by (rule length_dense_row [OF assms(1,2)])
  have "b[nf := \<lparr>index = - 1, value = 0\<rparr>] = toSparseSample (dense_row x_pt nf i)"
  proof (rule nth_equalityI)
    show "length (b[nf := \<lparr>index = - 1, value = 0\<rparr>]) =
      length (toSparseSample (dense_row x_pt nf i))"
      using b(2) len by (simp add: length_toSparseSample)
  next
    fix k assume "k < length (b[nf := \<lparr>index = - 1, value = 0\<rparr>])"
    then have "k \<le> nf" using b(2) by simp
    show "b[nf := \<lparr>index = - 1, value = 0\<rparr>] ! k = toSparseSample (dense_row x_pt nf i) ! k"
    proof (cases "k < nf")
      case True
      then show ?thesis
        using b(3) dense_row_nth [OF assms(1,2) True] len by (simp add: toSparseSample_nth)
    next
      case False
      then have "k = nf" using \<open>k \<le> nf\<close> by simp
      then show ?thesis
        using b(2) toSparseSample_last [of "dense_row x_pt nf i"] len by simp
    qed
  qed
  moreover have "b ! nf = x_nodes ! nf" using b(3) by simp
  ultimately show ?thesis using b(1,2) by (simp add: upto_as_map)
qed

lemma fill_nodes_row:
  fixes i n nf :: nat
  assumes "i < n" "length x_pt = n * nf" "n * nf < 2 ^ 31" "length x_nodes = nf + 1"
    "x_nodes ! nf = \<lparr>index = - 1, value = 0\<rparr>"
  shows "fill_nodes x_pt (int nf) (int i) [0..int nf - 1] x_nodes =
    Inr (toSparseSample (dense_row x_pt nf i))"
proof -
  obtain b where b: "fill_nodes x_pt (int nf) (int i) [0..int nf - 1] x_nodes = Inr b"
    "b ! nf = x_nodes ! nf"
    "b[nf := \<lparr>index = - 1, value = 0\<rparr>] = toSparseSample (dense_row x_pt nf i)"
    using fill_nodes_result [OF assms(1-4)] by blast
  have "b[nf := b ! nf] = b" by (rule list_update_id)
  then show ?thesis using b assms(5) by simp
qed

lemma put_sentinel_ok:
  assumes "length x_nodes = nf + 1"
  shows "put_sentinel x_nodes (int nf) = Inr (x_nodes[nf := \<lparr>index = - 1, value = 0\<rparr>])"
proof -
  define b1 where "b1 = x_nodes[nf := (x_nodes ! nf)\<lparr>index := - 1\<rparr>]"
  have "nf < length x_nodes" using assms by simp
  then have s1: "upd x_nodes (int nf) (\<lambda>nd. nd\<lparr>index := - 1\<rparr>) = Inr b1"
    unfolding b1_def by (rule upd_ok)
  have "nf < length b1" using assms by (simp add: b1_def)
  then have "upd b1 (int nf) (\<lambda>nd. nd\<lparr>value := 0\<rparr>) = Inr (b1[nf := (b1 ! nf)\<lparr>value := 0\<rparr>])"
    by (rule upd_ok)
  also have "b1[nf := (b1 ! nf)\<lparr>value := 0\<rparr>] = x_nodes[nf := \<lparr>index = - 1, value = 0\<rparr>]"
    using assms by (simp add: b1_def node_overwritten)
  finally show ?thesis by (simp only: put_sentinel_def s1 sum.case)
qed

lemma c_int_succ: "nf + 1 < 2 ^ 31 \<Longrightarrow> c_int (int nf + 1) = int nf + 1"
proof -
  assume "nf + 1 < 2 ^ 31"
  then have "int (nf + 1) < 2 ^ 31" by (rule int_less_pow)
  then show ?thesis by (intro c_int_id) linarith+
qed

lemma length_ALLOC_N_nodes: "length (ALLOC_N_nodes E k) = nat k"
  by (simp add: ALLOC_N_nodes_def)

text \<open>The rows of the problem, for any list of row numbers.\<close>

lemma problem_rows_result:
  fixes n nf :: nat
  assumes "length x_pt = n * nf" "n * nf < 2 ^ 31" "nf + 1 < 2 ^ 31" "n \<le> length y_pt"
  shows "\<forall>i\<in>set rows. i < n \<Longrightarrow>
    problem_rows E x_pt y_pt (int nf) (map int rows) problem w =
      (Inr (problem\<lparr>prob_x := prob_x problem @ map (\<lambda>i. toSparseSample (dense_row x_pt nf i)) rows,
                    prob_y := prob_y problem @ map (\<lambda>i. y_pt ! i) rows\<rparr>),
       w\<lparr>live := rev (map (\<lambda>i. NodeRow (int i)) rows) @ live w\<rparr>)"
proof (induction rows arbitrary: problem w)
  case Nil
  show ?case by simp
next
  case (Cons i rows)
  then have i: "i < n" by simp
  define buf where "buf = ALLOC_N_nodes E (c_int (int nf + 1))"
  have "length buf = nf + 1"
    unfolding buf_def c_int_succ [OF assms(3)] by (simp add: length_ALLOC_N_nodes nat_add_distrib)
  then obtain b where b: "fill_nodes x_pt (int nf) (int i) [0..int nf - 1] buf = Inr b"
    "length b = nf + 1"
    "b[nf := \<lparr>index = - 1, value = 0\<rparr>] = toSparseSample (dense_row x_pt nf i)"
    using fill_nodes_result [OF i assms(1,2)] by blast
  have s2: "put_sentinel b (int nf) = Inr (toSparseSample (dense_row x_pt nf i))"
    using put_sentinel_ok [OF b(2)] b(3) by simp
  have s3: "rd y_pt (int i) = Inr (y_pt ! i)"
    using i assms(4) by (intro rd_ok) simp
  have rest: "\<forall>i\<in>set rows. i < n" using Cons.prems by simp
  show ?case
    by (simp add: buf_def [symmetric] b(1) s2 s3 Cons.IH [OF rest] ALLOC_def Let_def)
qed

lemma toSparseSample_explicit:
  fixes i n nf :: nat
  assumes "i < n" "length x_pt = n * nf"
  shows "toSparseSample (dense_row x_pt nf i) =
    map (\<lambda>j. \<lparr>index = int j + 1, value = x_pt ! (i * nf + j)\<rparr>) [0..<nf]
      @ [\<lparr>index = - 1, value = 0\<rparr>]"
proof -
  have len: "length (dense_row x_pt nf i) = nf" by (rule length_dense_row [OF assms])
  have "map2 (\<lambda>j v. \<lparr>index = j, value = v\<rparr>) [1..int nf] (dense_row x_pt nf i) =
    map (\<lambda>j. \<lparr>index = int j + 1, value = x_pt ! (i * nf + j)\<rparr>) [0..<nf]"
  proof (rule nth_equalityI)
    show "length (map2 (\<lambda>j v. \<lparr>index = j, value = v\<rparr>) [1..int nf] (dense_row x_pt nf i)) =
      length (map (\<lambda>j. \<lparr>index = int j + 1, value = x_pt ! (i * nf + j)\<rparr>) [0..<nf])"
      using len by simp
  next
    fix k assume "k < length (map2 (\<lambda>j v. \<lparr>index = j, value = v\<rparr>) [1..int nf] (dense_row x_pt nf i))"
    then have k: "k < nf" using len by simp
    have "[1..int nf] ! k = 1 + int k" using k by (intro nth_upto) simp
    then show "map2 (\<lambda>j v. \<lparr>index = j, value = v\<rparr>) [1..int nf] (dense_row x_pt nf i) ! k =
      map (\<lambda>j. \<lparr>index = int j + 1, value = x_pt ! (i * nf + j)\<rparr>) [0..<nf] ! k"
      using k len dense_row_nth [OF assms k] by simp
  qed
  then show ?thesis using len by (simp add: toSparseSample_def)
qed

lemma upt_nth_map: "n \<le> length ys \<Longrightarrow> map (\<lambda>i. ys ! i) [0..<n] = take n ys"
  by (rule nth_equalityI) simp_all

lemma store_ok:
  "k + length vs \<le> length buf \<Longrightarrow>
   store buf (int k) vs = Inr (take k buf @ vs @ drop (k + length vs) buf)"
proof (induction vs arbitrary: k buf)
  case Nil
  show ?case by simp
next
  case (Cons v vs)
  then have k: "k < length buf" by simp
  have s1: "upd buf (int k) (\<lambda>_. v) = Inr (buf[k := v])" using k by (rule upd_ok)
  have "Suc k + length vs \<le> length (buf[k := v])" using Cons.prems by simp
  then have "store (buf[k := v]) (int (Suc k)) vs =
    Inr (take (Suc k) (buf[k := v]) @ vs @ drop (Suc k + length vs) (buf[k := v]))"
    by (rule Cons.IH)
  moreover have "int (Suc k) = int k + 1" by simp
  moreover have "take (Suc k) (buf[k := v]) = take k buf @ [v]"
    using k by (simp add: take_Suc_conv_app_nth)
  ultimately show ?case using s1 by (simp del: of_nat_Suc)
qed

lemma store_whole: "length vs = length buf \<Longrightarrow> store buf 0 vs = Inr vs"
  using store_ok [of 0 vs buf] by simp

lemma store_one: "k < length buf \<Longrightarrow> store buf (int k) [v] = Inr (buf[k := v])"
  by (simp add: upd_ok)

lemma copy_values_cells:
  fixes i n cols :: nat
  assumes "i < n" "length y_pt = n * cols" "n * cols < 2 ^ 31" "cols \<le> length src"
  shows "\<forall>j\<in>set js. j < cols \<Longrightarrow>
    \<exists>y'. copy_values src (int i) (int cols) (map int js) y_pt = Inr y' \<and>
      length y' = n * cols \<and>
      (\<forall>k<n * cols. y' ! k =
         (if \<exists>j\<in>set js. k = i * cols + j then src ! (k - i * cols) else y_pt ! k))"
  using assms(2)
proof (induction js arbitrary: y_pt)
  case Nil
  then show ?case by simp
next
  case (Cons j js)
  then have j: "j < cols" by simp
  have s1: "rd src (int j) = Inr (src ! j)" using j assms(4) by (intro rd_ok) simp
  have idx: "c_int (c_int (int i * int cols) + int j) = int (i * cols + j)"
    by (rule c_cell_index [OF assms(1) j assms(3)])
  have inr: "i * cols + j < length y_pt"
    using cell_index [OF assms(1) j] Cons.prems by simp
  define y1 where "y1 = y_pt[i * cols + j := src ! j]"
  have s2: "upd y_pt (c_int (c_int (int i * int cols) + int j)) (\<lambda>_. src ! j) = Inr y1"
    unfolding idx y1_def using inr by (rule upd_ok)
  have step: "copy_values src (int i) (int cols) (map int (j # js)) y_pt =
    copy_values src (int i) (int cols) (map int js) y1"
    by (simp only: list.map copy_values.simps s1 s2 sum.case)
  have "\<forall>j\<in>set js. j < cols" using Cons.prems by simp
  moreover have "length y1 = n * cols" using Cons.prems by (simp add: y1_def)
  ultimately obtain y' where y': "copy_values src (int i) (int cols) (map int js) y1 = Inr y'"
    "length y' = n * cols"
    "\<forall>k<n * cols. y' ! k =
         (if \<exists>j\<in>set js. k = i * cols + j then src ! (k - i * cols) else y1 ! k)"
    using Cons.IH [of y1] by blast
  have "\<forall>k<n * cols. y' ! k =
         (if \<exists>j'\<in>set (j # js). k = i * cols + j' then src ! (k - i * cols) else y_pt ! k)"
    using y'(3) inr by (auto simp: y1_def nth_list_update)
  with y'(1,2) step show ?case by simp
qed

lemma sparse_row_shape:
  fixes i n nf :: nat
  assumes "i < n" "length x_pt = n * nf"
  shows "length (toSparseSample (dense_row x_pt nf i)) = nf + 1"
    and "toSparseSample (dense_row x_pt nf i) ! nf = \<lparr>index = - 1, value = 0\<rparr>"
  using length_dense_row [OF assms] toSparseSample_last [of "dense_row x_pt nf i"]
  by (simp_all add: length_toSparseSample)

lemma cell_unique:
  fixes i i' j j' cols :: nat
  assumes "j < cols" "j' < cols" "i * cols + j = i' * cols + j'"
  shows "i = i'"
proof -
  have "(i * cols + j) div cols = i" "(i' * cols + j') div cols = i'"
    using assms(1,2) by simp_all
  then show ?thesis using assms(3) by simp
qed

lemma copy_row_cells:
  fixes i n cols :: nat
  assumes "i < n" "length y_pt = n * cols" "n * cols < 2 ^ 31" "length src = cols"
  shows "\<exists>y'. copy_values src (int i) (int cols) [0..int cols - 1] y_pt = Inr y' \<and>
      length y' = n * cols \<and>
      (\<forall>i'<n. \<forall>j<cols. y' ! (i' * cols + j) =
         (if i' = i then src ! j else y_pt ! (i' * cols + j)))"
proof -
  have "cols \<le> length src" using assms(4) by simp
  then obtain y' where y': "copy_values src (int i) (int cols) (map int [0..<cols]) y_pt = Inr y'"
    "length y' = n * cols"
    "\<forall>k<n * cols. y' ! k =
         (if \<exists>j\<in>set [0..<cols]. k = i * cols + j then src ! (k - i * cols) else y_pt ! k)"
    using copy_values_cells [OF assms(1-3), of src "[0..<cols]"] by auto
  have "\<forall>i'<n. \<forall>j<cols. y' ! (i' * cols + j) =
         (if i' = i then src ! j else y_pt ! (i' * cols + j))"
  proof (intro allI impI)
    fix i' j assume i': "i' < n" and j: "j < cols"
    have k: "i' * cols + j < n * cols" by (rule cell_index [OF i' j])
    show "y' ! (i' * cols + j) = (if i' = i then src ! j else y_pt ! (i' * cols + j))"
    proof (cases "i' = i")
      case True
      then show ?thesis using y'(3) k j by auto
    next
      case False
      then have "\<not> (\<exists>j'\<in>set [0..<cols]. i' * cols + j = i * cols + j')"
        using cell_unique [OF j] by auto
      then show ?thesis using y'(3) k False by simp
    qed
  qed
  with y'(1,2) show ?thesis by (simp add: upto_as_map)
qed

lemma matrix_rows_cells:
  fixes n nf cols :: nat
  assumes "length x_pt = n * nf" "n * nf < 2 ^ 31" "n * cols < 2 ^ 31"
    and "\<forall>i<n. length (routine model (toSparseSample (dense_row x_pt nf i))) = cols"
  shows "\<forall>i\<in>set rows. i < n \<Longrightarrow> length x_nodes = nf + 1 \<Longrightarrow>
    x_nodes ! nf = \<lparr>index = - 1, value = 0\<rparr> \<Longrightarrow> length scratch = cols \<Longrightarrow>
    length y_pt = n * cols \<Longrightarrow>
    \<exists>y'. matrix_rows routine entry model x_pt (int nf) (int cols) (map int rows) x_nodes scratch
            y_pt w =
          (Inr y',
           w\<lparr>calls := calls w @ map (\<lambda>i. entry model (toSparseSample (dense_row x_pt nf i))) rows\<rparr>)
      \<and> length y' = n * cols
      \<and> (\<forall>i<n. \<forall>j<cols. y' ! (i * cols + j) =
           (if i \<in> set rows then routine model (toSparseSample (dense_row x_pt nf i)) ! j
            else y_pt ! (i * cols + j)))"
proof (induction rows arbitrary: x_nodes scratch y_pt w)
  case Nil
  then show ?case by simp
next
  case (Cons a rows)
  then have a: "a < n" by simp
  define sp where "sp = toSparseSample (dense_row x_pt nf a)"
  define vals where "vals = routine model sp"
  have s1: "fill_nodes x_pt (int nf) (int a) [0..int nf - 1] x_nodes = Inr sp"
    unfolding sp_def using a assms(1,2) Cons.prems(2,3) by (rule fill_nodes_row)
  have lv: "length vals = cols" using assms(4) a by (simp add: vals_def sp_def)
  have s2: "store scratch 0 vals = Inr vals"
    using lv Cons.prems(4) by (intro store_whole) simp
  obtain y1 where y1: "copy_values vals (int a) (int cols) [0..int cols - 1] y_pt = Inr y1"
    "length y1 = n * cols"
    "\<forall>i'<n. \<forall>j<cols. y1 ! (i' * cols + j) =
         (if i' = a then vals ! j else y_pt ! (i' * cols + j))"
    using copy_row_cells [OF a Cons.prems(5) assms(3) lv] by blast
  define w1 where "w1 = invoke (entry model sp) w"
  have step: "matrix_rows routine entry model x_pt (int nf) (int cols) (map int (a # rows))
      x_nodes scratch y_pt w =
    matrix_rows routine entry model x_pt (int nf) (int cols) (map int rows) sp vals y1 w1"
    unfolding vals_def w1_def
    by (simp only: list.map matrix_rows.simps s1 s2 [unfolded vals_def]
        y1(1) [unfolded vals_def] sum.case Let_def)
  have "\<forall>i\<in>set rows. i < n" using Cons.prems(1) by simp
  moreover have "length sp = nf + 1" "sp ! nf = \<lparr>index = - 1, value = 0\<rparr>"
    unfolding sp_def using sparse_row_shape [OF a assms(1)] by simp_all
  ultimately obtain y' where y':
    "matrix_rows routine entry model x_pt (int nf) (int cols) (map int rows) sp vals y1 w1 =
      (Inr y',
       w1\<lparr>calls := calls w1 @ map (\<lambda>i. entry model (toSparseSample (dense_row x_pt nf i))) rows\<rparr>)"
    "length y' = n * cols"
    "\<forall>i<n. \<forall>j<cols. y' ! (i * cols + j) =
           (if i \<in> set rows then routine model (toSparseSample (dense_row x_pt nf i)) ! j
            else y1 ! (i * cols + j))"
    using Cons.IH [of sp vals y1 w1] lv y1(2) by blast
  have w: "w1\<lparr>calls := calls w1 @ map (\<lambda>i. entry model (toSparseSample (dense_row x_pt nf i))) rows\<rparr>
    = w\<lparr>calls := calls w @ map (\<lambda>i. entry model (toSparseSample (dense_row x_pt nf i))) (a # rows)\<rparr>"
    by (simp add: w1_def invoke_def sp_def)
  have "\<forall>i<n. \<forall>j<cols. y' ! (i * cols + j) =
           (if i \<in> set (a # rows) then routine model (toSparseSample (dense_row x_pt nf i)) ! j
            else y_pt ! (i * cols + j))"
    using y'(3) y1(3) by (auto simp: vals_def sp_def)
  with y'(1,2) step w show ?case by simp
qed

lemma predict_rows_cells:
  fixes n nf :: nat
  assumes "length x_pt = n * nf" "n * nf < 2 ^ 31"
  shows "\<forall>i\<in>set rows. i < n \<Longrightarrow> length x_nodes = nf + 1 \<Longrightarrow>
    x_nodes ! nf = \<lparr>index = - 1, value = 0\<rparr> \<Longrightarrow> length y_pt = n \<Longrightarrow>
    \<exists>y'. predict_rows E model x_pt (int nf) (map int rows) x_nodes y_pt w =
          (Inr y',
           w\<lparr>calls := calls w @ map (\<lambda>i. Predict model (toSparseSample (dense_row x_pt nf i))) rows\<rparr>)
      \<and> length y' = n
      \<and> (\<forall>k<n. y' ! k =
           (if k \<in> set rows then svm_predict E model (toSparseSample (dense_row x_pt nf k))
            else y_pt ! k))"
proof (induction rows arbitrary: x_nodes y_pt w)
  case Nil
  then show ?case by simp
next
  case (Cons a rows)
  then have a: "a < n" by simp
  define sp where "sp = toSparseSample (dense_row x_pt nf a)"
  define y1 where "y1 = y_pt[a := svm_predict E model sp]"
  define w1 where "w1 = invoke (Predict model sp) w"
  have s1: "fill_nodes x_pt (int nf) (int a) [0..int nf - 1] x_nodes = Inr sp"
    unfolding sp_def using a assms(1,2) Cons.prems(2,3) by (rule fill_nodes_row)
  have s2: "upd y_pt (int a) (\<lambda>_. svm_predict E model sp) = Inr y1"
    unfolding y1_def using a Cons.prems(4) by (intro upd_ok) simp
  have step: "predict_rows E model x_pt (int nf) (map int (a # rows)) x_nodes y_pt w =
    predict_rows E model x_pt (int nf) (map int rows) sp y1 w1"
    unfolding w1_def by (simp only: list.map predict_rows.simps s1 s2 sum.case Let_def)
  have "\<forall>i\<in>set rows. i < n" using Cons.prems(1) by simp
  moreover have "length sp = nf + 1" "sp ! nf = \<lparr>index = - 1, value = 0\<rparr>"
    unfolding sp_def using sparse_row_shape [OF a assms(1)] by simp_all
  moreover have "length y1 = n" using Cons.prems(4) by (simp add: y1_def)
  ultimately obtain y' where y':
    "predict_rows E model x_pt (int nf) (map int rows) sp y1 w1 =
      (Inr y',
       w1\<lparr>calls := calls w1 @ map (\<lambda>i. Predict model (toSparseSample (dense_row x_pt nf i))) rows\<rparr>)"
    "length y' = n"
    "\<forall>k<n. y' ! k =
           (if k \<in> set rows then svm_predict E model (toSparseSample (dense_row x_pt nf k))
            else y1 ! k)"
    using Cons.IH [of sp y1 w1] by blast
  have w: "w1\<lparr>calls := calls w1 @ map (\<lambda>i. Predict model (toSparseSample (dense_row x_pt nf i))) rows\<rparr>
    = w\<lparr>calls := calls w @ map (\<lambda>i. Predict model (toSparseSample (dense_row x_pt nf i))) (a # rows)\<rparr>"
    by (simp add: w1_def invoke_def sp_def)
  have "\<forall>k<n. y' ! k =
           (if k \<in> set (a # rows) then svm_predict E model (toSparseSample (dense_row x_pt nf k))
            else y_pt ! k)"
    using y'(3) a Cons.prems(4) by (auto simp: y1_def sp_def nth_list_update)
  with y'(1,2) step w show ?case by simp
qed

lemma values_rows_cells:
  fixes n nf :: nat
  assumes "length x_pt = n * nf" "n * nf < 2 ^ 31"
    and "\<forall>i<n. length (svm_predict_values E model (toSparseSample (dense_row x_pt nf i))) = 1"
  shows "\<forall>i\<in>set rows. i < n \<Longrightarrow> length x_nodes = nf + 1 \<Longrightarrow>
    x_nodes ! nf = \<lparr>index = - 1, value = 0\<rparr> \<Longrightarrow> length y_pt = n \<Longrightarrow>
    \<exists>y'. values_rows E model x_pt (int nf) (map int rows) x_nodes y_pt w =
          (Inr y',
           w\<lparr>calls := calls w
              @ map (\<lambda>i. PredictValues model (toSparseSample (dense_row x_pt nf i))) rows\<rparr>)
      \<and> length y' = n
      \<and> (\<forall>k<n. y' ! k =
           (if k \<in> set rows
            then svm_predict_values E model (toSparseSample (dense_row x_pt nf k)) ! 0
            else y_pt ! k))"
proof (induction rows arbitrary: x_nodes y_pt w)
  case Nil
  then show ?case by simp
next
  case (Cons a rows)
  then have a: "a < n" by simp
  define sp where "sp = toSparseSample (dense_row x_pt nf a)"
  define vals where "vals = svm_predict_values E model sp"
  define y1 where "y1 = y_pt[a := vals ! 0]"
  define w1 where "w1 = invoke (PredictValues model sp) w"
  have s1: "fill_nodes x_pt (int nf) (int a) [0..int nf - 1] x_nodes = Inr sp"
    unfolding sp_def using a assms(1,2) Cons.prems(2,3) by (rule fill_nodes_row)
  have "length vals = 1" using assms(3) a by (simp add: vals_def sp_def)
  then have "vals = [vals ! 0]" by (cases vals) simp_all
  moreover have "store y_pt (int a) [vals ! 0] = Inr y1"
    unfolding y1_def using a Cons.prems(4) by (intro store_one) simp
  ultimately have s2: "store y_pt (int a) vals = Inr y1" by simp
  have step: "values_rows E model x_pt (int nf) (map int (a # rows)) x_nodes y_pt w =
    values_rows E model x_pt (int nf) (map int rows) sp y1 w1"
    unfolding w1_def vals_def
    by (simp only: list.map values_rows.simps s1 s2 [unfolded vals_def] sum.case Let_def)
  have "\<forall>i\<in>set rows. i < n" using Cons.prems(1) by simp
  moreover have "length sp = nf + 1" "sp ! nf = \<lparr>index = - 1, value = 0\<rparr>"
    unfolding sp_def using sparse_row_shape [OF a assms(1)] by simp_all
  moreover have "length y1 = n" using Cons.prems(4) by (simp add: y1_def)
  ultimately obtain y' where y':
    "values_rows E model x_pt (int nf) (map int rows) sp y1 w1 =
      (Inr y',
       w1\<lparr>calls := calls w1
           @ map (\<lambda>i. PredictValues model (toSparseSample (dense_row x_pt nf i))) rows\<rparr>)"
    "length y' = n"
    "\<forall>k<n. y' ! k =
           (if k \<in> set rows
            then svm_predict_values E model (toSparseSample (dense_row x_pt nf k)) ! 0
            else y1 ! k)"
    using Cons.IH [of sp y1 w1] by blast
  have w: "w1\<lparr>calls := calls w1
           @ map (\<lambda>i. PredictValues model (toSparseSample (dense_row x_pt nf i))) rows\<rparr>
    = w\<lparr>calls := calls w
           @ map (\<lambda>i. PredictValues model (toSparseSample (dense_row x_pt nf i))) (a # rows)\<rparr>"
    by (simp add: w1_def invoke_def sp_def)
  have "\<forall>k<n. y' ! k =
           (if k \<in> set (a # rows)
            then svm_predict_values E model (toSparseSample (dense_row x_pt nf k)) ! 0
            else y_pt ! k)"
    using y'(3) a Cons.prems(4) by (auto simp: y1_def vals_def sp_def nth_list_update)
  with y'(1,2) step w show ?case by simp
qed

lemma concat_uniform:
  "\<forall>i<n. length (f i) = c \<Longrightarrow>
   length (concat (map f [0..<n])) = n * c
   \<and> (\<forall>i<n. \<forall>j<c. concat (map f [0..<n]) ! (i * c + j) = f i ! j)"
proof (induction n)
  case 0
  show ?case by simp
next
  case (Suc n)
  have prev: "\<forall>i<n. length (f i) = c" using Suc.prems by simp
  have len: "length (concat (map f [0..<n])) = n * c" using Suc.IH [OF prev] by simp
  have cells: "\<forall>i<n. \<forall>j<c. concat (map f [0..<n]) ! (i * c + j) = f i ! j"
    using Suc.IH [OF prev] by simp
  have "\<forall>i<Suc n. \<forall>j<c. concat (map f [0..<Suc n]) ! (i * c + j) = f i ! j"
  proof (intro allI impI)
    fix i j assume i: "i < Suc n" and j: "j < c"
    show "concat (map f [0..<Suc n]) ! (i * c + j) = f i ! j"
    proof (cases "i < n")
      case True
      then have "i * c + j < n * c" using j by (rule cell_index)
      then show ?thesis using len cells True j by (simp add: nth_append)
    next
      case False
      then have "i = n" using i by simp
      then show ?thesis using len by (simp add: nth_append)
    qed
  qed
  moreover have "length (concat (map f [0..<Suc n])) = Suc n * c"
    using len Suc.prems by simp
  ultimately show ?case by blast
qed

lemma cells_concat:
  assumes "\<forall>i<n. length (f i) = c" "length ys = n * c"
    and "\<forall>i<n. \<forall>j<c. ys ! (i * c + j) = f i ! j"
  shows "ys = concat (map f [0..<n])"
proof (rule nth_equalityI)
  show "length ys = length (concat (map f [0..<n]))"
    using assms(2) concat_uniform [OF assms(1)] by simp
next
  fix k assume "k < length ys"
  then have k: "k < n * c" using assms(2) by simp
  then have c: "0 < c" by (cases c) simp_all
  have i: "k div c < n" using k by (simp add: less_mult_imp_div_less)
  have j: "k mod c < c" using c by simp
  have "k = k div c * c + k mod c" by simp
  moreover have "ys ! (k div c * c + k mod c) = f (k div c) ! (k mod c)"
    using assms(3) i j by blast
  moreover have "concat (map f [0..<n]) ! (k div c * c + k mod c) = f (k div c) ! (k mod c)"
    using concat_uniform [OF assms(1)] i j by blast
  ultimately show "ys ! k = concat (map f [0..<n]) ! k" by simp
qed

section \<open>The batch loops and the operations on well-formed input\<close>

lemma size_t_of_int_nat: "0 \<le> k \<Longrightarrow> k < 2 ^ 31 \<Longrightarrow> size_t_of_int k = nat k"
proof -
  assume "0 \<le> k" "k < 2 ^ 31"
  then have "k < 2 ^ 64" by simp
  then have "take_bit 64 k = k" using \<open>0 \<le> k\<close> by (simp add: take_bit_int_eq_self)
  then show ?thesis by (simp add: size_t_of_int_def)
qed

lemma size_t_of_int_of_nat: "n < 2 ^ 31 \<Longrightarrow> size_t_of_int (int n) = n"
  using size_t_of_int_nat [of "int n"] int_less_pow [of n 31] by simp

lemma dims_ok:
  assumes "dense_matrix E x n nf"
  shows "dims E x = Inr (int n, int nf)"
proof -
  have shp: "NA_SHAPE E x = [n, nf]" and n: "n < 2 ^ 31" and nf: "nf < 2 ^ 31"
    using assms by (simp_all add: dense_matrix_def)
  have "rd [n, nf] 0 = Inr n" "rd [n, nf] 1 = Inr nf" by (simp_all add: rd_def)
  then show ?thesis
    by (simp add: dims_def shp int_of_size_t_id [OF n] int_of_size_t_id [OF nf])
qed

lemma decode_model_ok:
  assumes "rb_hash_to_svm_parameter E param_hash = Inr prm"
    and "rb_hash_to_svm_model E model_hash = Inr model"
  shows "decode_model E param_hash model_hash w =
    (Inr (model\<lparr>param := prm\<rparr>), ALLOC ModelStruct (ALLOC ParamStruct w))"
  using assms by (simp add: decode_model_def)

lemma sentinel_buffer:
  assumes "nf + 1 < 2 ^ 31"
  shows "\<exists>b. put_sentinel (ALLOC_N_nodes E (c_int (int nf + 1))) (int nf) = Inr b \<and>
    length b = nf + 1 \<and> b ! nf = \<lparr>index = - 1, value = 0\<rparr>"
proof -
  define buf where "buf = ALLOC_N_nodes E (c_int (int nf + 1))"
  have len: "length buf = nf + 1"
    unfolding buf_def c_int_succ [OF assms] by (simp add: length_ALLOC_N_nodes nat_add_distrib)
  then show ?thesis
    using put_sentinel_ok [OF len] by (simp add: buf_def)
qed

lemma predict_rows_all:
  fixes n nf :: nat
  assumes "length x_pt = n * nf" "n * nf < 2 ^ 31" "length x_nodes = nf + 1"
    "x_nodes ! nf = \<lparr>index = - 1, value = 0\<rparr>" "length y_pt = n"
  shows "predict_rows E model x_pt (int nf) [0..int n - 1] x_nodes y_pt w =
    (Inr (per_row_labels E model x_pt n nf),
     w\<lparr>calls := calls w
         @ map (\<lambda>i. Predict model (toSparseSample (dense_row x_pt nf i))) [0..<n]\<rparr>)"
proof -
  have rows: "\<forall>i\<in>set [0..<n]. i < n" by simp
  obtain y' where y':
    "predict_rows E model x_pt (int nf) (map int [0..<n]) x_nodes y_pt w =
          (Inr y',
           w\<lparr>calls := calls w
              @ map (\<lambda>i. Predict model (toSparseSample (dense_row x_pt nf i))) [0..<n]\<rparr>)"
    "length y' = n"
    "\<forall>k<n. y' ! k =
           (if k \<in> set [0..<n] then svm_predict E model (toSparseSample (dense_row x_pt nf k))
            else y_pt ! k)"
    using predict_rows_cells [OF assms(1,2) rows assms(3-5)] by blast
  have "y' = per_row_labels E model x_pt n nf"
    unfolding per_row_labels_def using y'(2,3) by (intro nth_equalityI) simp_all
  with y'(1) show ?thesis by (simp add: upto_as_map)
qed

lemma values_rows_all:
  fixes n nf :: nat
  assumes "length x_pt = n * nf" "n * nf < 2 ^ 31" "length x_nodes = nf + 1"
    "x_nodes ! nf = \<lparr>index = - 1, value = 0\<rparr>" "length y_pt = n"
    and "\<forall>i<n. length (svm_predict_values E model (toSparseSample (dense_row x_pt nf i))) = 1"
  shows "values_rows E model x_pt (int nf) [0..int n - 1] x_nodes y_pt w =
    (Inr (per_row_values (svm_predict_values E) model x_pt n nf),
     w\<lparr>calls := calls w
         @ map (\<lambda>i. PredictValues model (toSparseSample (dense_row x_pt nf i))) [0..<n]\<rparr>)"
proof -
  have rows: "\<forall>i\<in>set [0..<n]. i < n" by simp
  obtain y' where y':
    "values_rows E model x_pt (int nf) (map int [0..<n]) x_nodes y_pt w =
          (Inr y',
           w\<lparr>calls := calls w
              @ map (\<lambda>i. PredictValues model (toSparseSample (dense_row x_pt nf i))) [0..<n]\<rparr>)"
    "length y' = n"
    "\<forall>k<n. y' ! k =
           (if k \<in> set [0..<n]
            then svm_predict_values E model (toSparseSample (dense_row x_pt nf k)) ! 0
            else y_pt ! k)"
    using values_rows_cells [OF assms(1,2,6) rows assms(3-5)] by blast
  have "y' = per_row_values (svm_predict_values E) model x_pt n nf"
    unfolding per_row_values_def
  proof (rule cells_concat [where c = 1])
    show "\<forall>i<n. length (svm_predict_values E model (toSparseSample (dense_row x_pt nf i))) = 1"
      by (rule assms(6))
    show "length y' = n * 1" using y'(2) by simp
    show "\<forall>i<n. \<forall>j<1. y' ! (i * 1 + j) =
      svm_predict_values E model (toSparseSample (dense_row x_pt nf i)) ! j"
      using y'(3) by simp
  qed
  with y'(1) show ?thesis by (simp add: upto_as_map)
qed

lemma matrix_rows_all:
  fixes n nf cols :: nat
  assumes "length x_pt = n * nf" "n * nf < 2 ^ 31" "n * cols < 2 ^ 31"
    and "\<forall>i<n. length (routine model (toSparseSample (dense_row x_pt nf i))) = cols"
    and "length x_nodes = nf + 1" "x_nodes ! nf = \<lparr>index = - 1, value = 0\<rparr>"
    and "length scratch = cols" "length y_pt = n * cols"
  shows "matrix_rows routine entry model x_pt (int nf) (int cols) [0..int n - 1] x_nodes scratch
      y_pt w =
    (Inr (per_row_values routine model x_pt n nf),
     w\<lparr>calls := calls w @ map (\<lambda>i. entry model (toSparseSample (dense_row x_pt nf i))) [0..<n]\<rparr>)"
proof -
  have rows: "\<forall>i\<in>set [0..<n]. i < n" by simp
  obtain y' where y':
    "matrix_rows routine entry model x_pt (int nf) (int cols) (map int [0..<n]) x_nodes scratch
            y_pt w =
          (Inr y',
           w\<lparr>calls := calls w @ map (\<lambda>i. entry model (toSparseSample (dense_row x_pt nf i))) [0..<n]\<rparr>)"
    "length y' = n * cols"
    "\<forall>i<n. \<forall>j<cols. y' ! (i * cols + j) =
           (if i \<in> set [0..<n] then routine model (toSparseSample (dense_row x_pt nf i)) ! j
            else y_pt ! (i * cols + j))"
    using matrix_rows_cells [where routine = routine and model = model,
        OF assms(1-4) rows assms(5-8)] by blast
  have "y' = per_row_values routine model x_pt n nf"
    unfolding per_row_values_def using assms(4) y'(2)
  proof (rule cells_concat)
    show "\<forall>i<n. \<forall>j<cols. y' ! (i * cols + j) =
      routine model (toSparseSample (dense_row x_pt nf i)) ! j"
      using y'(3) by simp
  qed
  with y'(1) show ?thesis by (simp add: upto_as_map)
qed

lemma length_rb_narray_new:
  "length (na_data (rb_narray_new E ndim shp)) = prod_list (take ndim shp)"
  by (simp add: rb_narray_new_def)

lemma predict_result:
  fixes n nf :: nat
  assumes "to_DFloat E x_val = Inr x1" and "dense_matrix E (to_contiguous E x1) n nf"
    and "rb_hash_to_svm_parameter E param_hash = Inr prm"
    and "rb_hash_to_svm_model E model_hash = Inr model"
  shows "predict E x_val param_hash model_hash =
    (Inr \<lparr>na_shape = [n],
          na_data = per_row_labels E (model\<lparr>param := prm\<rparr>)
                      (na_get_pointer_for_read E (to_contiguous E x1)) n nf\<rparr>,
     \<lparr>live = [],
      calls = map (\<lambda>i. Predict (model\<lparr>param := prm\<rparr>)
                (toSparseSample (dense_row (na_get_pointer_for_read E (to_contiguous E x1)) nf i)))
              [0..<n]\<rparr>)"
proof -
  define x where "x = to_contiguous E x1"
  define x_pt where "x_pt = na_get_pointer_for_read E x"
  define m where "m = model\<lparr>param := prm\<rparr>"
  define w3 :: "'c world" where "w3 = ALLOC XNodes (ALLOC ModelStruct (ALLOC ParamStruct start))"
  have dm: "dense_matrix E x n nf" using assms(2) by (simp add: x_def)
  then have len: "length x_pt = n * nf" and fits: "n * nf < 2 ^ 31" and nf: "nf + 1 < 2 ^ 31"
    and n: "n < 2 ^ 31"
    by (simp_all add: dense_matrix_def x_pt_def)
  have d: "dims E x = Inr (int n, int nf)" by (rule dims_ok [OF dm])
  have dec: "decode_model E param_hash model_hash start =
    (Inr m, ALLOC ModelStruct (ALLOC ParamStruct start))"
    unfolding m_def by (rule decode_model_ok [OF assms(3,4)])
  obtain b where b: "put_sentinel (ALLOC_N_nodes E (c_int (int nf + 1))) (int nf) = Inr b"
    "length b = nf + 1" "b ! nf = \<lparr>index = - 1, value = 0\<rparr>"
    using sentinel_buffer [OF nf] by blast
  define y_val :: "'c narray" where "y_val = rb_narray_new E (Suc 0) [size_t_of_int (int n)]"
  have shp: "na_shape y_val = [n]"
    by (simp add: y_val_def rb_narray_new_def size_t_of_int_of_nat [OF n])
  have "length (na_data y_val) = n"
    by (simp add: y_val_def length_rb_narray_new size_t_of_int_of_nat [OF n])
  then have loop: "predict_rows E m x_pt (int nf) [0..int n - 1] b (na_data y_val) w3 =
    (Inr (per_row_labels E m x_pt n nf),
     w3\<lparr>calls := calls w3 @ map (\<lambda>i. Predict m (toSparseSample (dense_row x_pt nf i))) [0..<n]\<rparr>)"
    using len fits b(2,3) by (intro predict_rows_all)
  have "predict E x_val param_hash model_hash =
    (Inr (y_val\<lparr>na_data := per_row_labels E m x_pt n nf\<rparr>),
     xfree_svm_parameter (xfree_svm_model (xfree XNodes
       (w3\<lparr>calls := calls w3 @ map (\<lambda>i. Predict m (toSparseSample (dense_row x_pt nf i))) [0..<n]\<rparr>))))"
    unfolding predict_def assms(1)
    by (simp add: Let_def x_def [symmetric] dec d b(1) x_pt_def [symmetric]
        y_val_def [symmetric] w3_def [symmetric] loop)
  moreover have "y_val\<lparr>na_data := per_row_labels E m x_pt n nf\<rparr> =
    \<lparr>na_shape = [n], na_data = per_row_labels E m x_pt n nf\<rparr>"
    using shp by (cases y_val) simp
  moreover have "xfree_svm_parameter (xfree_svm_model (xfree XNodes
       (w3\<lparr>calls := calls w3 @ map (\<lambda>i. Predict m (toSparseSample (dense_row x_pt nf i))) [0..<n]\<rparr>)))
    = \<lparr>live = [], calls = map (\<lambda>i. Predict m (toSparseSample (dense_row x_pt nf i))) [0..<n]\<rparr>"
    by (simp add: w3_def xfree_svm_parameter_def xfree_svm_model_def xfree_def ALLOC_def start_def)
  ultimately show ?thesis by (simp add: m_def x_pt_def x_def)
qed

lemma pair_count:
  assumes "0 \<le> k" "k * (k - 1) < 2 ^ 31"
  shows "c_div (c_int (k * c_int (k - 1))) 2 = k * (k - 1) div 2"
    and "0 \<le> k * (k - 1) div 2" and "k * (k - 1) div 2 < 2 ^ 31"
proof -
  have nonneg: "0 \<le> k * (k - 1)"
  proof (cases "k = 0")
    case True
    then show ?thesis by simp
  next
    case False
    then have "0 \<le> k - 1" using assms(1) by simp
    then show ?thesis using assms(1) by (rule mult_nonneg_nonneg [rotated])
  qed
  have small: "k - 1 < 2 ^ 31"
  proof (cases "k \<le> 1")
    case True
    then show ?thesis by simp
  next
    case False
    then have "1 * (k - 1) \<le> k * (k - 1)" by (intro mult_right_mono) simp_all
    then show ?thesis using assms(2) by simp
  qed
  have a: "c_int (k - 1) = k - 1" using assms(1) small by (intro c_int_id) simp_all
  have b: "c_int (k * (k - 1)) = k * (k - 1)" using nonneg assms(2) by (intro c_int_id) simp_all
  show "c_div (c_int (k * c_int (k - 1))) 2 = k * (k - 1) div 2"
    using nonneg by (simp add: a b c_div_def)
  show "0 \<le> k * (k - 1) div 2" using nonneg by simp
  show "k * (k - 1) div 2 < 2 ^ 31" using assms(2) nonneg by simp
qed

lemma decision_width_cases:
  "decision_width model =
     (if one_valued model then 1 else nat (nr_class model * (nr_class model - 1) div 2))"
  by (simp add: decision_width_def one_valued_def)

lemma decision_shape_ok:
  assumes "n < 2 ^ 31" "0 \<le> nr_class model" "nr_class model * (nr_class model - 1) < 2 ^ 31"
  shows "decision_shape model (int n) = [n, decision_width model]"
  using pair_count [OF assms(2,3)]
  by (simp add: decision_shape_def decision_width_cases size_t_of_int_of_nat [OF assms(1)]
      size_t_of_int_nat)

lemma length_ALLOC_N_doubles: "length (ALLOC_N_doubles E k) = nat k"
  by (simp add: ALLOC_N_doubles_def)

lemma decision_values_result:
  fixes n nf :: nat
  assumes "length x_pt = n * nf" "n * nf < 2 ^ 31" "nf + 1 < 2 ^ 31" "n < 2 ^ 31"
    and "0 \<le> nr_class model" "nr_class model * (nr_class model - 1) < 2 ^ 31"
    and "n * decision_width model < 2 ^ 31"
    and "\<forall>i<n. length (svm_predict_values E model (toSparseSample (dense_row x_pt nf i)))
           = decision_width model"
    and "length y_pt = n * decision_width model"
  shows "decision_values E model x_pt (int n) (int nf) y_pt w =
    (Inr (per_row_values (svm_predict_values E) model x_pt n nf),
     w\<lparr>calls := calls w
         @ map (\<lambda>i. PredictValues model (toSparseSample (dense_row x_pt nf i))) [0..<n]\<rparr>)"
proof -
  obtain b where b: "put_sentinel (ALLOC_N_nodes E (c_int (int nf + 1))) (int nf) = Inr b"
    "length b = nf + 1" "b ! nf = \<lparr>index = - 1, value = 0\<rparr>"
    using sentinel_buffer [OF assms(3)] by blast
  show ?thesis
  proof (cases "one_valued model")
    case True
    then have one: "decision_width model = 1" by (simp add: decision_width_cases)
    have "\<forall>i<n. length (svm_predict_values E model (toSparseSample (dense_row x_pt nf i))) = 1"
      using assms(8) one by simp
    moreover have "length y_pt = n" using assms(9) one by simp
    ultimately have loop: "values_rows E model x_pt (int nf) [0..int n - 1] b y_pt (ALLOC XNodes w) =
      (Inr (per_row_values (svm_predict_values E) model x_pt n nf),
       (ALLOC XNodes w)\<lparr>calls := calls (ALLOC XNodes w)
         @ map (\<lambda>i. PredictValues model (toSparseSample (dense_row x_pt nf i))) [0..<n]\<rparr>)"
      using assms(1,2) b(2,3) by (intro values_rows_all)
    show ?thesis
      unfolding decision_values_def
      by (simp add: True Let_def b(1) loop) (simp add: ALLOC_def xfree_def)
  next
    case False
    define cols where "cols = decision_width model"
    have shp: "decision_shape model (int n) ! Suc 0 = cols"
      using decision_shape_ok [OF assms(4-6)] by (simp add: cols_def)
    have "cols = nat (nr_class model * (nr_class model - 1) div 2)"
      using False by (simp add: cols_def decision_width_cases)
    then have "cols < 2 ^ 31" using pair_count(2,3) [OF assms(5,6)] by simp
    then have y_cols: "int_of_size_t cols = int cols" by (rule int_of_size_t_id)
    define w1 where "w1 = ALLOC XNodes (ALLOC DecValues w)"
    have "length (ALLOC_N_doubles E (int cols)) = cols" by (simp add: length_ALLOC_N_doubles)
    then have loop: "matrix_rows (svm_predict_values E) PredictValues model x_pt (int nf)
        (int cols) [0..int n - 1] b (ALLOC_N_doubles E (int cols)) y_pt w1 =
      (Inr (per_row_values (svm_predict_values E) model x_pt n nf),
       w1\<lparr>calls := calls w1
         @ map (\<lambda>i. PredictValues model (toSparseSample (dense_row x_pt nf i))) [0..<n]\<rparr>)"
      using assms(1,2,7,8,9) b(2,3) unfolding cols_def [symmetric]
      by (intro matrix_rows_all) simp_all
    show ?thesis
      unfolding decision_values_def
      by (simp add: False Let_def b(1) shp y_cols w1_def [symmetric] loop)
        (simp add: w1_def ALLOC_def xfree_def)
  qed
qed

lemma decision_output_ok:
  assumes "n < 2 ^ 31" "0 \<le> nr_class model" "nr_class model * (nr_class model - 1) < 2 ^ 31"
  shows "na_shape (decision_output E model (int n)) =
      (if one_valued model then [n] else [n, decision_width model])"
    and "length (na_data (decision_output E model (int n))) = n * decision_width model"
  using decision_shape_ok [OF assms]
  by (simp_all add: decision_output_def rb_narray_new_def decision_width_cases)

lemma decision_function_result:
  fixes n nf :: nat
  assumes "to_DFloat E x_val = Inr x1" and "dense_matrix E (to_contiguous E x1) n nf"
    and "rb_hash_to_svm_parameter E param_hash = Inr prm"
    and "rb_hash_to_svm_model E model_hash = Inr model"
    and "values_contract E"
    and "0 \<le> nr_class model" and "nr_class model * (nr_class model - 1) < 2 ^ 31"
    and "n * decision_width (model\<lparr>param := prm\<rparr>) < 2 ^ 31"
  shows "decision_function E x_val param_hash model_hash =
    (Inr \<lparr>na_shape = (if one_valued (model\<lparr>param := prm\<rparr>) then [n]
                      else [n, decision_width (model\<lparr>param := prm\<rparr>)]),
          na_data = per_row_values (svm_predict_values E) (model\<lparr>param := prm\<rparr>)
                      (na_get_pointer_for_read E (to_contiguous E x1)) n nf\<rparr>,
     \<lparr>live = [],
      calls = map (\<lambda>i. PredictValues (model\<lparr>param := prm\<rparr>)
                (toSparseSample (dense_row (na_get_pointer_for_read E (to_contiguous E x1)) nf i)))
              [0..<n]\<rparr>)"
proof -
  define x where "x = to_contiguous E x1"
  define x_pt where "x_pt = na_get_pointer_for_read E x"
  define m where "m = model\<lparr>param := prm\<rparr>"
  define w2 :: "'c world" where "w2 = ALLOC ModelStruct (ALLOC ParamStruct start)"
  have dm: "dense_matrix E x n nf" using assms(2) by (simp add: x_def)
  then have len: "length x_pt = n * nf" and fits: "n * nf < 2 ^ 31" and nf: "nf + 1 < 2 ^ 31"
    and n: "n < 2 ^ 31"
    by (simp_all add: dense_matrix_def x_pt_def)
  have d: "dims E x = Inr (int n, int nf)" by (rule dims_ok [OF dm])
  have dec: "decode_model E param_hash model_hash start = (Inr m, w2)"
    unfolding m_def w2_def by (rule decode_model_ok [OF assms(3,4)])
  have nr: "0 \<le> nr_class m" "nr_class m * (nr_class m - 1) < 2 ^ 31"
    using assms(6,7) by (simp_all add: m_def)
  define y_val where "y_val = decision_output E m (int n)"
  have shp: "na_shape y_val = (if one_valued m then [n] else [n, decision_width m])"
    and ylen: "length (na_data y_val) = n * decision_width m"
    unfolding y_val_def using decision_output_ok [where E = E, OF n nr] by simp_all
  have contract: "\<forall>i<n. length (svm_predict_values E m (toSparseSample (dense_row x_pt nf i)))
           = decision_width m"
    using assms(5) by (simp add: values_contract_def)
  have wd: "n * decision_width m < 2 ^ 31" using assms(8) by (simp add: m_def)
  have loop: "decision_values E m x_pt (int n) (int nf) (na_data y_val) w2 =
    (Inr (per_row_values (svm_predict_values E) m x_pt n nf),
     w2\<lparr>calls := calls w2
         @ map (\<lambda>i. PredictValues m (toSparseSample (dense_row x_pt nf i))) [0..<n]\<rparr>)"
    by (rule decision_values_result [OF len fits nf n nr wd contract ylen])
  have "decision_function E x_val param_hash model_hash =
    (Inr (y_val\<lparr>na_data := per_row_values (svm_predict_values E) m x_pt n nf\<rparr>),
     xfree_svm_parameter (xfree_svm_model
       (w2\<lparr>calls := calls w2
         @ map (\<lambda>i. PredictValues m (toSparseSample (dense_row x_pt nf i))) [0..<n]\<rparr>)))"
    unfolding decision_function_def assms(1)
    by (simp add: Let_def x_def [symmetric] dec d x_pt_def [symmetric]
        y_val_def [symmetric] loop)
  moreover have "y_val\<lparr>na_data := per_row_values (svm_predict_values E) m x_pt n nf\<rparr> =
    \<lparr>na_shape = (if one_valued m then [n] else [n, decision_width m]),
     na_data = per_row_values (svm_predict_values E) m x_pt n nf\<rparr>"
    using shp by (cases y_val) simp
  moreover have "xfree_svm_parameter (xfree_svm_model
       (w2\<lparr>calls := calls w2
         @ map (\<lambda>i. PredictValues m (toSparseSample (dense_row x_pt nf i))) [0..<n]\<rparr>))
    = \<lparr>live = [], calls = map (\<lambda>i. PredictValues m (toSparseSample (dense_row x_pt nf i))) [0..<n]\<rparr>"
    by (simp add: w2_def xfree_svm_parameter_def xfree_svm_model_def xfree_def ALLOC_def start_def)
  ultimately show ?thesis by (simp add: m_def x_pt_def x_def)
qed

lemma proba_matrix_result:
  fixes n nf :: nat
  assumes "to_DFloat E x_val = Inr x1" and "dense_matrix E (to_contiguous E x1) n nf"
    and "probability_contract E"
    and "0 \<le> nr_class model" and "nr_class model < 2 ^ 31"
    and "n * nat (nr_class model) < 2 ^ 31"
  shows "proba_matrix E x_val model w =
    (Inr \<lparr>na_shape = [n, nat (nr_class model)],
          na_data = per_row_values (svm_predict_probability E) model
                      (na_get_pointer_for_read E (to_contiguous E x1)) n nf\<rparr>,
     w\<lparr>calls := calls w @ map (\<lambda>i. PredictProbability model
                (toSparseSample (dense_row (na_get_pointer_for_read E (to_contiguous E x1)) nf i)))
              [0..<n]\<rparr>)"
proof -
  define x where "x = to_contiguous E x1"
  define x_pt where "x_pt = na_get_pointer_for_read E x"
  define cols where "cols = nat (nr_class model)"
  define w1 where "w1 = ALLOC XNodes (ALLOC Probs w)"
  have dm: "dense_matrix E x n nf" using assms(2) by (simp add: x_def)
  then have len: "length x_pt = n * nf" and fits: "n * nf < 2 ^ 31" and nf: "nf + 1 < 2 ^ 31"
    and n: "n < 2 ^ 31"
    by (simp_all add: dense_matrix_def x_pt_def)
  have d: "dims E x = Inr (int n, int nf)" by (rule dims_ok [OF dm])
  have nr: "nr_class model = int cols" using assms(4) by (simp add: cols_def)
  have csz: "size_t_of_int (int cols) = cols"
    using size_t_of_int_nat [OF assms(4,5)] by (simp add: nr)
  obtain b where b: "put_sentinel (ALLOC_N_nodes E (c_int (int nf + 1))) (int nf) = Inr b"
    "length b = nf + 1" "b ! nf = \<lparr>index = - 1, value = 0\<rparr>"
    using sentinel_buffer [OF nf] by blast
  define y_val :: "'c narray" where
    "y_val = rb_narray_new E 2 [size_t_of_int (int n), size_t_of_int (int cols)]"
  have shp: "na_shape y_val = [n, cols]"
    by (simp add: y_val_def rb_narray_new_def size_t_of_int_of_nat [OF n] csz)
  have ylen: "length (na_data y_val) = n * cols"
    by (simp add: y_val_def rb_narray_new_def size_t_of_int_of_nat [OF n] csz)
  have contract: "\<forall>i<n. length (svm_predict_probability E model
      (toSparseSample (dense_row x_pt nf i))) = cols"
    using assms(3) by (simp add: probability_contract_def cols_def)
  have wd: "n * cols < 2 ^ 31" using assms(6) by (simp add: cols_def)
  have "length (ALLOC_N_doubles E (int cols)) = cols" by (simp add: length_ALLOC_N_doubles)
  then have loop: "matrix_rows (svm_predict_probability E) PredictProbability model x_pt (int nf)
        (int cols) [0..int n - 1] b (ALLOC_N_doubles E (int cols)) (na_data y_val) w1 =
      (Inr (per_row_values (svm_predict_probability E) model x_pt n nf),
       w1\<lparr>calls := calls w1
         @ map (\<lambda>i. PredictProbability model (toSparseSample (dense_row x_pt nf i))) [0..<n]\<rparr>)"
    using len fits wd contract b(2,3) ylen by (intro matrix_rows_all) simp_all
  have "proba_matrix E x_val model w =
    (Inr (y_val\<lparr>na_data := per_row_values (svm_predict_probability E) model x_pt n nf\<rparr>),
     xfree Probs (xfree XNodes (w1\<lparr>calls := calls w1
         @ map (\<lambda>i. PredictProbability model (toSparseSample (dense_row x_pt nf i))) [0..<n]\<rparr>)))"
    unfolding proba_matrix_def assms(1)
    by (simp add: Let_def x_def [symmetric] d x_pt_def [symmetric] nr b(1)
        y_val_def [symmetric] w1_def [symmetric] loop)
  moreover have "y_val\<lparr>na_data := per_row_values (svm_predict_probability E) model x_pt n nf\<rparr> =
    \<lparr>na_shape = [n, cols],
     na_data = per_row_values (svm_predict_probability E) model x_pt n nf\<rparr>"
    using shp by (cases y_val) simp
  moreover have "xfree Probs (xfree XNodes (w1\<lparr>calls := calls w1
         @ map (\<lambda>i. PredictProbability model (toSparseSample (dense_row x_pt nf i))) [0..<n]\<rparr>))
    = w\<lparr>calls := calls w
         @ map (\<lambda>i. PredictProbability model (toSparseSample (dense_row x_pt nf i))) [0..<n]\<rparr>"
    by (simp add: w1_def xfree_def ALLOC_def)
  ultimately show ?thesis by (simp add: x_pt_def x_def cols_def)
qed

lemma predict_proba_unsupported:
  assumes "rb_hash_to_svm_parameter E param_hash = Inr prm"
    and "rb_hash_to_svm_model E model_hash = Inr model"
    and "\<not> proba_supported (model\<lparr>param := prm\<rparr>)"
  shows "predict_proba E x_val param_hash model_hash = (Inr None, \<lparr>live = [], calls = []\<rparr>)"
  using assms(3)
  by (simp add: predict_proba_def decode_model_ok [OF assms(1,2)] xfree_svm_parameter_def
      xfree_svm_model_def xfree_def ALLOC_def start_def)

lemma predict_proba_supported:
  fixes n nf :: nat
  assumes "to_DFloat E x_val = Inr x1" and "dense_matrix E (to_contiguous E x1) n nf"
    and "rb_hash_to_svm_parameter E param_hash = Inr prm"
    and "rb_hash_to_svm_model E model_hash = Inr model"
    and "probability_contract E"
    and "0 \<le> nr_class model" and "nr_class model < 2 ^ 31"
    and "n * nat (nr_class model) < 2 ^ 31"
    and "proba_supported (model\<lparr>param := prm\<rparr>)"
  shows "predict_proba E x_val param_hash model_hash =
    (Inr (Some \<lparr>na_shape = [n, nat (nr_class model)],
          na_data = per_row_values (svm_predict_probability E) (model\<lparr>param := prm\<rparr>)
                      (na_get_pointer_for_read E (to_contiguous E x1)) n nf\<rparr>),
     \<lparr>live = [],
      calls = map (\<lambda>i. PredictProbability (model\<lparr>param := prm\<rparr>)
                (toSparseSample (dense_row (na_get_pointer_for_read E (to_contiguous E x1)) nf i)))
              [0..<n]\<rparr>)"
proof -
  define m where "m = model\<lparr>param := prm\<rparr>"
  have nr: "0 \<le> nr_class m" "nr_class m < 2 ^ 31" "n * nat (nr_class m) < 2 ^ 31"
    using assms(6-8) by (simp_all add: m_def)
  show ?thesis
    using assms(9) unfolding m_def [symmetric]
    by (simp add: predict_proba_def decode_model_ok [OF assms(3,4)] m_def [symmetric]
        proba_matrix_result [OF assms(1,2,5) nr])
      (simp add: xfree_svm_parameter_def xfree_svm_model_def xfree_def ALLOC_def start_def
        m_def)
qed

section \<open>Blocks and engine calls on every path\<close>

lemma world_simps:
  "live (ALLOC b w) = b # live w" "calls (ALLOC b w) = calls w"
  "live (xfree b w) = remove1 b (live w)" "calls (xfree b w) = calls w"
  "live (invoke c w) = live w" "calls (invoke c w) = calls w @ [c]"
  "live (start :: 'd world) = []" "calls (start :: 'd world) = []"
  "calls (xfree_svm_parameter w) = calls w" "calls (xfree_svm_model w) = calls w"
  "live (xfree_svm_parameter w) = remove1 ParamStruct (live w)"
  "live (xfree_svm_model w) = remove1 ModelStruct (live w)"
  by (simp_all add: ALLOC_def xfree_def invoke_def start_def xfree_svm_parameter_def
      xfree_svm_model_def)

lemma world_eqI: "live w = bs \<Longrightarrow> calls w = cs \<Longrightarrow> w = \<lparr>live = bs, calls = cs\<rparr>"
  by (cases w) simp

text \<open>What the loops do to the two components of the world, however they end.\<close>

lemma predict_rows_world:
  "live (snd (predict_rows E model x_pt nf rows x_nodes y_pt w)) = live w
   \<and> (\<forall>c\<in>set (calls (snd (predict_rows E model x_pt nf rows x_nodes y_pt w))).
        c \<in> set (calls w) \<or> call_model c = Some model)"
proof (induction rows arbitrary: x_nodes y_pt w)
  case Nil
  show ?case by simp
next
  case (Cons a rows)
  show ?case
  proof (cases "fill_nodes x_pt nf a [0..nf - 1] x_nodes")
    case (Inl e)
    then show ?thesis by simp
  next
    case (Inr x_nodes1)
    note filled = this
    show ?thesis
    proof (cases "upd y_pt a (\<lambda>_. svm_predict E model x_nodes1)")
      case (Inl e)
      then show ?thesis using filled by (simp add: world_simps)
    next
      case (Inr y_pt1)
      then show ?thesis
        using filled Cons.IH [of x_nodes1 y_pt1 "invoke (Predict model x_nodes1) w"]
        by (auto simp: world_simps)
    qed
  qed
qed

lemma values_rows_world:
  "live (snd (values_rows E model x_pt nf rows x_nodes y_pt w)) = live w
   \<and> (\<forall>c\<in>set (calls (snd (values_rows E model x_pt nf rows x_nodes y_pt w))).
        c \<in> set (calls w) \<or> call_model c = Some model)"
proof (induction rows arbitrary: x_nodes y_pt w)
  case Nil
  show ?case by simp
next
  case (Cons a rows)
  show ?case
  proof (cases "fill_nodes x_pt nf a [0..nf - 1] x_nodes")
    case (Inl e)
    then show ?thesis by simp
  next
    case (Inr x_nodes1)
    note filled = this
    show ?thesis
    proof (cases "store y_pt a (svm_predict_values E model x_nodes1)")
      case (Inl e)
      then show ?thesis using filled by (simp add: world_simps)
    next
      case (Inr y_pt1)
      then show ?thesis
        using filled Cons.IH [of x_nodes1 y_pt1 "invoke (PredictValues model x_nodes1) w"]
        by (auto simp: world_simps)
    qed
  qed
qed

lemma matrix_rows_world:
  assumes "\<And>x_nodes. call_model (entry model x_nodes) = Some model"
  shows "live (snd (matrix_rows routine entry model x_pt nf cols rows x_nodes scratch y_pt w))
      = live w
   \<and> (\<forall>c\<in>set (calls (snd (matrix_rows routine entry model x_pt nf cols rows x_nodes scratch
          y_pt w))).
        c \<in> set (calls w) \<or> call_model c = Some model)"
proof (induction rows arbitrary: x_nodes scratch y_pt w)
  case Nil
  show ?case by simp
next
  case (Cons a rows)
  show ?case
  proof (cases "fill_nodes x_pt nf a [0..nf - 1] x_nodes")
    case (Inl e)
    then show ?thesis by simp
  next
    case (Inr x_nodes1)
    note filled = this
    show ?thesis
    proof (cases "store scratch 0 (routine model x_nodes1)")
      case (Inl e)
      then show ?thesis using filled by (simp add: world_simps assms)
    next
      case (Inr scratch1)
      note stored = this
      show ?thesis
      proof (cases "copy_values scratch1 a cols [0..cols - 1] y_pt")
        case (Inl e)
        then show ?thesis using filled stored by (simp add: world_simps assms)
      next
        case (Inr y_pt1)
        then show ?thesis
          using filled stored
            Cons.IH [of x_nodes1 scratch1 y_pt1 "invoke (entry model x_nodes1) w"]
          by (auto simp: world_simps assms)
      qed
    qed
  qed
qed

lemma finish_world:
  "snd (case r of (Inl e, w) \<Rightarrow> (Inl e, w) | (Inr y, w) \<Rightarrow> (Inr (f y), g w)) =
     (if isl (fst r) then snd r else g (snd r))"
  "isl (fst (case r of (Inl e, w) \<Rightarrow> (Inl e, w) | (Inr y, w) \<Rightarrow> (Inr (f y), g w))) = isl (fst r)"
  by (cases r; cases "fst r"; simp)+

lemma decision_values_world:
  "live (snd (decision_values E model x_pt n_samples n_features y_pt w)) =
     (if isl (fst (decision_values E model x_pt n_samples n_features y_pt w))
      then (if one_valued model then XNodes # live w else XNodes # DecValues # live w)
      else live w)
   \<and> (\<forall>c\<in>set (calls (snd (decision_values E model x_pt n_samples n_features y_pt w))).
        c \<in> set (calls w) \<or> call_model c = Some model)"
proof (cases "put_sentinel (ALLOC_N_nodes E (c_int (n_features + 1))) n_features")
  case (Inl e)
  then show ?thesis by (simp add: decision_values_def Let_def world_simps)
next
  case (Inr x_nodes)
  show ?thesis
  proof (cases "one_valued model")
    case True
    then show ?thesis
      using Inr values_rows_world [of E model x_pt n_features "[0..n_samples - 1]" x_nodes y_pt
          "ALLOC XNodes w"]
      by (simp add: decision_values_def Let_def finish_world world_simps)
  next
    case False
    have entry: "\<And>x_nodes. call_model (PredictValues model x_nodes) = Some model" by simp
    show ?thesis
      using False Inr matrix_rows_world [of PredictValues model "svm_predict_values E" x_pt
          n_features "int_of_size_t (decision_shape model n_samples ! 1)" "[0..n_samples - 1]"
          x_nodes "ALLOC_N_doubles E (int_of_size_t (decision_shape model n_samples ! 1))"
          y_pt "ALLOC XNodes (ALLOC DecValues w)", OF entry]
      by (simp add: decision_values_def Let_def finish_world world_simps)
  qed
qed

lemma decode_model_world:
  "calls (snd (decode_model E param_hash model_hash w)) = calls w"
  "fst (decode_model E param_hash model_hash w) = Inr m \<Longrightarrow>
     live (snd (decode_model E param_hash model_hash w)) = ModelStruct # ParamStruct # live w"
  "fst (decode_model E param_hash model_hash w) = Inr m \<Longrightarrow>
     \<exists>prm model. rb_hash_to_svm_parameter E param_hash = Inr prm
       \<and> rb_hash_to_svm_model E model_hash = Inr model \<and> m = model\<lparr>param := prm\<rparr>"
  by (auto simp: decode_model_def Let_def world_simps split: sum.splits)

lemma predict_returns_clean:
  "\<not> isl (fst (predict E x_val param_hash model_hash)) \<Longrightarrow>
   live (snd (predict E x_val param_hash model_hash)) = []"
proof -
  assume ret: "\<not> isl (fst (predict E x_val param_hash model_hash))"
  obtain r w2 where dec: "decode_model E param_hash model_hash start = (r, w2)"
    by (cases "decode_model E param_hash model_hash start")
  show ?thesis
  proof (cases "to_DFloat E x_val")
    case (Inl e)
    then show ?thesis using ret by (simp add: predict_def)
  next
    case (Inr x1)
    show ?thesis
    proof (cases r)
      case (Inl e)
      then show ?thesis using ret Inr dec by (simp add: predict_def Let_def)
    next
      case m: (Inr m)
      have w2: "live w2 = [ModelStruct, ParamStruct]"
        using decode_model_world(2) [of E param_hash model_hash start m] dec m
        by (simp add: world_simps)
      show ?thesis
      proof (cases "dims E (to_contiguous E x1)")
        case (Inl e)
        then show ?thesis using ret Inr dec m by (simp add: predict_def Let_def)
      next
        case d: (Inr d)
        obtain n_samples n_features where nd: "d = (n_samples, n_features)" by (cases d)
        show ?thesis
        proof (cases "put_sentinel (ALLOC_N_nodes E (c_int (n_features + 1))) n_features")
          case (Inl e)
          then show ?thesis using ret Inr dec m d nd by (simp add: predict_def Let_def)
        next
          case b: (Inr b)
          show ?thesis
            using ret Inr dec m d nd b w2
              predict_rows_world [of E m "na_get_pointer_for_read E (to_contiguous E x1)"
                n_features "[0..n_samples - 1]" b
                "na_data (rb_narray_new E 1 [size_t_of_int n_samples])" "ALLOC XNodes w2"]
            by (simp add: predict_def Let_def finish_world world_simps)
        qed
      qed
    qed
  qed
qed

lemma problem_rows_world:
  "calls (snd (problem_rows E x_pt y_pt nf rows problem w)) = calls w
   \<and> (\<not> isl (fst (problem_rows E x_pt y_pt nf rows problem w)) \<longrightarrow>
        live (snd (problem_rows E x_pt y_pt nf rows problem w)) = rev (map NodeRow rows) @ live w)"
proof (induction rows arbitrary: problem w)
  case Nil
  show ?case by simp
next
  case (Cons i rows)
  show ?case
  proof (cases "fill_nodes x_pt nf i [0..nf - 1] (ALLOC_N_nodes E (c_int (nf + 1)))")
    case (Inl e)
    then show ?thesis by (simp add: Let_def world_simps)
  next
    case (Inr row)
    note filled = this
    show ?thesis
    proof (cases "put_sentinel row nf")
      case (Inl e)
      then show ?thesis using filled by (simp add: Let_def world_simps)
    next
      case (Inr row1)
      note ended = this
      show ?thesis
      proof (cases "rd y_pt i")
        case (Inl e)
        then show ?thesis using filled ended by (simp add: Let_def world_simps)
      next
        case (Inr yi)
        then show ?thesis
          using filled ended
            Cons.IH [of "problem\<lparr>prob_x := prob_x problem @ [row1],
                                  prob_y := prob_y problem @ [yi]\<rparr>" "ALLOC (NodeRow i) w"]
          by (simp add: Let_def world_simps)
      qed
    qed
  qed
qed

lemma free_rows_calls: "calls (free_rows rows w) = calls w"
  by (induction rows arbitrary: w) (simp_all add: world_simps)

lemma free_rows_live:
  "distinct rows \<Longrightarrow> \<forall>i\<in>set rows. NodeRow i \<notin> set rest \<Longrightarrow>
   live w = rev (map NodeRow rows) @ rest \<Longrightarrow> live (free_rows rows w) = rest"
proof (induction rows arbitrary: w)
  case Nil
  then show ?case by simp
next
  case (Cons i rows)
  have "NodeRow i \<notin> set (rev (map NodeRow rows))" using Cons.prems(1) by auto
  then have "remove1 (NodeRow i) (rev (map NodeRow rows) @ [NodeRow i] @ rest) =
    rev (map NodeRow rows) @ rest"
    by (simp add: remove1_append)
  then have "live (xfree (NodeRow i) w) = rev (map NodeRow rows) @ rest"
    using Cons.prems(3) by (simp add: world_simps)
  then show ?case using Cons.IH [of "xfree (NodeRow i) w"] Cons.prems(1,2) by simp
qed

lemma release_problem_world:
  assumes "live w = rev (map NodeRow [0..n_samples - 1])
             @ ProblemY # ProblemX # ProblemStruct # rest"
    and "\<forall>b\<in>set rest. b = ParamStruct"
  shows "live (release_problem n_samples w) = rest"
    and "calls (release_problem n_samples w) = calls w"
proof -
  have "\<forall>i\<in>set [0..n_samples - 1].
      NodeRow i \<notin> set (ProblemY # ProblemX # ProblemStruct # rest)"
    using assms(2) by auto
  then have "live (free_rows [0..n_samples - 1] w) = ProblemY # ProblemX # ProblemStruct # rest"
    using assms(1) by (intro free_rows_live) simp_all
  then show "live (release_problem n_samples w) = rest"
    by (simp add: release_problem_def world_simps)
  show "calls (release_problem n_samples w) = calls w"
    by (simp add: release_problem_def world_simps free_rows_calls)
qed

lemma build_problem_world:
  "calls (snd (build_problem E x_pt y_pt n_samples n_features w)) = calls w"
  "\<not> isl (fst (build_problem E x_pt y_pt n_samples n_features w)) \<Longrightarrow>
   live (snd (build_problem E x_pt y_pt n_samples n_features w)) =
     rev (map NodeRow [0..n_samples - 1]) @ ProblemY # ProblemX # ProblemStruct # live w"
  using problem_rows_world [of E x_pt y_pt n_features "[0..n_samples - 1]"
      "\<lparr>prob_l = n_samples, prob_y = [], prob_x = []\<rparr>"
      "ALLOC ProblemY (ALLOC ProblemX (ALLOC ProblemStruct w))"]
  by (simp_all add: build_problem_def world_simps)

lemma train_returns_clean:
  "\<not> isl (fst (train E x_val y_val param_hash)) \<Longrightarrow>
   live (snd (train E x_val y_val param_hash)) = []"
proof -
  assume ret: "\<not> isl (fst (train E x_val y_val param_hash))"
  show ?thesis
  proof (cases "to_DFloat E x_val")
    case (Inl e)
    then show ?thesis using ret by (simp add: train_def)
  next
    case x1: (Inr x1)
    show ?thesis
    proof (cases "to_DFloat E y_val")
      case (Inl e)
      then show ?thesis using ret x1 by (simp add: train_def)
    next
      case y1: (Inr y1)
      show ?thesis
      proof (cases "rb_hash_to_svm_parameter E param_hash")
        case (Inl e)
        then show ?thesis using ret x1 y1 by (simp add: train_def Let_def)
      next
        case prm: (Inr prm)
        show ?thesis
        proof (cases "dims E (to_contiguous E x1)")
          case (Inl e)
          then show ?thesis using ret x1 y1 prm by (simp add: train_def Let_def)
        next
          case d: (Inr d)
          obtain n_samples n_features where nd: "d = (n_samples, n_features)" by (cases d)
          define B where "B = build_problem E (na_get_pointer_for_read E (to_contiguous E x1))
            (na_get_pointer_for_read E (to_contiguous E y1)) n_samples n_features
            (ALLOC ParamStruct start)"
          obtain r w2 where B: "B = (r, w2)" by (cases B)
          show ?thesis
          proof (cases r)
            case (Inl e)
            then show ?thesis
              using ret x1 y1 prm d nd B by (simp add: train_def Let_def B_def [symmetric])
          next
            case (Inr problem)
            then have "live w2 = rev (map NodeRow [0..n_samples - 1])
                @ ProblemY # ProblemX # ProblemStruct # [ParamStruct]"
              using build_problem_world(2) [of E "na_get_pointer_for_read E (to_contiguous E x1)"
                  "na_get_pointer_for_read E (to_contiguous E y1)" n_samples n_features
                  "ALLOC ParamStruct start"] B
              by (simp add: B_def [symmetric] world_simps)
            then have "live (release_problem n_samples
                (xfree EngineModel (invoke FreeAndDestroyModel (ALLOC EngineModel
                  (invoke (Train problem prm) (invoke SetPrintStringFunction w2))))))
              = [ParamStruct]"
              by (intro release_problem_world(1)) (simp_all add: world_simps)
            then show ?thesis
              using x1 y1 prm d nd B Inr
              by (simp add: train_def Let_def B_def [symmetric] world_simps)
          qed
        qed
      qed
    qed
  qed
qed

lemma cross_validation_returns_clean:
  "\<not> isl (fst (cross_validation E x_val y_val param_hash nr_folds)) \<Longrightarrow>
   live (snd (cross_validation E x_val y_val param_hash nr_folds)) = []"
proof -
  assume ret: "\<not> isl (fst (cross_validation E x_val y_val param_hash nr_folds))"
  show ?thesis
  proof (cases "NUM2INT E nr_folds")
    case (Inl e)
    then show ?thesis using ret by (simp add: cross_validation_def)
  next
    case k: (Inr n_folds)
    show ?thesis
    proof (cases "to_DFloat E x_val")
      case (Inl e)
      then show ?thesis using ret k by (simp add: cross_validation_def)
    next
      case x1: (Inr x1)
      show ?thesis
      proof (cases "to_DFloat E y_val")
        case (Inl e)
        then show ?thesis using ret k x1 by (simp add: cross_validation_def)
      next
        case y1: (Inr y1)
        show ?thesis
        proof (cases "rb_hash_to_svm_parameter E param_hash")
          case (Inl e)
          then show ?thesis using ret k x1 y1 by (simp add: cross_validation_def Let_def)
        next
          case prm: (Inr prm)
          show ?thesis
          proof (cases "dims E (to_contiguous E x1)")
            case (Inl e)
            then show ?thesis using ret k x1 y1 prm by (simp add: cross_validation_def Let_def)
          next
            case d: (Inr d)
            obtain n_samples n_features where nd: "d = (n_samples, n_features)" by (cases d)
            define B where "B = build_problem E (na_get_pointer_for_read E (to_contiguous E x1))
              (na_get_pointer_for_read E (to_contiguous E y1)) n_samples n_features
              (ALLOC ParamStruct start)"
            obtain r w2 where B: "B = (r, w2)" by (cases B)
            show ?thesis
            proof (cases r)
              case (Inl e)
              then show ?thesis
                using ret k x1 y1 prm d nd B
                by (simp add: cross_validation_def Let_def B_def [symmetric])
            next
              case problem: (Inr problem)
              then have w2: "live w2 = rev (map NodeRow [0..n_samples - 1])
                  @ ProblemY # ProblemX # ProblemStruct # [ParamStruct]"
                using build_problem_world(2) [of E
                    "na_get_pointer_for_read E (to_contiguous E x1)"
                    "na_get_pointer_for_read E (to_contiguous E y1)" n_samples n_features
                    "ALLOC ParamStruct start"] B
                by (simp add: B_def [symmetric] world_simps)
              show ?thesis
              proof (cases "store (na_data (rb_narray_new E 1 [size_t_of_int n_samples])) 0
                  (svm_cross_validation E problem prm n_folds)")
                case (Inl e)
                then show ?thesis
                  using ret k x1 y1 prm d nd B problem
                  by (simp add: cross_validation_def Let_def B_def [symmetric])
              next
                case (Inr t_pt)
                have "live (release_problem n_samples
                    (invoke (CrossValidation problem prm n_folds)
                      (invoke SetPrintStringFunction w2))) = [ParamStruct]"
                  using w2 by (intro release_problem_world(1)) (simp_all add: world_simps)
                then show ?thesis
                  using k x1 y1 prm d nd B problem Inr
                  by (simp add: cross_validation_def Let_def B_def [symmetric] world_simps)
              qed
            qed
          qed
        qed
      qed
    qed
  qed
qed

lemma decision_function_returns_clean:
  "\<not> isl (fst (decision_function E x_val param_hash model_hash)) \<Longrightarrow>
   live (snd (decision_function E x_val param_hash model_hash)) = []"
proof -
  assume ret: "\<not> isl (fst (decision_function E x_val param_hash model_hash))"
  obtain r w2 where dec: "decode_model E param_hash model_hash start = (r, w2)"
    by (cases "decode_model E param_hash model_hash start")
  show ?thesis
  proof (cases "to_DFloat E x_val")
    case (Inl e)
    then show ?thesis using ret by (simp add: decision_function_def)
  next
    case (Inr x1)
    show ?thesis
    proof (cases r)
      case (Inl e)
      then show ?thesis using ret Inr dec by (simp add: decision_function_def Let_def)
    next
      case m: (Inr m)
      have w2: "live w2 = [ModelStruct, ParamStruct]"
        using decode_model_world(2) [of E param_hash model_hash start m] dec m
        by (simp add: world_simps)
      show ?thesis
      proof (cases "dims E (to_contiguous E x1)")
        case (Inl e)
        then show ?thesis using ret Inr dec m by (simp add: decision_function_def Let_def)
      next
        case d: (Inr d)
        obtain n_samples n_features where nd: "d = (n_samples, n_features)" by (cases d)
        show ?thesis
          using ret Inr dec m d nd w2
            decision_values_world [of E m "na_get_pointer_for_read E (to_contiguous E x1)"
              n_samples n_features "na_data (decision_output E m n_samples)" w2]
          by (simp add: decision_function_def Let_def finish_world world_simps)
      qed
    qed
  qed
qed

lemma proba_matrix_world:
  "live (snd (proba_matrix E x_val model w)) =
     (if isl (fst (proba_matrix E x_val model w))
      then live (snd (proba_matrix E x_val model w)) else live w)
   \<and> (\<forall>c\<in>set (calls (snd (proba_matrix E x_val model w))).
        c \<in> set (calls w) \<or> call_model c = Some model)"
proof (cases "to_DFloat E x_val")
  case (Inl e)
  then show ?thesis by (simp add: proba_matrix_def)
next
  case (Inr x1)
  show ?thesis
  proof (cases "dims E (to_contiguous E x1)")
    case (Inl e)
    then show ?thesis using Inr by (simp add: proba_matrix_def Let_def)
  next
    case d: (Inr d)
    obtain n_samples n_features where nd: "d = (n_samples, n_features)" by (cases d)
    show ?thesis
    proof (cases "put_sentinel (ALLOC_N_nodes E (c_int (n_features + 1))) n_features")
      case (Inl e)
      then show ?thesis using Inr d nd by (simp add: proba_matrix_def Let_def world_simps)
    next
      case b: (Inr b)
      have entry: "\<And>x_nodes. call_model (PredictProbability model x_nodes) = Some model"
        by simp
      show ?thesis
        using Inr d nd b
          matrix_rows_world [of PredictProbability model "svm_predict_probability E"
            "na_get_pointer_for_read E (to_contiguous E x1)" n_features "nr_class model"
            "[0..n_samples - 1]" b "ALLOC_N_doubles E (nr_class model)"
            "na_data (rb_narray_new E 2 [size_t_of_int n_samples,
               size_t_of_int (nr_class model)])"
            "ALLOC XNodes (ALLOC Probs w)", OF entry]
        by (simp add: proba_matrix_def Let_def finish_world world_simps)
    qed
  qed
qed

lemma predict_proba_returns_clean:
  "\<not> isl (fst (predict_proba E x_val param_hash model_hash)) \<Longrightarrow>
   live (snd (predict_proba E x_val param_hash model_hash)) = []"
proof -
  assume ret: "\<not> isl (fst (predict_proba E x_val param_hash model_hash))"
  obtain r w2 where dec: "decode_model E param_hash model_hash start = (r, w2)"
    by (cases "decode_model E param_hash model_hash start")
  show ?thesis
  proof (cases r)
    case (Inl e)
    then show ?thesis using ret dec by (simp add: predict_proba_def)
  next
    case m: (Inr m)
    have w2: "live w2 = [ModelStruct, ParamStruct]"
      using decode_model_world(2) [of E param_hash model_hash start m] dec m
      by (simp add: world_simps)
    show ?thesis
      using ret dec m w2 proba_matrix_world [of E x_val m w2]
      by (simp add: predict_proba_def finish_world world_simps split: if_splits)
  qed
qed

lemma load_svm_model_returns_clean:
  "\<not> isl (fst (load_svm_model E filename)) \<Longrightarrow> live (snd (load_svm_model E filename)) = []"
  by (simp add: load_svm_model_def Let_def world_simps split: sum.splits option.splits)

lemma save_svm_model_returns_clean:
  "\<not> isl (fst (save_svm_model E filename param_hash model_hash)) \<Longrightarrow>
   live (snd (save_svm_model E filename param_hash model_hash)) = []"
proof -
  assume ret: "\<not> isl (fst (save_svm_model E filename param_hash model_hash))"
  obtain r w2 where dec: "decode_model E param_hash model_hash start = (r, w2)"
    by (cases "decode_model E param_hash model_hash start")
  show ?thesis
  proof (cases r)
    case (Inl e)
    then show ?thesis using ret dec by (simp add: save_svm_model_def)
  next
    case m: (Inr m)
    have w2: "live w2 = [ModelStruct, ParamStruct]"
      using decode_model_world(2) [of E param_hash model_hash start m] dec m
      by (simp add: world_simps)
    show ?thesis
      using ret dec m w2
      by (simp add: save_svm_model_def Let_def world_simps split: sum.splits)
  qed
qed

lemma predict_calls:
  assumes "rb_hash_to_svm_parameter E param_hash = Inr prm"
    and "rb_hash_to_svm_model E model_hash = Inr model"
  shows "\<forall>c\<in>set (calls (snd (predict E x_val param_hash model_hash))).
    call_model c = Some (model\<lparr>param := prm\<rparr>)"
proof (cases "to_DFloat E x_val")
  case (Inl e)
  then show ?thesis by (simp add: predict_def world_simps)
next
  case (Inr x1)
  show ?thesis
  proof (cases "dims E (to_contiguous E x1)")
    case (Inl e)
    then show ?thesis
      using Inr by (simp add: predict_def Let_def decode_model_ok [OF assms] world_simps)
  next
    case d: (Inr d)
    obtain n_samples n_features where nd: "d = (n_samples, n_features)" by (cases d)
    show ?thesis
    proof (cases "put_sentinel (ALLOC_N_nodes E (c_int (n_features + 1))) n_features")
      case (Inl e)
      then show ?thesis
        using Inr d nd by (simp add: predict_def Let_def decode_model_ok [OF assms] world_simps)
    next
      case b: (Inr b)
      show ?thesis
        using Inr d nd b
          predict_rows_world [of E "model\<lparr>param := prm\<rparr>"
            "na_get_pointer_for_read E (to_contiguous E x1)"
            n_features "[0..n_samples - 1]" b
            "na_data (rb_narray_new E 1 [size_t_of_int n_samples])"
            "ALLOC XNodes (ALLOC ModelStruct (ALLOC ParamStruct start))"]
        by (simp add: predict_def Let_def decode_model_ok [OF assms] finish_world world_simps)
    qed
  qed
qed

lemma decision_function_calls:
  assumes "rb_hash_to_svm_parameter E param_hash = Inr prm"
    and "rb_hash_to_svm_model E model_hash = Inr model"
  shows "\<forall>c\<in>set (calls (snd (decision_function E x_val param_hash model_hash))).
    call_model c = Some (model\<lparr>param := prm\<rparr>)"
proof (cases "to_DFloat E x_val")
  case (Inl e)
  then show ?thesis by (simp add: decision_function_def world_simps)
next
  case (Inr x1)
  show ?thesis
  proof (cases "dims E (to_contiguous E x1)")
    case (Inl e)
    then show ?thesis
      using Inr
      by (simp add: decision_function_def Let_def decode_model_ok [OF assms] world_simps)
  next
    case d: (Inr d)
    obtain n_samples n_features where nd: "d = (n_samples, n_features)" by (cases d)
    show ?thesis
      using Inr d nd
        decision_values_world [of E "model\<lparr>param := prm\<rparr>"
          "na_get_pointer_for_read E (to_contiguous E x1)" n_samples n_features
          "na_data (decision_output E (model\<lparr>param := prm\<rparr>) n_samples)"
          "ALLOC ModelStruct (ALLOC ParamStruct start)"]
      by (simp add: decision_function_def Let_def decode_model_ok [OF assms] finish_world
          world_simps)
  qed
qed

lemma predict_proba_calls:
  assumes "rb_hash_to_svm_parameter E param_hash = Inr prm"
    and "rb_hash_to_svm_model E model_hash = Inr model"
  shows "\<forall>c\<in>set (calls (snd (predict_proba E x_val param_hash model_hash))).
    call_model c = Some (model\<lparr>param := prm\<rparr>)"
  using proba_matrix_world [of E x_val "model\<lparr>param := prm\<rparr>"
      "ALLOC ModelStruct (ALLOC ParamStruct start)"]
  by (simp add: predict_proba_def decode_model_ok [OF assms] finish_world world_simps)

lemma save_svm_model_calls:
  assumes "rb_hash_to_svm_parameter E param_hash = Inr prm"
    and "rb_hash_to_svm_model E model_hash = Inr model"
  shows "\<forall>c\<in>set (calls (snd (save_svm_model E filename param_hash model_hash))).
    call_model c = Some (model\<lparr>param := prm\<rparr>)"
  by (simp add: save_svm_model_def Let_def decode_model_ok [OF assms] world_simps
      split: sum.splits)

lemma build_problem_result:
  fixes n nf :: nat
  assumes "length x_pt = n * nf" "n * nf < 2 ^ 31" "nf + 1 < 2 ^ 31" "n \<le> length y_pt"
  shows "build_problem E x_pt y_pt (int n) (int nf) w =
    (Inr \<lparr>prob_l = int n, prob_y = take n y_pt,
          prob_x = map (\<lambda>i. toSparseSample (dense_row x_pt nf i)) [0..<n]\<rparr>,
     w\<lparr>live := rev (map NodeRow [0..int n - 1])
                @ ProblemY # ProblemX # ProblemStruct # live w\<rparr>)"
proof -
  have rows: "\<forall>i\<in>set [0..<n]. i < n" by simp
  have "map (\<lambda>i. NodeRow (int i)) [0..<n] = map NodeRow [0..int n - 1]"
    by (simp add: upto_as_map)
  then show ?thesis
    unfolding build_problem_def upto_as_map
    by (simp add: problem_rows_result [OF assms rows] upt_nth_map [OF assms(4)] ALLOC_def)
qed

lemma train_result:
  fixes n nf :: nat
  assumes "to_DFloat E x_val = Inr x1" and "to_DFloat E y_val = Inr y1"
    and "dense_matrix E (to_contiguous E x1) n nf"
    and "rb_hash_to_svm_parameter E param_hash = Inr prm"
    and "n \<le> length (na_get_pointer_for_read E (to_contiguous E y1))"
    and "problem = \<lparr>prob_l = int n,
           prob_y = take n (na_get_pointer_for_read E (to_contiguous E y1)),
           prob_x = map (\<lambda>i. toSparseSample
                      (dense_row (na_get_pointer_for_read E (to_contiguous E x1)) nf i))
                    [0..<n]\<rparr>"
  shows "train E x_val y_val param_hash =
    (Inr (svm_model_to_rb_hash E (svm_train E problem prm)),
     \<lparr>live = [],
      calls = [SetPrintStringFunction, Train problem prm, FreeAndDestroyModel]\<rparr>)"
proof -
  define x_pt where "x_pt = na_get_pointer_for_read E (to_contiguous E x1)"
  define y_pt where "y_pt = na_get_pointer_for_read E (to_contiguous E y1)"
  have len: "length x_pt = n * nf" and fits: "n * nf < 2 ^ 31" and nf: "nf + 1 < 2 ^ 31"
    using assms(3) by (simp_all add: dense_matrix_def x_pt_def)
  have d: "dims E (to_contiguous E x1) = Inr (int n, int nf)" by (rule dims_ok [OF assms(3)])
  have le: "n \<le> length y_pt" using assms(5) by (simp add: y_pt_def)
  define w2 :: "'c world" where
    "w2 = \<lparr>live = rev (map NodeRow [0..int n - 1])
                @ ProblemY # ProblemX # ProblemStruct # [ParamStruct], calls = []\<rparr>"
  have B: "build_problem E x_pt y_pt (int n) (int nf) (ALLOC ParamStruct start) =
    (Inr problem, w2)"
    unfolding w2_def assms(6) x_pt_def [symmetric] y_pt_def [symmetric]
    using build_problem_result [OF len fits nf le, of E "ALLOC ParamStruct start"]
    by (simp add: ALLOC_def start_def)
  have w2: "live w2 = rev (map NodeRow [0..int n - 1])
      @ ProblemY # ProblemX # ProblemStruct # [ParamStruct]" "calls w2 = []"
    by (simp_all add: w2_def)
  define w5 where "w5 = xfree EngineModel (invoke FreeAndDestroyModel (ALLOC EngineModel
      (invoke (Train problem prm) (invoke SetPrintStringFunction w2))))"
  have "live w5 = rev (map NodeRow [0..int n - 1])
      @ ProblemY # ProblemX # ProblemStruct # [ParamStruct]"
    using w2 by (simp add: w5_def world_simps)
  then have rel: "live (release_problem (int n) w5) = [ParamStruct]"
    by (intro release_problem_world(1)) simp_all
  have c: "calls (release_problem (int n) w5) =
    [SetPrintStringFunction, Train problem prm, FreeAndDestroyModel]"
    using w2 by (simp add: release_problem_world(2) [OF _ _] free_rows_calls
        release_problem_def w5_def world_simps)
  have "train E x_val y_val param_hash =
    (Inr (svm_model_to_rb_hash E (svm_train E problem prm)),
     xfree_svm_parameter (release_problem (int n) w5))"
    by (simp add: train_def assms(1,2,4) Let_def d x_pt_def [symmetric] y_pt_def [symmetric]
        B w5_def)
  moreover have "xfree_svm_parameter (release_problem (int n) w5) =
    \<lparr>live = [], calls = [SetPrintStringFunction, Train problem prm, FreeAndDestroyModel]\<rparr>"
    using rel c by (intro world_eqI) (simp_all add: world_simps)
  ultimately show ?thesis by simp
qed

lemma cross_validation_result:
  fixes n nf :: nat
  assumes "NUM2INT E nr_folds = Inr n_folds"
    and "to_DFloat E x_val = Inr x1" and "to_DFloat E y_val = Inr y1"
    and "dense_matrix E (to_contiguous E x1) n nf"
    and "rb_hash_to_svm_parameter E param_hash = Inr prm"
    and "n \<le> length (na_get_pointer_for_read E (to_contiguous E y1))"
    and "cross_validation_contract E"
    and "problem = \<lparr>prob_l = int n,
           prob_y = take n (na_get_pointer_for_read E (to_contiguous E y1)),
           prob_x = map (\<lambda>i. toSparseSample
                      (dense_row (na_get_pointer_for_read E (to_contiguous E x1)) nf i))
                    [0..<n]\<rparr>"
  shows "cross_validation E x_val y_val param_hash nr_folds =
    (Inr \<lparr>na_shape = [n], na_data = svm_cross_validation E problem prm n_folds\<rparr>,
     \<lparr>live = [],
      calls = [SetPrintStringFunction, CrossValidation problem prm n_folds]\<rparr>)"
proof -
  define x_pt where "x_pt = na_get_pointer_for_read E (to_contiguous E x1)"
  define y_pt where "y_pt = na_get_pointer_for_read E (to_contiguous E y1)"
  have len: "length x_pt = n * nf" and fits: "n * nf < 2 ^ 31" and nf: "nf + 1 < 2 ^ 31"
    and n: "n < 2 ^ 31"
    using assms(4) by (simp_all add: dense_matrix_def x_pt_def)
  have d: "dims E (to_contiguous E x1) = Inr (int n, int nf)" by (rule dims_ok [OF assms(4)])
  have le: "n \<le> length y_pt" using assms(6) by (simp add: y_pt_def)
  define w2 :: "'c world" where
    "w2 = \<lparr>live = rev (map NodeRow [0..int n - 1])
                @ ProblemY # ProblemX # ProblemStruct # [ParamStruct], calls = []\<rparr>"
  have B: "build_problem E x_pt y_pt (int n) (int nf) (ALLOC ParamStruct start) =
    (Inr problem, w2)"
    unfolding w2_def assms(8) x_pt_def [symmetric] y_pt_def [symmetric]
    using build_problem_result [OF len fits nf le, of E "ALLOC ParamStruct start"]
    by (simp add: ALLOC_def start_def)
  define t_val :: "'c narray" where "t_val = rb_narray_new E (Suc 0) [size_t_of_int (int n)]"
  define targets where "targets = svm_cross_validation E problem prm n_folds"
  have shp: "na_shape t_val = [n]"
    by (simp add: t_val_def rb_narray_new_def size_t_of_int_of_nat [OF n])
  have "length (na_data t_val) = n"
    by (simp add: t_val_def length_rb_narray_new size_t_of_int_of_nat [OF n])
  moreover have "length targets = n"
    using assms(7) by (simp add: cross_validation_contract_def targets_def assms(8))
  ultimately have st: "store (na_data t_val) 0 targets = Inr targets"
    by (intro store_whole) simp
  define w3 where "w3 = invoke (CrossValidation problem prm n_folds)
      (invoke SetPrintStringFunction w2)"
  have "live w3 = rev (map NodeRow [0..int n - 1])
      @ ProblemY # ProblemX # ProblemStruct # [ParamStruct]"
    by (simp add: w3_def w2_def world_simps)
  then have rel: "live (release_problem (int n) w3) = [ParamStruct]"
    by (intro release_problem_world(1)) simp_all
  have c: "calls (release_problem (int n) w3) =
    [SetPrintStringFunction, CrossValidation problem prm n_folds]"
    by (simp add: free_rows_calls release_problem_def w3_def w2_def world_simps)
  have "cross_validation E x_val y_val param_hash nr_folds =
    (Inr (t_val\<lparr>na_data := targets\<rparr>), xfree_svm_parameter (release_problem (int n) w3))"
    by (simp add: cross_validation_def assms(1,2,3,5) Let_def d x_pt_def [symmetric]
        y_pt_def [symmetric] B t_val_def [symmetric] targets_def [symmetric] st w3_def)
  moreover have "xfree_svm_parameter (release_problem (int n) w3) =
    \<lparr>live = [], calls = [SetPrintStringFunction, CrossValidation problem prm n_folds]\<rparr>"
    using rel c by (intro world_eqI) (simp_all add: world_simps)
  moreover have "t_val\<lparr>na_data := targets\<rparr> = \<lparr>na_shape = [n], na_data = targets\<rparr>"
    using shp by (cases t_val) simp
  ultimately show ?thesis by (simp add: targets_def)
qed

lemma predict_proba_nil_iff:
  assumes "rb_hash_to_svm_parameter E param_hash = Inr prm"
    and "rb_hash_to_svm_model E model_hash = Inr model"
  shows "fst (predict_proba E x_val param_hash model_hash) = Inr None \<longleftrightarrow>
    \<not> proba_supported (model\<lparr>param := prm\<rparr>)"
proof (cases "proba_supported (model\<lparr>param := prm\<rparr>)")
  case False
  then show ?thesis using predict_proba_unsupported [OF assms False, of x_val] by simp
next
  case True
  obtain r w3 where r: "proba_matrix E x_val (model\<lparr>param := prm\<rparr>)
      (ALLOC ModelStruct (ALLOC ParamStruct start)) = (r, w3)"
    by (cases "proba_matrix E x_val (model\<lparr>param := prm\<rparr>)
      (ALLOC ModelStruct (ALLOC ParamStruct start))")
  show ?thesis
    using True r by (cases r) (simp_all add: predict_proba_def decode_model_ok [OF assms])
qed

subsection \<open>The instance of the collaborators\<close>

lemma demo_accepts_X:
  "to_DFloat demo demo_X = Inr demo_X" "to_contiguous demo demo_X = demo_X"
  "dense_matrix demo demo_X 2 2" "na_get_pointer_for_read demo demo_X = [5, 6, 7, 8]"
  by (simp_all add: demo_def demo_X_def to_DFloat_def to_contiguous_def dense_matrix_def)

lemma demo_decodes:
  "rb_hash_to_svm_parameter demo (ParamHash prm) = Inr prm"
  "rb_hash_to_svm_model demo (ModelHash model) = Inr model"
  by (simp_all add: demo_def)

lemma demo_contracts:
  "values_contract demo" "probability_contract demo" "cross_validation_contract demo"
  by (simp_all add: demo_def values_contract_def probability_contract_def
      cross_validation_contract_def)

lemma demo_engine:
  "svm_predict demo model x_nodes = value (hd x_nodes)"
  "svm_predict_values demo model x_nodes = replicate (decision_width model) (value (hd x_nodes))"
  "svm_predict_probability demo model x_nodes =
     replicate (nat (nr_class model)) (1 / real_of_int (nr_class model))"
  by (simp_all add: demo_def)

lemma demo_model_fields:
  "nr_class demo_model = 3" "probA demo_model = Some [1, 1, 1]"
  "probB demo_model = Some [0, 0, 0]" "svm_type demo_param = C_SVC"
  "svm_type svr_param = EPSILON_SVR"
  by (simp_all add: demo_model_def demo_param_def svr_param_def)

lemma svm_types_distinct:
  "C_SVC \<noteq> ONE_CLASS" "C_SVC \<noteq> EPSILON_SVR" "C_SVC \<noteq> NU_SVR" "C_SVC \<noteq> NU_SVC"
  "EPSILON_SVR \<noteq> C_SVC" "EPSILON_SVR \<noteq> NU_SVC"
  by (simp_all add: C_SVC_def NU_SVC_def ONE_CLASS_def EPSILON_SVR_def NU_SVR_def)

lemma demo_rows:
  "toSparseSample (dense_row [5, 6, 7, 8 :: real] 2 0) =
      [\<lparr>index = 1, value = 5\<rparr>, \<lparr>index = 2, value = 6\<rparr>, \<lparr>index = - 1, value = 0\<rparr>]"
  "toSparseSample (dense_row [5, 6, 7, 8 :: real] 2 (Suc 0)) =
      [\<lparr>index = 1, value = 7\<rparr>, \<lparr>index = 2, value = 8\<rparr>, \<lparr>index = - 1, value = 0\<rparr>]"
  "[0..<2] = [0, Suc 0]"
  by (simp_all add: toSparseSample_def dense_row_def upto.simps upt_rec)

lemma demo_accepts_y3:
  "to_DFloat demo demo_y3 = Inr demo_y3" "to_contiguous demo demo_y3 = demo_y3"
  "na_get_pointer_for_read demo demo_y3 = [1, 0, 1]" "NA_SHAPE demo demo_y3 = [3]"
  "NA_SHAPE demo demo_X = [2, 2]" "NUM2INT demo (Fixnum k) = Inr k"
  by (simp_all add: demo_def demo_y3_def demo_X_def to_DFloat_def to_contiguous_def)

lemma demo_training:
  "svm_model_to_rb_hash demo model = ModelHash model"
  "svm_train demo problem prm = demo_train problem prm"
  "svm_cross_validation demo problem prm k = replicate (nat (prob_l problem)) 0"
  by (simp_all add: demo_def)

section \<open>The shape of the decision function\<close>

text \<open>
  C1. On a dense matrix of shape \<open>[n_samples, n_features]\<close> and a model whose class
  count keeps \<open>nr_class * (nr_class - 1)\<close> within a C \<^verbatim>\<open>int\<close>, \<^verbatim>\<open>decision_function\<close>
  returns an array of shape \<open>[n_samples]\<close> when the svm type in effect (that of the
  caller's parameters) is \<^verbatim>\<open>ONE_CLASS\<close>, \<^verbatim>\<open>EPSILON_SVR\<close> or \<^verbatim>\<open>NU_SVR\<close>, and of shape
  \<open>[n_samples, nr_class * (nr_class - 1) / 2]\<close> otherwise.
\<close>

theorem decision_function_shape:
  fixes n_samples n_features :: nat
  assumes "to_DFloat E x_val = Inr x1"
    and "dense_matrix E (to_contiguous E x1) n_samples n_features"
    and "rb_hash_to_svm_parameter E param_hash = Inr prm"
    and "rb_hash_to_svm_model E model_hash = Inr model"
    and "values_contract E"
    and "0 \<le> nr_class model" and "nr_class model * (nr_class model - 1) < 2 ^ 31"
    and "n_samples * nat (nr_class model * (nr_class model - 1) div 2) < 2 ^ 31"
  shows "\<exists>y_val. fst (decision_function E x_val param_hash model_hash) = Inr y_val \<and>
    na_shape y_val =
      (if svm_type prm \<in> {ONE_CLASS, EPSILON_SVR, NU_SVR} then [n_samples]
       else [n_samples, nat (nr_class model * (nr_class model - 1) div 2)])"
proof -
  define m where "m = model\<lparr>param := prm\<rparr>"
  have n: "n_samples < 2 ^ 31" using assms(2) by (simp add: dense_matrix_def)
  have w: "decision_width m =
    (if svm_type prm \<in> {ONE_CLASS, EPSILON_SVR, NU_SVR} then 1
     else nat (nr_class model * (nr_class model - 1) div 2))"
    by (simp add: decision_width_def m_def)
  have s: "one_valued m \<longleftrightarrow> svm_type prm \<in> {ONE_CLASS, EPSILON_SVR, NU_SVR}"
    by (simp add: one_valued_def m_def)
  have "n_samples * decision_width m < 2 ^ 31" using n assms(8) by (simp add: w)
  then show ?thesis
    using decision_function_result [OF assms(1-7)] by (simp add: m_def [symmetric] w s)
qed

theorem decision_function_shape_witness:
  "to_DFloat demo demo_X = Inr demo_X
   \<and> dense_matrix demo (to_contiguous demo demo_X) 2 2
   \<and> rb_hash_to_svm_parameter demo (ParamHash demo_param) = Inr demo_param
   \<and> rb_hash_to_svm_parameter demo (ParamHash svr_param) = Inr svr_param
   \<and> rb_hash_to_svm_model demo (ModelHash demo_model) = Inr demo_model
   \<and> values_contract demo
   \<and> 0 \<le> nr_class demo_model \<and> nr_class demo_model * (nr_class demo_model - 1) < 2 ^ 31
   \<and> (2 :: nat) * nat (nr_class demo_model * (nr_class demo_model - 1) div 2) < 2 ^ 31
   \<and> (\<exists>y_val. fst (decision_function demo demo_X (ParamHash demo_param) (ModelHash demo_model))
          = Inr y_val \<and> na_shape y_val = [2, 3])
   \<and> (\<exists>y_val. fst (decision_function demo demo_X (ParamHash svr_param) (ModelHash demo_model))
          = Inr y_val \<and> na_shape y_val = [2])"
  using decision_function_shape [of demo demo_X demo_X 2 2 "ParamHash demo_param" demo_param
      "ModelHash demo_model" demo_model]
    decision_function_shape [of demo demo_X demo_X 2 2 "ParamHash svr_param" svr_param
      "ModelHash demo_model" demo_model]
  by (simp add: demo_accepts_X demo_decodes demo_contracts demo_model_fields svm_types_distinct)

section \<open>The problem handed to the engine\<close>

text \<open>
  C2. For a row-major buffer of \<open>n_samples\<close> rows of \<open>n_features\<close> values and a target
  vector of \<open>n_samples\<close> values, the problem built by \<^verbatim>\<open>train\<close> and \<^verbatim>\<open>cross_validation\<close>
  has, for every row \<open>i\<close>, the nodes \<open>{j + 1, X[i][j]}\<close> for the columns \<open>j\<close> in order,
  followed by the sentinel \<open>{-1, 0}\<close>, and its targets are the values of \<open>y\<close> unchanged.
\<close>

theorem build_problem_rows:
  fixes n_samples n_features :: nat
  assumes "length x_pt = n_samples * n_features" and "length y_pt = n_samples"
    and "n_samples * n_features < 2 ^ 31" and "n_features + 1 < 2 ^ 31"
  shows "fst (build_problem E x_pt y_pt (int n_samples) (int n_features) w) =
    Inr \<lparr>prob_l = int n_samples, prob_y = y_pt,
         prob_x = map (\<lambda>i. map (\<lambda>j. \<lparr>index = int j + 1, value = x_pt ! (i * n_features + j)\<rparr>)
                             [0..<n_features] @ [\<lparr>index = - 1, value = 0\<rparr>]) [0..<n_samples]\<rparr>"
proof -
  have rows: "\<forall>i\<in>set [0..<n_samples]. i < n_samples" by simp
  have le: "n_samples \<le> length y_pt" using assms(2) by simp
  have x: "map (\<lambda>i. toSparseSample (dense_row x_pt n_features i)) [0..<n_samples] =
    map (\<lambda>i. map (\<lambda>j. \<lparr>index = int j + 1, value = x_pt ! (i * n_features + j)\<rparr>)
                 [0..<n_features] @ [\<lparr>index = - 1, value = 0\<rparr>]) [0..<n_samples]"
    by (rule map_cong) (simp_all add: toSparseSample_explicit [OF _ assms(1)])
  have y: "map (\<lambda>i. y_pt ! i) [0..<n_samples] = y_pt"
    using upt_nth_map [OF le] assms(2) by simp
  show ?thesis
    unfolding build_problem_def upto_as_map
    by (simp add: problem_rows_result [OF assms(1,3,4) le rows] x y)
qed

theorem build_problem_rows_witness:
  "length [5, 6, 7 :: real] = 1 * 3 \<and> length [1 :: real] = 1
   \<and> (1 :: nat) * 3 < 2 ^ 31 \<and> (3 :: nat) + 1 < 2 ^ 31
   \<and> fst (build_problem demo [5, 6, 7] [1] 1 3 start) =
       Inr \<lparr>prob_l = 1, prob_y = [1],
            prob_x = [[\<lparr>index = 1, value = 5\<rparr>, \<lparr>index = 2, value = 6\<rparr>,
                       \<lparr>index = 3, value = 7\<rparr>, \<lparr>index = - 1, value = 0\<rparr>]]\<rparr>"
  using build_problem_rows [of "[5, 6, 7 :: real]" 1 3 "[1]" demo start]
  by (simp add: upt_rec)

section \<open>Probabilities\<close>

text \<open>
  C3. On a dense matrix \<^verbatim>\<open>predict_proba\<close> returns a matrix of shape
  \<open>[n_samples, nr_class]\<close> if and only if the svm type in effect is \<^verbatim>\<open>C_SVC\<close> or \<^verbatim>\<open>NU_SVC\<close>
  and the decoded model has both \<^verbatim>\<open>probA\<close> and \<^verbatim>\<open>probB\<close>; in every other case, so whenever
  one of the two arrays is absent, it returns \<^verbatim>\<open>nil\<close> and raises nothing.
\<close>

theorem predict_proba_matrix_or_nil:
  fixes n_samples n_features :: nat
  assumes "to_DFloat E x_val = Inr x1"
    and "dense_matrix E (to_contiguous E x1) n_samples n_features"
    and "rb_hash_to_svm_parameter E param_hash = Inr prm"
    and "rb_hash_to_svm_model E model_hash = Inr model"
    and "probability_contract E"
    and "0 \<le> nr_class model" and "nr_class model < 2 ^ 31"
    and "n_samples * nat (nr_class model) < 2 ^ 31"
  shows "((\<exists>y_val. fst (predict_proba E x_val param_hash model_hash) = Inr (Some y_val)
             \<and> na_shape y_val = [n_samples, nat (nr_class model)])
          \<longleftrightarrow> (svm_type prm = C_SVC \<or> svm_type prm = NU_SVC)
                \<and> probA model \<noteq> None \<and> probB model \<noteq> None)
    \<and> (fst (predict_proba E x_val param_hash model_hash) = Inr None
          \<longleftrightarrow> \<not> ((svm_type prm = C_SVC \<or> svm_type prm = NU_SVC)
                  \<and> probA model \<noteq> None \<and> probB model \<noteq> None))"
proof (cases "proba_supported (model\<lparr>param := prm\<rparr>)")
  case True
  then have "(svm_type prm = C_SVC \<or> svm_type prm = NU_SVC)
      \<and> probA model \<noteq> None \<and> probB model \<noteq> None"
    by (simp add: proba_supported_def)
  then show ?thesis
    using predict_proba_supported [OF assms True] by simp
next
  case False
  then have "\<not> ((svm_type prm = C_SVC \<or> svm_type prm = NU_SVC)
      \<and> probA model \<noteq> None \<and> probB model \<noteq> None)"
    by (simp add: proba_supported_def)
  then show ?thesis
    using predict_proba_unsupported [OF assms(3,4) False, of x_val] by simp
qed

theorem predict_proba_matrix_or_nil_witness:
  "to_DFloat demo demo_X = Inr demo_X
   \<and> dense_matrix demo (to_contiguous demo demo_X) 2 2
   \<and> rb_hash_to_svm_parameter demo (ParamHash demo_param) = Inr demo_param
   \<and> rb_hash_to_svm_model demo (ModelHash demo_model) = Inr demo_model
   \<and> rb_hash_to_svm_model demo (ModelHash (demo_model\<lparr>probA := None\<rparr>))
       = Inr (demo_model\<lparr>probA := None\<rparr>)
   \<and> probability_contract demo
   \<and> 0 \<le> nr_class demo_model \<and> nr_class demo_model < 2 ^ 31
   \<and> (2 :: nat) * nat (nr_class demo_model) < 2 ^ 31
   \<and> (\<exists>y_val. fst (predict_proba demo demo_X (ParamHash demo_param) (ModelHash demo_model))
          = Inr (Some y_val) \<and> na_shape y_val = [2, 3])
   \<and> fst (predict_proba demo demo_X (ParamHash demo_param)
          (ModelHash (demo_model\<lparr>probA := None\<rparr>))) = Inr None"
  using predict_proba_matrix_or_nil [of demo demo_X demo_X 2 2 "ParamHash demo_param" demo_param
      "ModelHash demo_model" demo_model]
    predict_proba_matrix_or_nil [of demo demo_X demo_X 2 2 "ParamHash demo_param" demo_param
      "ModelHash (demo_model\<lparr>probA := None\<rparr>)" "demo_model\<lparr>probA := None\<rparr>"]
  by (simp add: demo_accepts_X demo_decodes demo_contracts demo_model_fields)

section \<open>The caller's parameters replace the model's\<close>

text \<open>
  C4. In \<^verbatim>\<open>predict\<close>, \<^verbatim>\<open>decision_function\<close>, \<^verbatim>\<open>predict_proba\<close> and \<^verbatim>\<open>save_svm_model\<close> every
  call of the engine that takes a model is handed the decoded model with its parameter
  record replaced by the caller's: the assignment precedes the first such call, on every
  path.
\<close>

theorem caller_parameter_overrides_model:
  assumes "rb_hash_to_svm_parameter E param_hash = Inr prm"
    and "rb_hash_to_svm_model E model_hash = Inr model"
  shows "(\<forall>c\<in>set (calls (snd (predict E x_val param_hash model_hash))).
            call_model c = Some (model\<lparr>param := prm\<rparr>))
    \<and> (\<forall>c\<in>set (calls (snd (decision_function E x_val param_hash model_hash))).
            call_model c = Some (model\<lparr>param := prm\<rparr>))
    \<and> (\<forall>c\<in>set (calls (snd (predict_proba E x_val param_hash model_hash))).
            call_model c = Some (model\<lparr>param := prm\<rparr>))
    \<and> (\<forall>c\<in>set (calls (snd (save_svm_model E filename param_hash model_hash))).
            call_model c = Some (model\<lparr>param := prm\<rparr>))"
  using predict_calls [OF assms] decision_function_calls [OF assms]
    predict_proba_calls [OF assms] save_svm_model_calls [OF assms]
  by blast

theorem caller_parameter_overrides_model_witness:
  "rb_hash_to_svm_parameter demo (ParamHash svr_param) = Inr svr_param
   \<and> rb_hash_to_svm_model demo (ModelHash demo_model) = Inr demo_model
   \<and> param demo_model \<noteq> svr_param
   \<and> calls (snd (predict demo demo_X (ParamHash svr_param) (ModelHash demo_model))) \<noteq> []
   \<and> call_model (hd (calls (snd (predict demo demo_X (ParamHash svr_param)
         (ModelHash demo_model))))) = Some (demo_model\<lparr>param := svr_param\<rparr>)
   \<and> calls (snd (save_svm_model demo (RString ''out.model'') (ParamHash svr_param)
         (ModelHash demo_model))) \<noteq> []
   \<and> call_model (hd (calls (snd (save_svm_model demo (RString ''out.model'')
         (ParamHash svr_param) (ModelHash demo_model))))) = Some (demo_model\<lparr>param := svr_param\<rparr>)"
proof -
  have dm: "dense_matrix demo (to_contiguous demo demo_X) 2 2" by (simp add: demo_accepts_X)
  have p: "calls (snd (predict demo demo_X (ParamHash svr_param) (ModelHash demo_model))) \<noteq> []"
    using predict_result [OF demo_accepts_X(1) dm demo_decodes(1) [of svr_param]
        demo_decodes(2) [of demo_model]]
    by (simp add: demo_rows)
  have s: "calls (snd (save_svm_model demo (RString ''out.model'') (ParamHash svr_param)
         (ModelHash demo_model))) \<noteq> []"
    by (simp add: save_svm_model_def decode_model_ok [OF demo_decodes] Let_def world_simps)
      (simp add: demo_def world_simps)
  have ne: "param demo_model \<noteq> svr_param"
    using svm_types_distinct
    by (simp add: svr_param_def demo_param_def demo_model_def C_SVC_def EPSILON_SVR_def)
  show ?thesis
    using p s ne hd_in_set [OF p] hd_in_set [OF s]
      caller_parameter_overrides_model [of demo "ParamHash svr_param" svr_param
        "ModelHash demo_model" demo_model demo_X "RString ''out.model''"]
    by (simp add: demo_decodes)
qed

section \<open>What the dispatch depends on\<close>

text \<open>
  C5, as stated, fails: with the same svm type in the model record, \<^verbatim>\<open>predict_proba\<close>
  returns a matrix or \<^verbatim>\<open>nil\<close> according to the presence of \<^verbatim>\<open>probA\<close>; and with one and the
  same model mapping, whose own type is \<^verbatim>\<open>C_SVC\<close>, \<^verbatim>\<open>decision_function\<close> returns a matrix or a
  flat vector according to the caller's parameters.
\<close>

theorem dispatch_not_by_model_type_alone:
  "svm_type (param (demo_model\<lparr>probA := None\<rparr>)) = svm_type (param demo_model)
   \<and> fst (predict_proba demo demo_X (ParamHash demo_param) (ModelHash demo_model))
       = Inr (Some \<lparr>na_shape = [2, 3], na_data = [1 / 3, 1 / 3, 1 / 3, 1 / 3, 1 / 3, 1 / 3]\<rparr>)
   \<and> fst (predict_proba demo demo_X (ParamHash demo_param)
            (ModelHash (demo_model\<lparr>probA := None\<rparr>))) = Inr None
   \<and> svm_type (param demo_model) = C_SVC
   \<and> fst (decision_function demo demo_X (ParamHash demo_param) (ModelHash demo_model))
       = Inr \<lparr>na_shape = [2, 3], na_data = [5, 5, 5, 7, 7, 7]\<rparr>
   \<and> fst (decision_function demo demo_X (ParamHash svr_param) (ModelHash demo_model))
       = Inr \<lparr>na_shape = [2], na_data = [5, 7]\<rparr>"
proof -
  have dm: "dense_matrix demo (to_contiguous demo demo_X) 2 2" by (simp add: demo_accepts_X)
  have sup: "proba_supported (demo_model\<lparr>param := demo_param\<rparr>)"
    by (simp add: proba_supported_def demo_model_fields)
  have unsup: "\<not> proba_supported (demo_model\<lparr>probA := None, param := demo_param\<rparr>)"
    by (simp add: proba_supported_def)
  have w: "decision_width (demo_model\<lparr>param := demo_param\<rparr>) = 3"
    "\<not> one_valued (demo_model\<lparr>param := demo_param\<rparr>)"
    "decision_width (demo_model\<lparr>param := svr_param\<rparr>) = 1"
    "one_valued (demo_model\<lparr>param := svr_param\<rparr>)"
    using svm_types_distinct
    by (simp_all add: decision_width_def one_valued_def demo_model_fields)
  have a: "fst (predict_proba demo demo_X (ParamHash demo_param) (ModelHash demo_model))
       = Inr (Some \<lparr>na_shape = [2, 3], na_data = [1 / 3, 1 / 3, 1 / 3, 1 / 3, 1 / 3, 1 / 3]\<rparr>)"
    using predict_proba_supported [OF demo_accepts_X(1) dm demo_decodes(1) [of demo_param]
        demo_decodes(2) [of demo_model] demo_contracts(2) _ _ _ sup]
    by (simp add: demo_model_fields demo_accepts_X per_row_values_def demo_rows demo_engine
        numeral_3_eq_3)
  have b: "fst (predict_proba demo demo_X (ParamHash demo_param)
            (ModelHash (demo_model\<lparr>probA := None\<rparr>))) = Inr None"
    using predict_proba_unsupported [OF demo_decodes(1) [of demo_param]
        demo_decodes(2) [of "demo_model\<lparr>probA := None\<rparr>"], of demo_X] unsup by simp
  have c: "fst (decision_function demo demo_X (ParamHash demo_param) (ModelHash demo_model))
       = Inr \<lparr>na_shape = [2, 3], na_data = [5, 5, 5, 7, 7, 7]\<rparr>"
    using decision_function_result [OF demo_accepts_X(1) dm demo_decodes(1) [of demo_param]
        demo_decodes(2) [of demo_model] demo_contracts(1)]
    by (simp add: demo_model_fields demo_accepts_X per_row_values_def demo_rows demo_engine w
        numeral_3_eq_3)
  have d: "fst (decision_function demo demo_X (ParamHash svr_param) (ModelHash demo_model))
       = Inr \<lparr>na_shape = [2], na_data = [5, 7]\<rparr>"
    using decision_function_result [OF demo_accepts_X(1) dm demo_decodes(1) [of svr_param]
        demo_decodes(2) [of demo_model] demo_contracts(1)]
    by (simp add: demo_model_fields demo_accepts_X per_row_values_def demo_rows demo_engine w)
  show ?thesis using a b c d by (simp add: demo_model_fields demo_param_def [symmetric])
qed

text \<open>
  C5, amended. The branch is decided by the svm type of the caller's parameter record,
  which has replaced the model's, and in \<^verbatim>\<open>predict_proba\<close> also by the presence of
  \<^verbatim>\<open>probA\<close> and \<^verbatim>\<open>probB\<close> in the decoded model: \<^verbatim>\<open>predict_proba\<close> returns \<^verbatim>\<open>nil\<close> exactly when
  that type is neither \<^verbatim>\<open>C_SVC\<close> nor \<^verbatim>\<open>NU_SVC\<close> or one of the two arrays is missing, whatever
  \<open>x\<close> is, and \<^verbatim>\<open>decision_function\<close> returns a flat vector exactly when that type is
  \<^verbatim>\<open>ONE_CLASS\<close>, \<^verbatim>\<open>EPSILON_SVR\<close> or \<^verbatim>\<open>NU_SVR\<close>.
\<close>

theorem dispatch_by_effective_type:
  fixes n_samples n_features :: nat
  assumes "rb_hash_to_svm_parameter E param_hash = Inr prm"
    and "rb_hash_to_svm_model E model_hash = Inr model"
    and "to_DFloat E x_val = Inr x1"
    and "dense_matrix E (to_contiguous E x1) n_samples n_features"
    and "values_contract E"
    and "0 \<le> nr_class model" and "nr_class model * (nr_class model - 1) < 2 ^ 31"
    and "n_samples * nat (nr_class model * (nr_class model - 1) div 2) < 2 ^ 31"
  shows "(fst (predict_proba E x_any param_hash model_hash) = Inr None) =
      (\<not> ((svm_type prm = C_SVC \<or> svm_type prm = NU_SVC)
          \<and> probA model \<noteq> None \<and> probB model \<noteq> None))
    \<and> (\<exists>y_val. fst (decision_function E x_val param_hash model_hash) = Inr y_val
          \<and> (length (na_shape y_val) = 1) =
              (svm_type prm \<in> {ONE_CLASS, EPSILON_SVR, NU_SVR}))"
proof -
  define m where "m = model\<lparr>param := prm\<rparr>"
  have n: "n_samples < 2 ^ 31" using assms(4) by (simp add: dense_matrix_def)
  have w: "decision_width m =
    (if svm_type prm \<in> {ONE_CLASS, EPSILON_SVR, NU_SVR} then 1
     else nat (nr_class model * (nr_class model - 1) div 2))"
    by (simp add: decision_width_def m_def)
  have s: "one_valued m \<longleftrightarrow> svm_type prm \<in> {ONE_CLASS, EPSILON_SVR, NU_SVR}"
    by (simp add: one_valued_def m_def)
  have "n_samples * decision_width m < 2 ^ 31" using n assms(8) by (simp add: w)
  then have "\<exists>y_val. fst (decision_function E x_val param_hash model_hash) = Inr y_val
          \<and> (length (na_shape y_val) = 1) =
              (svm_type prm \<in> {ONE_CLASS, EPSILON_SVR, NU_SVR})"
    using decision_function_result [OF assms(3,4,1,2,5,6,7)]
    by (simp add: m_def [symmetric] s)
  moreover have "(fst (predict_proba E x_any param_hash model_hash) = Inr None) =
      (\<not> ((svm_type prm = C_SVC \<or> svm_type prm = NU_SVC)
          \<and> probA model \<noteq> None \<and> probB model \<noteq> None))"
    using predict_proba_nil_iff [OF assms(1,2), of x_any] by (simp add: proba_supported_def)
  ultimately show ?thesis by blast
qed

theorem dispatch_by_effective_type_witness:
  "rb_hash_to_svm_parameter demo (ParamHash svr_param) = Inr svr_param
   \<and> rb_hash_to_svm_model demo (ModelHash demo_model) = Inr demo_model
   \<and> to_DFloat demo demo_X = Inr demo_X
   \<and> dense_matrix demo (to_contiguous demo demo_X) 2 2
   \<and> values_contract demo
   \<and> 0 \<le> nr_class demo_model \<and> nr_class demo_model * (nr_class demo_model - 1) < 2 ^ 31
   \<and> (2 :: nat) * nat (nr_class demo_model * (nr_class demo_model - 1) div 2) < 2 ^ 31
   \<and> svm_type (param demo_model) = C_SVC \<and> svm_type svr_param = EPSILON_SVR
   \<and> fst (predict_proba demo (RString ''abc'') (ParamHash svr_param) (ModelHash demo_model))
       = Inr None
   \<and> (\<exists>y_val. fst (decision_function demo demo_X (ParamHash svr_param) (ModelHash demo_model))
          = Inr y_val \<and> length (na_shape y_val) = 1)"
  using dispatch_by_effective_type [of demo "ParamHash svr_param" svr_param
      "ModelHash demo_model" demo_model demo_X demo_X 2 2 "RString ''abc''"]
  by (simp add: demo_accepts_X demo_decodes demo_contracts demo_model_fields svm_types_distinct
      demo_param_def [symmetric])

section \<open>Training input of inconsistent shape\<close>

text \<open>
  C6, as stated, fails: no function of \<^verbatim>\<open>libsvm.c\<close> compares the length of \<open>y\<close> with the
  number of rows of \<open>X\<close>. With two rows and three targets \<^verbatim>\<open>train\<close> and
  \<^verbatim>\<open>cross_validation\<close> call the engine on the first two targets and return its result.
\<close>

theorem train_accepts_longer_y:
  "NA_SHAPE demo demo_X = [2, 2] \<and> NA_SHAPE demo demo_y3 = [3]
   \<and> train demo demo_X demo_y3 (ParamHash demo_param) =
       (Inr (ModelHash (demo_train demo_problem demo_param)),
        \<lparr>live = [],
         calls = [SetPrintStringFunction, Train demo_problem demo_param, FreeAndDestroyModel]\<rparr>)
   \<and> cross_validation demo demo_X demo_y3 (ParamHash demo_param) (Fixnum 2) =
       (Inr \<lparr>na_shape = [2], na_data = [0, 0]\<rparr>,
        \<lparr>live = [],
         calls = [SetPrintStringFunction, CrossValidation demo_problem demo_param 2]\<rparr>)"
proof -
  have p: "demo_problem = \<lparr>prob_l = int 2,
           prob_y = take 2 (na_get_pointer_for_read demo (to_contiguous demo demo_y3)),
           prob_x = map (\<lambda>i. toSparseSample
                      (dense_row (na_get_pointer_for_read demo (to_contiguous demo demo_X)) 2 i))
                    [0..<2]\<rparr>"
    by (simp add: demo_problem_def demo_accepts_X demo_accepts_y3 demo_rows)
  have le: "2 \<le> length (na_get_pointer_for_read demo (to_contiguous demo demo_y3))"
    by (simp add: demo_accepts_y3)
  have dm: "dense_matrix demo (to_contiguous demo demo_X) 2 2"
    by (simp add: demo_accepts_X)
  show ?thesis
    using train_result [OF demo_accepts_X(1) demo_accepts_y3(1) dm demo_decodes(1) le p]
      cross_validation_result [OF demo_accepts_y3(6) demo_accepts_X(1) demo_accepts_y3(1) dm
        demo_decodes(1) le demo_contracts(3) p]
    by (simp add: demo_accepts_y3 demo_training) (simp add: demo_problem_def numeral_2_eq_2)
qed

text \<open>
  C6, amended. Whenever \<open>X\<close> is a dense matrix with \<open>n_samples\<close> rows and \<open>y\<close> holds at
  least \<open>n_samples\<close> values, \<^verbatim>\<open>train\<close> and \<^verbatim>\<open>cross_validation\<close> build the problem from the
  first \<open>n_samples\<close> values of \<open>y\<close>, call the engine on it and return its result; no
  error is raised for a longer \<open>y\<close>.
\<close>

theorem training_without_shape_check:
  fixes n_samples n_features :: nat
  assumes "to_DFloat E x_val = Inr x1" and "to_DFloat E y_val = Inr y1"
    and "dense_matrix E (to_contiguous E x1) n_samples n_features"
    and "rb_hash_to_svm_parameter E param_hash = Inr prm"
    and "n_samples \<le> length (na_get_pointer_for_read E (to_contiguous E y1))"
    and "NUM2INT E nr_folds = Inr n_folds" and "cross_validation_contract E"
    and "problem = \<lparr>prob_l = int n_samples,
           prob_y = take n_samples (na_get_pointer_for_read E (to_contiguous E y1)),
           prob_x = map (\<lambda>i. toSparseSample
                      (dense_row (na_get_pointer_for_read E (to_contiguous E x1)) n_features i))
                    [0..<n_samples]\<rparr>"
  shows "train E x_val y_val param_hash =
      (Inr (svm_model_to_rb_hash E (svm_train E problem prm)),
       \<lparr>live = [], calls = [SetPrintStringFunction, Train problem prm, FreeAndDestroyModel]\<rparr>)
    \<and> cross_validation E x_val y_val param_hash nr_folds =
      (Inr \<lparr>na_shape = [n_samples], na_data = svm_cross_validation E problem prm n_folds\<rparr>,
       \<lparr>live = [], calls = [SetPrintStringFunction, CrossValidation problem prm n_folds]\<rparr>)"
  using train_result [OF assms(1,2,3,4,5,8)]
    cross_validation_result [OF assms(6,1,2,3,4,5,7,8)]
  by simp

theorem training_without_shape_check_witness:
  "to_DFloat demo demo_X = Inr demo_X \<and> to_DFloat demo demo_y3 = Inr demo_y3
   \<and> dense_matrix demo (to_contiguous demo demo_X) 2 2
   \<and> rb_hash_to_svm_parameter demo (ParamHash demo_param) = Inr demo_param
   \<and> (2 :: nat) \<le> length (na_get_pointer_for_read demo (to_contiguous demo demo_y3))
   \<and> NUM2INT demo (Fixnum 2) = Inr 2 \<and> cross_validation_contract demo
   \<and> fst (train demo demo_X demo_y3 (ParamHash demo_param)) =
       Inr (svm_model_to_rb_hash demo (svm_train demo demo_problem demo_param))
   \<and> fst (cross_validation demo demo_X demo_y3 (ParamHash demo_param) (Fixnum 2)) =
       Inr \<lparr>na_shape = [2], na_data = svm_cross_validation demo demo_problem demo_param 2\<rparr>"
proof -
  have p: "demo_problem = \<lparr>prob_l = int 2,
           prob_y = take 2 (na_get_pointer_for_read demo (to_contiguous demo demo_y3)),
           prob_x = map (\<lambda>i. toSparseSample
                      (dense_row (na_get_pointer_for_read demo (to_contiguous demo demo_X)) 2 i))
                    [0..<2]\<rparr>"
    by (simp add: demo_problem_def demo_accepts_X demo_accepts_y3 demo_rows)
  show ?thesis
    using training_without_shape_check [of demo demo_X demo_X demo_y3 demo_y3 2 2
        "ParamHash demo_param" demo_param "Fixnum 2" 2 demo_problem, OF _ _ _ _ _ _ _ p]
    by (simp add: demo_accepts_X demo_accepts_y3 demo_decodes demo_contracts)
qed

section \<open>Loading a model\<close>

text \<open>
  C7. For a path string, \<^verbatim>\<open>load_svm_model\<close> calls the engine's load routine once; when
  that yields no model both slots of the result are \<^verbatim>\<open>nil\<close> and nothing is raised, and when
  it yields a model both slots are filled from it and the model is freed before the
  call returns.
\<close>

theorem load_svm_model_slots:
  assumes "StringValuePtr E filename = Inr path"
  shows "load_svm_model E filename =
    (case svm_load_model E path of
       None \<Rightarrow> (Inr (None, None), \<lparr>live = [], calls = [LoadModel path]\<rparr>)
     | Some model \<Rightarrow>
         (Inr (Some (svm_parameter_to_rb_hash E (param model)),
               Some (svm_model_to_rb_hash E model)),
          \<lparr>live = [], calls = [LoadModel path, FreeAndDestroyModel]\<rparr>))"
  using assms
  by (simp add: load_svm_model_def Let_def invoke_def ALLOC_def xfree_def start_def
      split: option.split)

theorem load_svm_model_slots_witness:
  "StringValuePtr demo (RString ''/nonexistent/path'') = Inr ''/nonexistent/path''
   \<and> StringValuePtr demo (RString ''svm.model'') = Inr ''svm.model''
   \<and> load_svm_model demo (RString ''/nonexistent/path'')
       = (Inr (None, None), \<lparr>live = [], calls = [LoadModel ''/nonexistent/path'']\<rparr>)
   \<and> load_svm_model demo (RString ''svm.model'')
       = (Inr (Some (ParamHash demo_param), Some (ModelHash demo_model)),
          \<lparr>live = [], calls = [LoadModel ''svm.model'', FreeAndDestroyModel]\<rparr>)"
  using load_svm_model_slots [of demo "RString ''/nonexistent/path''" "''/nonexistent/path''"]
    load_svm_model_slots [of demo "RString ''svm.model''" "''svm.model''"]
  by (simp add: demo_def demo_param_def)

section \<open>One node buffer for the whole batch\<close>

text \<open>
  C8. In \<^verbatim>\<open>predict\<close> and \<^verbatim>\<open>decision_function\<close> the node array handed to the engine for
  row \<open>i\<close> is the fresh sparse conversion of row \<open>i\<close>, although one buffer is refilled
  in place, and the output is the one computed row by row from fresh conversions.
\<close>

theorem batch_buffer_reuse:
  fixes n_samples n_features :: nat
  assumes "to_DFloat E x_val = Inr x1"
    and "dense_matrix E (to_contiguous E x1) n_samples n_features"
    and "rb_hash_to_svm_parameter E param_hash = Inr prm"
    and "rb_hash_to_svm_model E model_hash = Inr model"
    and "values_contract E"
    and "0 \<le> nr_class model" and "nr_class model * (nr_class model - 1) < 2 ^ 31"
    and "n_samples * decision_width (model\<lparr>param := prm\<rparr>) < 2 ^ 31"
    and "x_pt = na_get_pointer_for_read E (to_contiguous E x1)"
  shows "predict E x_val param_hash model_hash =
      (Inr \<lparr>na_shape = [n_samples],
            na_data = per_row_labels E (model\<lparr>param := prm\<rparr>) x_pt n_samples n_features\<rparr>,
       \<lparr>live = [],
        calls = map (\<lambda>i. Predict (model\<lparr>param := prm\<rparr>)
                           (toSparseSample (dense_row x_pt n_features i))) [0..<n_samples]\<rparr>)
    \<and> decision_function E x_val param_hash model_hash =
      (Inr \<lparr>na_shape = (if one_valued (model\<lparr>param := prm\<rparr>) then [n_samples]
                        else [n_samples, decision_width (model\<lparr>param := prm\<rparr>)]),
            na_data = per_row_values (svm_predict_values E) (model\<lparr>param := prm\<rparr>) x_pt
                        n_samples n_features\<rparr>,
       \<lparr>live = [],
        calls = map (\<lambda>i. PredictValues (model\<lparr>param := prm\<rparr>)
                           (toSparseSample (dense_row x_pt n_features i))) [0..<n_samples]\<rparr>)"
  unfolding assms(9)
  using predict_result [OF assms(1-4)] decision_function_result [OF assms(1-8)] by simp

theorem batch_buffer_reuse_witness:
  "to_DFloat demo demo_X = Inr demo_X
   \<and> dense_matrix demo (to_contiguous demo demo_X) 2 2
   \<and> rb_hash_to_svm_parameter demo (ParamHash demo_param) = Inr demo_param
   \<and> rb_hash_to_svm_model demo (ModelHash demo_model) = Inr demo_model
   \<and> values_contract demo
   \<and> 0 \<le> nr_class demo_model \<and> nr_class demo_model * (nr_class demo_model - 1) < 2 ^ 31
   \<and> (2 :: nat) * decision_width (demo_model\<lparr>param := demo_param\<rparr>) < 2 ^ 31
   \<and> [5, 6, 7, 8] = na_get_pointer_for_read demo (to_contiguous demo demo_X)
   \<and> predict demo demo_X (ParamHash demo_param) (ModelHash demo_model) =
       (Inr \<lparr>na_shape = [2], na_data = [5, 7]\<rparr>,
        \<lparr>live = [],
         calls = [Predict demo_model
                    [\<lparr>index = 1, value = 5\<rparr>, \<lparr>index = 2, value = 6\<rparr>, \<lparr>index = - 1, value = 0\<rparr>],
                  Predict demo_model
                    [\<lparr>index = 1, value = 7\<rparr>, \<lparr>index = 2, value = 8\<rparr>, \<lparr>index = - 1, value = 0\<rparr>]]\<rparr>)
   \<and> decision_function demo demo_X (ParamHash demo_param) (ModelHash demo_model) =
       (Inr \<lparr>na_shape = [2, 3], na_data = [5, 5, 5, 7, 7, 7]\<rparr>,
        \<lparr>live = [],
         calls = [PredictValues demo_model
                    [\<lparr>index = 1, value = 5\<rparr>, \<lparr>index = 2, value = 6\<rparr>, \<lparr>index = - 1, value = 0\<rparr>],
                  PredictValues demo_model
                    [\<lparr>index = 1, value = 7\<rparr>, \<lparr>index = 2, value = 8\<rparr>, \<lparr>index = - 1, value = 0\<rparr>]]\<rparr>)"
proof -
  have m: "demo_model\<lparr>param := demo_param\<rparr> = demo_model"
    by (simp add: demo_param_def)
  have w: "decision_width demo_model = 3" "\<not> one_valued demo_model"
    using demo_model_fields(1,4) svm_types_distinct
    by (simp_all add: decision_width_def one_valued_def demo_param_def)
  have rows: "toSparseSample (dense_row [5, 6, 7, 8 :: real] 2 0) =
      [\<lparr>index = 1, value = 5\<rparr>, \<lparr>index = 2, value = 6\<rparr>, \<lparr>index = - 1, value = 0\<rparr>]"
    "toSparseSample (dense_row [5, 6, 7, 8 :: real] 2 (Suc 0)) =
      [\<lparr>index = 1, value = 7\<rparr>, \<lparr>index = 2, value = 8\<rparr>, \<lparr>index = - 1, value = 0\<rparr>]"
    by (simp_all add: toSparseSample_def dense_row_def upto.simps)
  have upt: "[0..<2] = [0, Suc 0]" by (simp add: upt_rec)
  show ?thesis
    using batch_buffer_reuse [of demo demo_X demo_X 2 2 "ParamHash demo_param" demo_param
      "ModelHash demo_model" demo_model "[5, 6, 7, 8]"]
    by (simp add: demo_accepts_X demo_decodes demo_contracts demo_model_fields m w
        per_row_labels_def per_row_values_def upt rows demo_engine numeral_3_eq_3)
qed

section \<open>Native blocks at the end of a call\<close>

text \<open>
  C9, as stated, fails: a call left by a Ruby exception keeps what it had allocated.
  \<^verbatim>\<open>predict_proba\<close> decodes both structures before it casts \<open>x\<close>, and \<^verbatim>\<open>save_svm_model\<close>
  before it reads the file name; when the cast or \<^verbatim>\<open>StringValuePtr\<close> raises, both
  structures stay allocated.
\<close>

theorem raising_call_keeps_blocks:
  "run demo (OpPredictProba (RString ''abc'') (ParamHash demo_param) (ModelHash demo_model))
     = (False, [ModelStruct, ParamStruct])
   \<and> run demo (OpSave (Fixnum 3) (ParamHash demo_param) (ModelHash demo_model))
     = (False, [ModelStruct, ParamStruct])"
proof -
  have "proba_supported (demo_model\<lparr>param := demo_param\<rparr>)"
    by (simp add: proba_supported_def demo_model_fields)
  moreover have "to_DFloat demo (RString ''abc'') = Inl CastError"
    by (simp add: to_DFloat_def demo_def)
  moreover have "StringValuePtr demo (Fixnum 3) = Inl TypeError"
    by (simp add: demo_def)
  ultimately show ?thesis
    by (simp add: outcome_def predict_proba_def save_svm_model_def proba_matrix_def
        decode_model_ok [OF demo_decodes] world_simps)
qed

text \<open>
  C9, amended. Every one of the seven operations that returns has released every native
  block it allocated.
\<close>

theorem returning_call_releases_all:
  "fst (run E opn) \<Longrightarrow> snd (run E opn) = []"
  by (cases opn)
    (simp_all add: outcome_def train_returns_clean cross_validation_returns_clean
      predict_returns_clean decision_function_returns_clean predict_proba_returns_clean
      load_svm_model_returns_clean save_svm_model_returns_clean)

theorem returning_call_releases_all_witness:
  "fst (run demo (OpTrain demo_X demo_y3 (ParamHash demo_param)))
   \<and> snd (run demo (OpTrain demo_X demo_y3 (ParamHash demo_param))) = []
   \<and> fst (run demo (OpCrossValidation demo_X demo_y3 (ParamHash demo_param) (Fixnum 2)))
   \<and> snd (run demo (OpCrossValidation demo_X demo_y3 (ParamHash demo_param) (Fixnum 2))) = []
   \<and> fst (run demo (OpPredict demo_X (ParamHash demo_param) (ModelHash demo_model)))
   \<and> snd (run demo (OpPredict demo_X (ParamHash demo_param) (ModelHash demo_model))) = []
   \<and> fst (run demo (OpDecisionFunction demo_X (ParamHash demo_param) (ModelHash demo_model)))
   \<and> snd (run demo (OpDecisionFunction demo_X (ParamHash demo_param) (ModelHash demo_model)))
       = []
   \<and> fst (run demo (OpPredictProba demo_X (ParamHash demo_param) (ModelHash demo_model)))
   \<and> snd (run demo (OpPredictProba demo_X (ParamHash demo_param) (ModelHash demo_model))) = []
   \<and> fst (run demo (OpLoad (RString ''svm.model'')))
   \<and> snd (run demo (OpLoad (RString ''svm.model''))) = []
   \<and> fst (run demo (OpSave (RString ''out.model'') (ParamHash demo_param)
         (ModelHash demo_model)))
   \<and> snd (run demo (OpSave (RString ''out.model'') (ParamHash demo_param)
         (ModelHash demo_model))) = []"
proof -
  have dm: "dense_matrix demo (to_contiguous demo demo_X) 2 2" by (simp add: demo_accepts_X)
  have le: "2 \<le> length (na_get_pointer_for_read demo (to_contiguous demo demo_y3))"
    by (simp add: demo_accepts_y3)
  have sup: "proba_supported (demo_model\<lparr>param := demo_param\<rparr>)"
    by (simp add: proba_supported_def demo_model_fields)
  have str: "StringValuePtr demo (RString path) = Inr path" for path
    by (simp add: demo_def)
  have t: "fst (run demo (OpTrain demo_X demo_y3 (ParamHash demo_param)))"
    using train_result [OF demo_accepts_X(1) demo_accepts_y3(1) dm
        demo_decodes(1) [of demo_param] le refl]
    by (simp add: outcome_def)
  have c: "fst (run demo (OpCrossValidation demo_X demo_y3 (ParamHash demo_param) (Fixnum 2)))"
    using cross_validation_result [OF demo_accepts_y3(6) demo_accepts_X(1) demo_accepts_y3(1) dm
        demo_decodes(1) [of demo_param] le demo_contracts(3) refl]
    by (simp add: outcome_def)
  have p: "fst (run demo (OpPredict demo_X (ParamHash demo_param) (ModelHash demo_model)))"
    using predict_result [OF demo_accepts_X(1) dm demo_decodes(1) [of demo_param]
        demo_decodes(2) [of demo_model]]
    by (simp add: outcome_def)
  have d: "fst (run demo (OpDecisionFunction demo_X (ParamHash demo_param)
      (ModelHash demo_model)))"
    using decision_function_result [OF demo_accepts_X(1) dm demo_decodes(1) [of demo_param]
        demo_decodes(2) [of demo_model] demo_contracts(1)]
    by (simp add: outcome_def demo_model_fields decision_width_def svm_types_distinct)
  have q: "fst (run demo (OpPredictProba demo_X (ParamHash demo_param) (ModelHash demo_model)))"
    using predict_proba_supported [OF demo_accepts_X(1) dm demo_decodes(1) [of demo_param]
        demo_decodes(2) [of demo_model] demo_contracts(2) _ _ _ sup]
    by (simp add: outcome_def demo_model_fields)
  have l: "fst (run demo (OpLoad (RString ''svm.model'')))"
    by (simp add: outcome_def load_svm_model_def str Let_def split: option.split)
  have s: "fst (run demo (OpSave (RString ''out.model'') (ParamHash demo_param)
      (ModelHash demo_model)))"
    by (simp add: outcome_def save_svm_model_def decode_model_ok [OF demo_decodes] str Let_def)
  show ?thesis
    using t c p d q l s
      returning_call_releases_all [of demo "OpTrain demo_X demo_y3 (ParamHash demo_param)"]
      returning_call_releases_all [of demo
        "OpCrossValidation demo_X demo_y3 (ParamHash demo_param) (Fixnum 2)"]
      returning_call_releases_all [of demo
        "OpPredict demo_X (ParamHash demo_param) (ModelHash demo_model)"]
      returning_call_releases_all [of demo
        "OpDecisionFunction demo_X (ParamHash demo_param) (ModelHash demo_model)"]
      returning_call_releases_all [of demo
        "OpPredictProba demo_X (ParamHash demo_param) (ModelHash demo_model)"]
      returning_call_releases_all [of demo "OpLoad (RString ''svm.model'')"]
      returning_call_releases_all [of demo
        "OpSave (RString ''out.model'') (ParamHash demo_param) (ModelHash demo_model)"]
    by blast
qed

section \<open>The unsupported branch of \<^verbatim>\<open>predict_proba\<close>\<close>

text \<open>
  C10. On the unsupported branch \<^verbatim>\<open>predict_proba\<close> returns \<^verbatim>\<open>nil\<close> whatever \<open>x\<close> is and
  whatever the array library would do with it: nothing is cast, read or checked, no
  engine call is made and both decoded structures are released.
\<close>

theorem predict_proba_unsupported_ignores_x:
  assumes "rb_hash_to_svm_parameter E param_hash = Inr prm"
    and "rb_hash_to_svm_model E model_hash = Inr model"
    and "(svm_type prm \<noteq> C_SVC \<and> svm_type prm \<noteq> NU_SVC)
         \<or> probA model = None \<or> probB model = None"
  shows "predict_proba E x_val param_hash model_hash = (Inr None, \<lparr>live = [], calls = []\<rparr>)"
proof -
  have "\<not> proba_supported (model\<lparr>param := prm\<rparr>)"
    using assms(3) by (auto simp: proba_supported_def)
  then show ?thesis by (rule predict_proba_unsupported [OF assms(1,2)])
qed

theorem predict_proba_unsupported_ignores_x_witness:
  "rb_hash_to_svm_parameter demo (ParamHash svr_param) = Inr svr_param
   \<and> rb_hash_to_svm_model demo (ModelHash demo_model) = Inr demo_model
   \<and> svm_type svr_param \<noteq> C_SVC \<and> svm_type svr_param \<noteq> NU_SVC
   \<and> to_DFloat demo (RString ''abc'') = Inl CastError
   \<and> predict_proba demo (RString ''abc'') (ParamHash svr_param) (ModelHash demo_model)
       = (Inr None, \<lparr>live = [], calls = []\<rparr>)"
  using predict_proba_unsupported_ignores_x [of demo "ParamHash svr_param" svr_param
      "ModelHash demo_model" demo_model "RString ''abc''"]
  by (simp add: demo_decodes demo_model_fields svm_types_distinct)
    (simp add: to_DFloat_def demo_def)

end
